theory Spec2Isabelle
  imports Main "HOL-Library.Word" "HOL-Library.Multiset"
begin

unbundle bit_operations_syntax

section \<open>The JVMTI assembly capture agent (jvmtiasmgent.c)\<close>

text \<open>
  The agent is a C program over three globals (\<open>output_file\<close>, \<open>file_lock\<close>,
  \<open>jvmti\<close>). Its functions are embedded as functions over an explicit process state;
  \<open>report_error\<close> (a diagnostic on stderr, then \<open>abort()\<close>) is the left summand of
  the result type. The platform is LP64: \<open>jint\<close> is 32 bits, \<open>jlong\<close>, \<open>long\<close>,
  \<open>size_t\<close> and pointers are 64 bits.
\<close>

subsection \<open>Data\<close>

type_synonym byte = "8 word"
type_synonym jint = "32 word"
type_synonym jlong = "64 word"
type_synonym pointer = "64 word"
type_synonym jmethodID = "64 word"
type_synonym jclass = "64 word"

record timespec =
  tv_sec :: jlong
  tv_nsec :: jlong

text \<open>
  A stdio stream open for writing: the bytes it has received, and how many more the
  device accepts before a write comes back short.
\<close>

record FILE =
  contents :: "byte list"
  room :: nat

datatype jvmtiError =
    JVMTI_ERROR_NONE
  | JVMTI_ERROR_NATIVE_METHOD
  | JVMTI_ERROR_ABSENT_INFORMATION
  | JVMTI_ERROR_WRONG_PHASE
  | JVMTI_ERROR_OTHER nat

text \<open>The arguments of a diagnostic's format string, left symbolic.\<close>

datatype arg =
    Str "string option"
  | Strerror_errno
  | Strerror int
  | GetErrorName jvmtiError

text \<open>
  How the process dies: \<open>Abort\<close> is \<open>report_error\<close> (the format and its arguments go to
  stderr after \<open>Error: \<close>, then \<open>abort()\<close>); \<open>Segfault\<close> is a dereference of a null
  pointer.
\<close>

datatype fatal =
    Abort string "arg list"
  | Segfault

text \<open>The metadata queries of the host runtime, as they are logged.\<close>

datatype jvmti_query =
    Q_GetMethodName jmethodID
  | Q_GetMethodDeclaringClass jmethodID
  | Q_GetClassSignature jclass
  | Q_GetSourceFileName jclass
  | Q_GetLineNumberTable jmethodID

text \<open>
  The process state. \<open>output_file\<close> (\<open>None\<close> is \<open>NULL\<close>) and \<open>file_lock\<close> are the
  globals of the source. The other three fields record what the process does to its
  environment: \<open>next_alloc\<close> is the next fresh heap address (every \<open>calloc\<close> and every
  buffer the runtime allocates takes one), \<open>freed\<close> lists the addresses passed to
  \<open>free\<close> or \<open>Deallocate\<close> in order, and \<open>jvmti_log\<close> lists the metadata queries issued,
  each with the error code it returned and whether \<open>file_lock\<close> was held when it was
  issued.
\<close>

record agent =
  output_file :: "FILE option"
  file_lock :: bool
  next_alloc :: nat
  freed :: "nat list"
  jvmti_log :: "(jvmti_query \<times> jvmtiError \<times> bool) list"

record jvmtiLineNumberEntry =
  start_location :: jlong
  line_number :: jint

text \<open>
  What the process reads from its environment during one callback. A metadata query
  answers with its error code and the values it leaves in its out-parameters; the
  answer may depend on how many queries were issued before (the first argument), so a
  runtime that starts shutting down between two queries is covered. An array a query
  returns together with its count is a list, and the count is its length.
\<close>

record host =
  little_endian :: bool
  clock_gettime :: "int \<times> timespec"
  memory :: "pointer \<Rightarrow> byte"
  jvmti_GetMethodName :: "nat \<Rightarrow> jmethodID \<Rightarrow> jvmtiError \<times> string option \<times> string option"
  jvmti_GetMethodDeclaringClass :: "nat \<Rightarrow> jmethodID \<Rightarrow> jvmtiError \<times> jclass"
  jvmti_GetClassSignature :: "nat \<Rightarrow> jclass \<Rightarrow> jvmtiError \<times> string option"
  jvmti_GetSourceFileName :: "nat \<Rightarrow> jclass \<Rightarrow> jvmtiError \<times> string option"
  jvmti_GetLineNumberTable :: "nat \<Rightarrow> jmethodID \<Rightarrow> jvmtiError \<times> jvmtiLineNumberEntry list option"

type_synonym 'a result = "(fatal \<times> agent) + 'a"
type_synonym cmd = "agent \<Rightarrow> agent result"

text \<open>Statements in sequence; the first fatal error ends the process.\<close>

fun run :: "cmd list \<Rightarrow> cmd" where
  "run [] s = Inr s"
| "run (c # cs) s = (case c s of Inl e \<Rightarrow> Inl e | Inr s' \<Rightarrow> run cs s')"

definition report_error :: "string \<Rightarrow> arg list \<Rightarrow> agent \<Rightarrow> 'a result" where
  "report_error format ap s = Inl (Abort format ap, s)"

subsection \<open>Section tags\<close>

definition TAG_VALUE :: "char \<Rightarrow> nat \<Rightarrow> jint" where
  "TAG_VALUE t shift = push_bit shift (of_char t AND 0xff)"

definition BUILD_TAG :: "char \<Rightarrow> char \<Rightarrow> char \<Rightarrow> char \<Rightarrow> jint" where
  "BUILD_TAG a b c d = TAG_VALUE a 24 OR TAG_VALUE b 16 OR TAG_VALUE c 8 OR TAG_VALUE d 0"

definition DynamicCodeTag :: jint where
  "DynamicCodeTag = BUILD_TAG (CHR ''D'') (CHR ''Y'') (CHR ''N'') (CHR ''C'')"

definition CompiledMethodLoadTag :: jint where
  "CompiledMethodLoadTag = BUILD_TAG (CHR ''C'') (CHR ''M'') (CHR ''L'') (CHR ''T'')"

definition MethodsTag :: jint where
  "MethodsTag = BUILD_TAG (CHR ''M'') (CHR ''T'') (CHR ''H'') (CHR ''T'')"

definition DebugInfoTag :: jint where
  "DebugInfoTag = BUILD_TAG (CHR ''D'') (CHR ''E'') (CHR ''B'') (CHR ''I'')"

definition CompiledMethodUnloadTag :: jint where
  "CompiledMethodUnloadTag = BUILD_TAG (CHR ''C'') (CHR ''M'') (CHR ''U'') (CHR ''T'')"

subsection \<open>The file lock\<close>

text \<open>
  One thread is followed at a time. A thread that finds the mutex held cannot go on,
  and unlocking a mutex that is not held is an error; both are given as the error
  codes of an error-checking mutex, which the source turns into \<open>report_error\<close>.
\<close>

definition EPERM :: int where "EPERM = 1"
definition EDEADLK :: int where "EDEADLK = 35"

definition pthread_mutex_lock :: "agent \<Rightarrow> int \<times> agent" where
  "pthread_mutex_lock s = (if file_lock s then (EDEADLK, s) else (0, s\<lparr>file_lock := True\<rparr>))"

definition pthread_mutex_unlock :: "agent \<Rightarrow> int \<times> agent" where
  "pthread_mutex_unlock s = (if file_lock s then (0, s\<lparr>file_lock := False\<rparr>) else (EPERM, s))"

definition lock_output_file :: cmd where
  "lock_output_file s =
     (let (err, s') = pthread_mutex_lock s
      in if err \<noteq> 0 then report_error ''Error locking file: %s'' [Strerror err] s' else Inr s')"

definition unlock_output_file :: cmd where
  "unlock_output_file s =
     (let (err, s') = pthread_mutex_unlock s
      in if err \<noteq> 0 then report_error ''Error unlocking file: %s'' [Strerror err] s' else Inr s')"

subsection \<open>Writing to the output file\<close>

text \<open>
  \<open>fwrite ptr size nmemb stream\<close>: \<open>ptr\<close> is the object the pointer addresses, as
  bytes. With a zero \<open>size\<close> or \<open>nmemb\<close> it returns 0 and leaves the stream alone (C11
  7.21.8.2). A request the object or the device cannot serve is a short write: the
  bytes that fit are written and 0 complete members are reported.
\<close>

definition fwrite :: "byte list \<Rightarrow> nat \<Rightarrow> nat \<Rightarrow> FILE \<Rightarrow> nat \<times> FILE" where
  "fwrite ptr size' nmemb stream =
     (if size' = 0 \<or> nmemb = 0 then (0, stream)
      else if size' * nmemb \<le> length ptr \<and> size' * nmemb \<le> room stream
      then (nmemb, stream\<lparr>contents := contents stream @ take (size' * nmemb) ptr,
                          room := room stream - size' * nmemb\<rparr>)
      else (0, stream\<lparr>contents := contents stream @ take (room stream) (take (size' * nmemb) ptr),
                      room := room stream - length (take (room stream) (take (size' * nmemb) ptr))\<rparr>))"

text \<open>The conversion of an \<open>int\<close> argument to \<open>size_t\<close>.\<close>

definition size_t_of_int :: "int \<Rightarrow> nat" where
  "size_t_of_int n = nat (n mod 2 ^ 64)"

definition write_or_fail :: "byte list \<Rightarrow> int \<Rightarrow> cmd" where
  "write_or_fail data bytes s =
     (case output_file s of
        None \<Rightarrow> Inl (Segfault, s)
      | Some stream \<Rightarrow>
          (let (n, stream') = fwrite data (size_t_of_int bytes) 1 stream;
               s' = s\<lparr>output_file := Some stream'\<rparr>
           in if n \<noteq> 1 then report_error ''failed to write bytes: %s'' [Strerror_errno] s'
              else Inr s'))"

text \<open>
  \<open>htonl\<close> is the identity on a big-endian host and swaps the four bytes on a
  little-endian one. \<open>bytes32\<close> and \<open>bytes64\<close> are the object representations that
  \<open>&value\<close> addresses: least significant byte first on a little-endian host.
\<close>

definition bswap32 :: "32 word \<Rightarrow> 32 word" where
  "bswap32 x = push_bit 24 (x AND 0xff) OR push_bit 8 (x AND 0xff00)
               OR (drop_bit 8 x AND 0xff00) OR (drop_bit 24 x AND 0xff)"

definition htonl :: "host \<Rightarrow> 32 word \<Rightarrow> 32 word" where
  "htonl h x = (if little_endian h then bswap32 x else x)"

definition bytes32 :: "host \<Rightarrow> 32 word \<Rightarrow> byte list" where
  "bytes32 h x =
     (if little_endian h
      then [ucast x, ucast (drop_bit 8 x), ucast (drop_bit 16 x), ucast (drop_bit 24 x)]
      else [ucast (drop_bit 24 x), ucast (drop_bit 16 x), ucast (drop_bit 8 x), ucast x])"

definition bytes64 :: "host \<Rightarrow> 64 word \<Rightarrow> byte list" where
  "bytes64 h x =
     (if little_endian h
      then [ucast x, ucast (drop_bit 8 x), ucast (drop_bit 16 x), ucast (drop_bit 24 x),
            ucast (drop_bit 32 x), ucast (drop_bit 40 x), ucast (drop_bit 48 x),
            ucast (drop_bit 56 x)]
      else [ucast (drop_bit 56 x), ucast (drop_bit 48 x), ucast (drop_bit 40 x),
            ucast (drop_bit 32 x), ucast (drop_bit 24 x), ucast (drop_bit 16 x),
            ucast (drop_bit 8 x), ucast x])"

definition write_jint :: "host \<Rightarrow> jint \<Rightarrow> cmd" where
  "write_jint h v = write_or_fail (bytes32 h (htonl h v)) 4"

definition write_unsigned_jlong :: "host \<Rightarrow> jlong \<Rightarrow> cmd" where
  "write_unsigned_jlong h v =
     (if 1 \<noteq> htonl h 1
      then (let lo = (ucast v :: jint);
                hi = (ucast (signed_drop_bit 32 v) :: jint)
            in run [write_jint h hi, write_jint h lo])
      else write_or_fail (bytes64 h v) 8)"

definition INT_MAX :: nat where
  "INT_MAX = 2147483647"

definition strlen :: "string \<Rightarrow> nat" where
  "strlen str = length str"

definition chars :: "string \<Rightarrow> byte list" where
  "chars str = map of_char str"

definition write_string :: "host \<Rightarrow> string option \<Rightarrow> string option \<Rightarrow> cmd" where
  "write_string h str message s =
     (case str of
        None \<Rightarrow>
          report_error (''Unexpected NULL string for '' @ [CHR 0x22] @ ''%s'' @ [CHR 0x22])
            [Str message] s
      | Some cs \<Rightarrow>
          (let full_len = strlen cs
           in if full_len > INT_MAX then report_error ''String length is longer than an int'' [] s
              else (let len = (of_nat full_len :: jint)
                    in run [write_jint h len,
                            (\<lambda>s. if 0 <s len then write_or_fail (chars cs) (sint len) s else Inr s)]
                         s)))"

definition write_string_or_null :: "host \<Rightarrow> string option \<Rightarrow> cmd" where
  "write_string_or_null h str s =
     (case str of
        None \<Rightarrow> write_jint h (- 1) s
      | Some cs \<Rightarrow> write_string h (Some cs) None s)"

definition get_timestamp :: "host \<Rightarrow> agent \<Rightarrow> (timespec \<times> agent) result" where
  "get_timestamp h s =
     (let (ret, ts) = clock_gettime h
      in if ret \<noteq> 0
         then report_error ''Error while writing timestamp: clock_gettime %s'' [Strerror_errno] s
         else Inr (ts, s))"

definition write_timestamp :: "host \<Rightarrow> timespec \<Rightarrow> cmd" where
  "write_timestamp h ts = run [write_unsigned_jlong h (tv_sec ts), write_unsigned_jlong h (tv_nsec ts)]"

text \<open>\<open>fflush\<close>: the stream holds every byte written in this model; the result is ignored.\<close>

definition fflush :: cmd where
  "fflush s = Inr s"

text \<open>The \<open>code_size\<close> bytes of machine code at \<open>code_addr\<close>.\<close>

definition code_bytes :: "host \<Rightarrow> pointer \<Rightarrow> jint \<Rightarrow> byte list" where
  "code_bytes h code_addr code_size =
     map (\<lambda>i. memory h (code_addr + of_nat i)) [0..<nat (sint code_size)]"

subsection \<open>The unload and dynamic-code callbacks\<close>

definition compiledMethodUnload :: "host \<Rightarrow> jmethodID \<Rightarrow> pointer \<Rightarrow> cmd" where
  "compiledMethodUnload h methodID code_addr s =
     (case get_timestamp h s of
        Inl e \<Rightarrow> Inl e
      | Inr (timestamp, s1) \<Rightarrow>
          run [lock_output_file,
               (\<lambda>s. if output_file s \<noteq> None
                    then run [write_jint h CompiledMethodUnloadTag,
                              write_timestamp h timestamp,
                              write_unsigned_jlong h code_addr,
                              fflush] s
                    else Inr s),
               unlock_output_file] s1)"

definition dynamicCodeGenerated :: "host \<Rightarrow> string option \<Rightarrow> pointer \<Rightarrow> jint \<Rightarrow> cmd" where
  "dynamicCodeGenerated h name code_addr code_size s =
     (case get_timestamp h s of
        Inl e \<Rightarrow> Inl e
      | Inr (timestamp, s1) \<Rightarrow>
          run [lock_output_file,
               (\<lambda>s. if output_file s \<noteq> None
                    then run [write_jint h DynamicCodeTag,
                              write_timestamp h timestamp,
                              write_string h name (Some ''dynamic code name''),
                              write_unsigned_jlong h code_addr,
                              write_jint h code_size,
                              write_or_fail (code_bytes h code_addr code_size) (sint code_size),
                              fflush] s
                    else Inr s),
               unlock_output_file] s1)"

subsection \<open>The method cache\<close>

text \<open>
  A pointer to a heap object: \<open>None\<close> is \<open>NULL\<close>, \<open>Some (a, v)\<close> is the address \<open>a\<close>
  of an allocation that holds \<open>v\<close>.
\<close>

type_synonym 'a ptr = "(nat \<times> 'a) option"

text \<open>
  \<open>struct MethodData\<close>. The list of the source is linked through \<open>next\<close>; here it is a
  \<open>MethodData list\<close>. \<open>self_addr\<close> is the address \<open>calloc\<close> returned for the record;
  \<open>id_field\<close> is the field \<open>id\<close> and \<open>methodID\<close> the field \<open>method\<close>.
\<close>

record MethodData =
  self_addr :: nat
  id_field :: jint
  methodID :: jmethodID
  source_file :: "string ptr"
  method_name :: "string ptr"
  method_signature :: "string ptr"
  class_signature :: "string ptr"
  line_number_table_count :: jint
  line_number_table :: "jvmtiLineNumberEntry list ptr"

definition deref :: "'a ptr \<Rightarrow> 'a option" where
  "deref p = map_option snd p"

definition calloc :: "agent \<Rightarrow> nat \<times> agent" where
  "calloc s = (next_alloc s, s\<lparr>next_alloc := Suc (next_alloc s)\<rparr>)"

text \<open>The buffer the runtime allocates for an out-parameter it sets.\<close>

definition allocated :: "'a option \<Rightarrow> agent \<Rightarrow> 'a ptr \<times> agent" where
  "allocated v s =
     (case v of
        None \<Rightarrow> (None, s)
      | Some x \<Rightarrow> (Some (next_alloc s, x), s\<lparr>next_alloc := Suc (next_alloc s)\<rparr>))"

definition logged :: "jvmti_query \<Rightarrow> jvmtiError \<Rightarrow> agent \<Rightarrow> agent" where
  "logged q result s = s\<lparr>jvmti_log := jvmti_log s @ [(q, result, file_lock s)]\<rparr>"

definition GetMethodName ::
  "host \<Rightarrow> jmethodID \<Rightarrow> agent \<Rightarrow> jvmtiError \<times> string ptr \<times> string ptr \<times> agent" where
  "GetMethodName h m s =
     (let (result, name, signature) = jvmti_GetMethodName h (length (jvmti_log s)) m;
          (name_ptr, s1) = allocated name s;
          (signature_ptr, s2) = allocated signature s1
      in (result, name_ptr, signature_ptr, logged (Q_GetMethodName m) result s2))"

definition GetMethodDeclaringClass :: "host \<Rightarrow> jmethodID \<Rightarrow> agent \<Rightarrow> jvmtiError \<times> jclass \<times> agent" where
  "GetMethodDeclaringClass h m s =
     (let (result, klass) = jvmti_GetMethodDeclaringClass h (length (jvmti_log s)) m
      in (result, klass, logged (Q_GetMethodDeclaringClass m) result s))"

definition GetClassSignature :: "host \<Rightarrow> jclass \<Rightarrow> agent \<Rightarrow> jvmtiError \<times> string ptr \<times> agent" where
  "GetClassSignature h klass s =
     (let (result, signature) = jvmti_GetClassSignature h (length (jvmti_log s)) klass;
          (signature_ptr, s1) = allocated signature s
      in (result, signature_ptr, logged (Q_GetClassSignature klass) result s1))"

definition GetSourceFileName :: "host \<Rightarrow> jclass \<Rightarrow> agent \<Rightarrow> jvmtiError \<times> string ptr \<times> agent" where
  "GetSourceFileName h klass s =
     (let (result, name) = jvmti_GetSourceFileName h (length (jvmti_log s)) klass;
          (name_ptr, s1) = allocated name s
      in (result, name_ptr, logged (Q_GetSourceFileName klass) result s1))"

text \<open>
  \<open>GetLineNumberTable\<close> sets the count and the table together; when it sets neither,
  \<open>calloc\<close>'s zero count and null table stay.
\<close>

definition GetLineNumberTable ::
  "host \<Rightarrow> jmethodID \<Rightarrow> agent \<Rightarrow> jvmtiError \<times> jint \<times> jvmtiLineNumberEntry list ptr \<times> agent" where
  "GetLineNumberTable h m s =
     (let (result, table) = jvmti_GetLineNumberTable h (length (jvmti_log s)) m;
          (table_ptr, s1) = allocated table s
      in (result, (case table of None \<Rightarrow> 0 | Some es \<Rightarrow> of_nat (length es)), table_ptr,
          logged (Q_GetLineNumberTable m) result s1))"

definition jvmti_report_error :: "string \<Rightarrow> jvmtiError \<Rightarrow> agent \<Rightarrow> 'a result" where
  "jvmti_report_error message result s =
     report_error ''%s: %s'' [Str (Some message), GetErrorName result] s"

text \<open>\<open>Deallocate\<close> and \<open>free\<close> of a non-null pointer.\<close>

definition Deallocate :: "'a ptr \<Rightarrow> agent \<Rightarrow> agent" where
  "Deallocate p s = (case p of None \<Rightarrow> s | Some (a, v) \<Rightarrow> s\<lparr>freed := freed s @ [a]\<rparr>)"

definition free :: "nat \<Rightarrow> agent \<Rightarrow> agent" where
  "free a s = s\<lparr>freed := freed s @ [a]\<rparr>"

definition free_method :: "MethodData \<Rightarrow> agent \<Rightarrow> agent" where
  "free_method m s =
     (let s = (if source_file m \<noteq> None then Deallocate (source_file m) s else s);
          s = (if method_name m \<noteq> None then Deallocate (method_name m) s else s);
          s = (if method_signature m \<noteq> None then Deallocate (method_signature m) s else s);
          s = (if class_signature m \<noteq> None then Deallocate (class_signature m) s else s);
          s = (if line_number_table m \<noteq> None then Deallocate (line_number_table m) s else s)
      in free (self_addr m) s)"

definition check_method_error ::
  "string \<Rightarrow> jvmtiError \<Rightarrow> MethodData \<Rightarrow> agent \<Rightarrow> (bool \<times> agent) result" where
  "check_method_error message result m s =
     (if result \<noteq> JVMTI_ERROR_NONE \<and> result \<noteq> JVMTI_ERROR_NATIVE_METHOD
         \<and> result \<noteq> JVMTI_ERROR_ABSENT_INFORMATION
      then (if result = JVMTI_ERROR_WRONG_PHASE then Inr (True, free_method m s)
            else jvmti_report_error message result s)
      else Inr (False, s))"

text \<open>
  The five queries of \<open>lookup_method\<close>, each with its \<open>check_method_error\<close>: the result
  is \<open>None\<close> where the source returns \<open>NULL\<close>. The declaring class is read from the
  local \<open>class\<close> whatever \<open>GetMethodDeclaringClass\<close> answered, as in the source.
\<close>

definition query_method_name :: "host \<Rightarrow> MethodData \<Rightarrow> agent \<Rightarrow> (MethodData option \<times> agent) result" where
  "query_method_name h current s =
     (let (result, name, signature, s) = GetMethodName h (methodID current) s;
          current = current\<lparr>method_name := name, method_signature := signature\<rparr>
      in case check_method_error ''GetMethodName'' result current s of
           Inl e \<Rightarrow> Inl e
         | Inr (True, s) \<Rightarrow> Inr (None, s)
         | Inr (False, s) \<Rightarrow> Inr (Some current, s))"

definition query_declaring_class :: "host \<Rightarrow> MethodData \<Rightarrow> agent \<Rightarrow> (jclass option \<times> agent) result" where
  "query_declaring_class h current s =
     (let (result, klass, s) = GetMethodDeclaringClass h (methodID current) s
      in case check_method_error ''GetMethodDeclaringClass'' result current s of
           Inl e \<Rightarrow> Inl e
         | Inr (True, s) \<Rightarrow> Inr (None, s)
         | Inr (False, s) \<Rightarrow> Inr (Some klass, s))"

definition query_class_signature ::
  "host \<Rightarrow> jclass \<Rightarrow> MethodData \<Rightarrow> agent \<Rightarrow> (MethodData option \<times> agent) result" where
  "query_class_signature h klass current s =
     (let (result, signature, s) = GetClassSignature h klass s;
          current = current\<lparr>class_signature := signature\<rparr>
      in case check_method_error ''GetClassSignature'' result current s of
           Inl e \<Rightarrow> Inl e
         | Inr (True, s) \<Rightarrow> Inr (None, s)
         | Inr (False, s) \<Rightarrow> Inr (Some current, s))"

definition query_source_file ::
  "host \<Rightarrow> jclass \<Rightarrow> MethodData \<Rightarrow> agent \<Rightarrow> (MethodData option \<times> agent) result" where
  "query_source_file h klass current s =
     (let (result, name, s) = GetSourceFileName h klass s;
          current = current\<lparr>source_file := name\<rparr>
      in case check_method_error ''GetSourceFileName'' result current s of
           Inl e \<Rightarrow> Inl e
         | Inr (True, s) \<Rightarrow> Inr (None, s)
         | Inr (False, s) \<Rightarrow> Inr (Some current, s))"

definition query_line_number_table ::
  "host \<Rightarrow> MethodData \<Rightarrow> agent \<Rightarrow> (MethodData option \<times> agent) result" where
  "query_line_number_table h current s =
     (let (result, n, table, s) = GetLineNumberTable h (methodID current) s;
          current = current\<lparr>line_number_table_count := n, line_number_table := table\<rparr>
      in case check_method_error ''GetLineNumberTable'' result current s of
           Inl e \<Rightarrow> Inl e
         | Inr (True, s) \<Rightarrow> Inr (None, s)
         | Inr (False, s) \<Rightarrow> Inr (Some current, s))"

text \<open>
  \<open>lookup_method\<close> returns the record it found or made (\<open>None\<close> is \<open>NULL\<close>), and the
  list and the count behind its two in-out parameters.
\<close>

definition lookup_method ::
  "host \<Rightarrow> jmethodID \<Rightarrow> MethodData list \<Rightarrow> jint \<Rightarrow> agent
     \<Rightarrow> (MethodData option \<times> MethodData list \<times> jint \<times> agent) result" where
  "lookup_method h m methods methods_count s =
     (case find (\<lambda>current. methodID current = m) methods of
        Some current \<Rightarrow> Inr (Some current, methods, methods_count, s)
      | None \<Rightarrow>
         (let (p, s) = calloc s;
              current = \<lparr>self_addr = p, id_field = 0, methodID = m, source_file = None,
                         method_name = None, method_signature = None, class_signature = None,
                         line_number_table_count = 0, line_number_table = None\<rparr>
          in case query_method_name h current s of
               Inl e \<Rightarrow> Inl e
             | Inr (None, s) \<Rightarrow> Inr (None, methods, methods_count, s)
             | Inr (Some current, s) \<Rightarrow>
         (case query_declaring_class h current s of
               Inl e \<Rightarrow> Inl e
             | Inr (None, s) \<Rightarrow> Inr (None, methods, methods_count, s)
             | Inr (Some klass, s) \<Rightarrow>
         (case query_class_signature h klass current s of
               Inl e \<Rightarrow> Inl e
             | Inr (None, s) \<Rightarrow> Inr (None, methods, methods_count, s)
             | Inr (Some current, s) \<Rightarrow>
         (case query_source_file h klass current s of
               Inl e \<Rightarrow> Inl e
             | Inr (None, s) \<Rightarrow> Inr (None, methods, methods_count, s)
             | Inr (Some current, s) \<Rightarrow>
         (case query_line_number_table h current s of
               Inl e \<Rightarrow> Inl e
             | Inr (None, s) \<Rightarrow> Inr (None, methods, methods_count, s)
             | Inr (Some current, s) \<Rightarrow>
         (let current = (if methods = [] then current
                         else current\<lparr>id_field := id_field (last methods) + 1\<rparr>)
          in Inr (Some current, methods @ [current], methods_count + 1, s))))))))"

subsection \<open>The compiled-method-load callback\<close>

text \<open>
  \<open>jvmticmlr.h\<close>: the \<open>compile_info\<close> chain is a list of records linked through
  \<open>next\<close>. A record of kind \<open>JVMTI_CMLR_INLINE_INFO\<close> holds \<open>numpcs\<close> entries
  \<open>pcinfo\<close>; a \<open>PCStackInfo\<close> holds a \<open>pc\<close> and \<open>numstackframes\<close> pairs
  \<open>methods[j]\<close>, \<open>bcis[j]\<close>. Each counted array is a list and its count the length.
\<close>

datatype jvmtiCMLRKind = JVMTI_CMLR_DUMMY | JVMTI_CMLR_INLINE_INFO

record PCStackInfo =
  pc :: pointer
  stackframes :: "(jmethodID \<times> jint) list"

record jvmtiCompiledMethodLoadRecord =
  kind :: jvmtiCMLRKind
  pcinfo :: "PCStackInfo list"

text \<open>The body of the loop over the methods seen (one entry of the method table).\<close>

definition write_method :: "host \<Rightarrow> MethodData \<Rightarrow> cmd" where
  "write_method h current =
     run ([write_string h (deref (class_signature current)) (Some ''class_signature''),
           write_string h (deref (method_name current)) (Some ''method_name''),
           write_string h (deref (method_signature current)) (Some ''method_signature''),
           write_string_or_null h (deref (source_file current)),
           write_jint h (line_number_table_count current)]
          @ (if 0 <s line_number_table_count current
             then (case line_number_table current of
                     None \<Rightarrow> [\<lambda>s. Inl (Segfault, s)]
                   | Some (a, table) \<Rightarrow>
                       concat (map (\<lambda>entry. [write_unsigned_jlong h (start_location entry),
                                              write_jint h (line_number entry)])
                                   (take (nat (sint (line_number_table_count current))) table)))
             else []))"

text \<open>
  The loop over the stack frames of one \<open>PCStackInfo\<close> in the debug-info section. It
  calls \<open>lookup_method\<close> on the local list and count, and dereferences the result.
\<close>

fun write_stackframes ::
  "host \<Rightarrow> (jmethodID \<times> jint) list \<Rightarrow> MethodData list \<Rightarrow> jint \<Rightarrow> agent
     \<Rightarrow> (MethodData list \<times> jint \<times> agent) result" where
  "write_stackframes h [] methods methods_count s = Inr (methods, methods_count, s)"
| "write_stackframes h ((m, bci) # frames) methods methods_count s =
     (case lookup_method h m methods methods_count s of
        Inl e \<Rightarrow> Inl e
      | Inr (None, methods', methods_count', s') \<Rightarrow> Inl (Segfault, s')
      | Inr (Some md, methods', methods_count', s') \<Rightarrow>
          (case run [write_jint h (id_field md), write_jint h bci] s' of
             Inl e \<Rightarrow> Inl e
           | Inr s'' \<Rightarrow> write_stackframes h frames methods' methods_count' s''))"

fun write_pcinfo ::
  "host \<Rightarrow> PCStackInfo list \<Rightarrow> MethodData list \<Rightarrow> jint \<Rightarrow> agent
     \<Rightarrow> (MethodData list \<times> jint \<times> agent) result" where
  "write_pcinfo h [] methods methods_count s = Inr (methods, methods_count, s)"
| "write_pcinfo h (info # infos) methods methods_count s =
     (case run [write_unsigned_jlong h (pc info),
                write_jint h (of_nat (length (stackframes info)))] s of
        Inl e \<Rightarrow> Inl e
      | Inr s' \<Rightarrow>
          (case write_stackframes h (stackframes info) methods methods_count s' of
             Inl e \<Rightarrow> Inl e
           | Inr (methods', methods_count', s'') \<Rightarrow>
               write_pcinfo h infos methods' methods_count' s''))"

text \<open>
  \<open>write_method_load_event\<close>. Its \<open>methods\<close> parameter is a copy of the caller's
  pointer to the head of the list, so a record that \<open>lookup_method\<close> appended to a
  non-empty list is reachable from the caller's list too: the list is returned.
\<close>

definition write_method_load_event ::
  "host \<Rightarrow> timespec \<Rightarrow> jint \<Rightarrow> pointer \<Rightarrow> jint \<Rightarrow> MethodData list
     \<Rightarrow> jvmtiCompiledMethodLoadRecord option \<Rightarrow> agent \<Rightarrow> (MethodData list \<times> agent) result" where
  "write_method_load_event h timestamp code_size code_addr methods_count methods inline_records s =
     (case lock_output_file s of
        Inl e \<Rightarrow> Inl e
      | Inr s \<Rightarrow>
         (case (if output_file s \<noteq> None
                then (case run ([write_jint h CompiledMethodLoadTag,
                                 write_timestamp h timestamp,
                                 write_unsigned_jlong h code_addr,
                                 write_jint h code_size,
                                 write_or_fail (code_bytes h code_addr code_size) (sint code_size),
                                 write_jint h MethodsTag,
                                 write_jint h methods_count]
                                @ map (write_method h) methods
                                @ [write_jint h DebugInfoTag]) s of
                        Inl e \<Rightarrow> Inl e
                      | Inr s \<Rightarrow>
                         (case (case inline_records of
                                  Some r \<Rightarrow>
                                    (case write_jint h (of_nat (length (pcinfo r))) s of
                                       Inl e \<Rightarrow> Inl e
                                     | Inr s \<Rightarrow> write_pcinfo h (pcinfo r) methods methods_count s)
                                | None \<Rightarrow>
                                    (case write_jint h 0 s of
                                       Inl e \<Rightarrow> Inl e
                                     | Inr s \<Rightarrow> Inr (methods, methods_count, s))) of
                            Inl e \<Rightarrow> Inl e
                          | Inr (methods', methods_count', s) \<Rightarrow>
                              (case fflush s of
                                 Inl e \<Rightarrow> Inl e
                               | Inr s \<Rightarrow> Inr (if methods = [] then [] else methods', s))))
                else Inr (methods, s)) of
            Inl e \<Rightarrow> Inl e
          | Inr (methods', s) \<Rightarrow>
              (case unlock_output_file s of
                 Inl e \<Rightarrow> Inl e
               | Inr s \<Rightarrow> Inr (methods', s))))"

text \<open>
  The two inner loops of \<open>compiledMethodLoad\<close> over one inline record; the flag is
  \<open>True\<close> when a lookup returned \<open>NULL\<close> (\<open>goto cleanup\<close>).
\<close>

fun lookup_stackframes ::
  "host \<Rightarrow> (jmethodID \<times> jint) list \<Rightarrow> MethodData list \<Rightarrow> jint \<Rightarrow> agent
     \<Rightarrow> (bool \<times> MethodData list \<times> jint \<times> agent) result" where
  "lookup_stackframes h [] methods methods_count s = Inr (False, methods, methods_count, s)"
| "lookup_stackframes h ((m, bci) # frames) methods methods_count s =
     (case lookup_method h m methods methods_count s of
        Inl e \<Rightarrow> Inl e
      | Inr (None, methods', methods_count', s') \<Rightarrow> Inr (True, methods', methods_count', s')
      | Inr (Some md, methods', methods_count', s') \<Rightarrow>
          lookup_stackframes h frames methods' methods_count' s')"

fun lookup_pcinfo ::
  "host \<Rightarrow> PCStackInfo list \<Rightarrow> MethodData list \<Rightarrow> jint \<Rightarrow> agent
     \<Rightarrow> (bool \<times> MethodData list \<times> jint \<times> agent) result" where
  "lookup_pcinfo h [] methods methods_count s = Inr (False, methods, methods_count, s)"
| "lookup_pcinfo h (info # infos) methods methods_count s =
     (case lookup_stackframes h (stackframes info) methods methods_count s of
        Inl e \<Rightarrow> Inl e
      | Inr (True, methods', methods_count', s') \<Rightarrow> Inr (True, methods', methods_count', s')
      | Inr (False, methods', methods_count', s') \<Rightarrow>
          lookup_pcinfo h infos methods' methods_count' s')"

text \<open>
  The loop over the \<open>compile_info\<close> chain (\<open>NULL\<close> is the empty chain): it stops at
  the first record of kind \<open>JVMTI_CMLR_INLINE_INFO\<close>, which becomes \<open>inline_records\<close>.
\<close>

fun scan_compile_info ::
  "host \<Rightarrow> jvmtiCompiledMethodLoadRecord list \<Rightarrow> MethodData list \<Rightarrow> jint \<Rightarrow> agent
     \<Rightarrow> (bool \<times> jvmtiCompiledMethodLoadRecord option \<times> MethodData list \<times> jint \<times> agent) result"
  where
  "scan_compile_info h [] methods methods_count s = Inr (False, None, methods, methods_count, s)"
| "scan_compile_info h (header # chain) methods methods_count s =
     (if kind header = JVMTI_CMLR_INLINE_INFO
      then (case lookup_pcinfo h (pcinfo header) methods methods_count s of
              Inl e \<Rightarrow> Inl e
            | Inr (abandon, methods', methods_count', s') \<Rightarrow>
                Inr (abandon, Some header, methods', methods_count', s'))
      else scan_compile_info h chain methods methods_count s)"

text \<open>The loop at \<open>cleanup\<close>.\<close>

definition cleanup :: "MethodData list \<Rightarrow> agent \<Rightarrow> agent" where
  "cleanup methods s = fold free_method methods s"

definition compiledMethodLoad ::
  "host \<Rightarrow> jmethodID \<Rightarrow> jint \<Rightarrow> pointer \<Rightarrow> jvmtiCompiledMethodLoadRecord list \<Rightarrow> cmd" where
  "compiledMethodLoad h m code_size code_addr compile_info s =
     (case get_timestamp h s of
        Inl e \<Rightarrow> Inl e
      | Inr (timestamp, s) \<Rightarrow>
         (case lookup_method h m [] 0 s of
            Inl e \<Rightarrow> Inl e
          | Inr (None, methods, methods_count, s) \<Rightarrow> Inr (cleanup methods s)
          | Inr (Some md, methods, methods_count, s) \<Rightarrow>
             (case scan_compile_info h compile_info methods methods_count s of
                Inl e \<Rightarrow> Inl e
              | Inr (True, inline_records, methods, methods_count, s) \<Rightarrow>
                  Inr (cleanup methods s)
              | Inr (False, inline_records, methods, methods_count, s) \<Rightarrow>
                 (case write_method_load_event h timestamp code_size code_addr methods_count
                         methods inline_records s of
                    Inl e \<Rightarrow> Inl e
                  | Inr (methods, s) \<Rightarrow> Inr (cleanup methods s)))))"

subsection \<open>Attach and detach\<close>

text \<open>\<open>strstr\<close>: the offset of the first occurrence of the needle, if there is one.\<close>

fun strstr :: "string \<Rightarrow> string \<Rightarrow> nat option" where
  "strstr [] needle = (if needle = [] then Some 0 else None)"
| "strstr (c # cs) needle =
     (if take (length needle) (c # cs) = needle then Some 0
      else map_option Suc (strstr cs needle))"

text \<open>The conversion \<open>%d\<close>: the decimal digits of an \<open>int\<close>, with its sign.\<close>

fun decimal_nat :: "nat \<Rightarrow> string" where
  "decimal_nat n =
     (if n < 10 then [char_of (48 + n)] else decimal_nat (n div 10) @ [char_of (48 + n mod 10)])"

declare decimal_nat.simps [simp del]

definition decimal :: "int \<Rightarrow> string" where
  "decimal i = (if i < 0 then CHR ''-'' # decimal_nat (nat (- i)) else decimal_nat (nat i))"

text \<open>
  \<open>snprintf(buffer, size, "%d", i)\<close> stores at most \<open>size - 1\<close> characters before the
  terminator.
\<close>

definition snprintf_d :: "nat \<Rightarrow> int \<Rightarrow> string" where
  "snprintf_d size' i = take (size' - 1) (decimal i)"

text \<open>
  The name \<open>Agent_OnLoad\<close> passes to \<open>fopen\<close>, from the option string and the result of
  \<open>getpid\<close> (an \<open>int\<close>). \<open>strncat\<close> appends the characters before the placeholder and the two
  \<open>strcat\<close> calls append the digits and the rest of the option string.
\<close>

definition filename :: "string \<Rightarrow> jint \<Rightarrow> string" where
  "filename options pid =
     (case strstr options ''%p'' of
        None \<Rightarrow> options
      | Some pid_location \<Rightarrow>
          (let buffer = snprintf_d 32 (sint pid);
               name = [];
               name = name @ take pid_location options;
               name = name @ buffer;
               name = name @ drop (pid_location + 2) options
           in name))"

text \<open>\<open>Agent_OnUnload\<close>; \<open>fclose\<close> of a null stream dereferences it.\<close>

definition Agent_OnUnload :: cmd where
  "Agent_OnUnload s =
     run [lock_output_file,
          (\<lambda>s. if output_file s = None then Inl (Segfault, s) else Inr (s\<lparr>output_file := None\<rparr>)),
          unlock_output_file] s"

definition be32 :: "32 word \<Rightarrow> byte list" where
  "be32 x = [ucast (drop_bit 24 x), ucast (drop_bit 16 x), ucast (drop_bit 8 x), ucast x]"

definition be64 :: "64 word \<Rightarrow> byte list" where
  "be64 x = [ucast (drop_bit 56 x), ucast (drop_bit 48 x), ucast (drop_bit 40 x),
             ucast (drop_bit 32 x), ucast (drop_bit 24 x), ucast (drop_bit 16 x),
             ucast (drop_bit 8 x), ucast x]"

definition wrote :: "byte list \<Rightarrow> agent \<Rightarrow> agent" where
  "wrote bs s =
     s\<lparr>output_file :=
         map_option (\<lambda>f. f\<lparr>contents := contents f @ bs, room := room f - length bs\<rparr>)
           (output_file s)\<rparr>"

definition is_open :: "agent \<Rightarrow> bool" where
  "is_open s = (output_file s \<noteq> None)"

definition space :: "agent \<Rightarrow> nat" where
  "space s = (case output_file s of None \<Rightarrow> 0 | Some f \<Rightarrow> room f)"

definition addr :: "'a ptr \<Rightarrow> nat list" where
  "addr p = (case p of None \<Rightarrow> [] | Some (a, v) \<Rightarrow> [a])"

definition owned :: "MethodData \<Rightarrow> nat list" where
  "owned m = addr (source_file m) @ addr (method_name m) @ addr (method_signature m)
           @ addr (class_signature m) @ addr (line_number_table m) @ [self_addr m]"

definition quiet :: "agent \<Rightarrow> agent \<Rightarrow> bool" where
  "quiet s s' \<longleftrightarrow> output_file s' = output_file s \<and> file_lock s' = file_lock s \<and> freed s' = freed s
      \<and> (\<exists>new. jvmti_log s' = jvmti_log s @ new
            \<and> (\<forall>e\<in>set new. snd (snd e) = file_lock s \<and> fst (snd e) \<noteq> JVMTI_ERROR_WRONG_PHASE))"

definition shut :: "agent \<Rightarrow> agent \<Rightarrow> bool" where
  "shut s s' \<longleftrightarrow> output_file s' = output_file s \<and> file_lock s' = file_lock s
      \<and> (\<exists>new. jvmti_log s' = jvmti_log s @ new
            \<and> (\<forall>e\<in>set new. snd (snd e) = file_lock s)
            \<and> (\<exists>e\<in>set new. fst (snd e) = JVMTI_ERROR_WRONG_PHASE))"

definition holds :: "nat \<Rightarrow> MethodData \<Rightarrow> agent \<Rightarrow> bool" where
  "holds a c s \<longleftrightarrow> a \<le> next_alloc s \<and> mset (owned c) = mset [a..<next_alloc s]"

definition numbered :: "MethodData list \<Rightarrow> jint \<Rightarrow> bool" where
  "numbered methods methods_count \<longleftrightarrow>
     map id_field methods = map of_nat [0..<length methods]
     \<and> methods_count = of_nat (length methods) \<and> distinct (map methodID methods)"

definition accounted :: "agent \<Rightarrow> MethodData list \<Rightarrow> agent \<Rightarrow> bool" where
  "accounted s0 methods s \<longleftrightarrow>
     next_alloc s0 \<le> next_alloc s
     \<and> (\<exists>fs. freed s = freed s0 @ fs
           \<and> mset fs + mset (concat (map owned methods)) = mset [next_alloc s0..<next_alloc s])"

definition add_seen :: "jmethodID \<Rightarrow> jmethodID list \<Rightarrow> jmethodID list" where
  "add_seen m order = (if m \<in> set order then order else order @ [m])"

definition lookup_res ::
  "agent \<Rightarrow> agent \<Rightarrow> MethodData list \<Rightarrow> jmethodID
     \<Rightarrow> (MethodData option \<times> MethodData list \<times> jint \<times> agent) result \<Rightarrow> bool" where
  "lookup_res s0 s methods m r \<longleftrightarrow>
     (case r of
        Inl (e, s') \<Rightarrow> quiet s s'
      | Inr (None, methods', methods_count', s') \<Rightarrow>
          shut s s' \<and> accounted s0 methods' s'
      | Inr (Some c, methods', methods_count', s') \<Rightarrow>
          quiet s s' \<and> numbered methods' methods_count' \<and> accounted s0 methods' s'
          \<and> find (\<lambda>c. methodID c = m) methods' = Some c
          \<and> map methodID methods' = add_seen m (map methodID methods))"

definition stage_res :: "nat \<Rightarrow> agent \<Rightarrow> MethodData \<Rightarrow> ('x option \<times> agent) result \<Rightarrow> bool" where
  "stage_res a s c r \<longleftrightarrow>
     (case r of
        Inl (e, s') \<Rightarrow> quiet s s'
      | Inr (None, s') \<Rightarrow> shut s s' \<and> holds a c s' \<and> freed s' = freed s @ owned c
      | Inr (Some x, s') \<Rightarrow> quiet s s' \<and> holds a c s')"

definition example_host :: host where
  "example_host =
     \<lparr>little_endian = True,
      clock_gettime = (0, \<lparr>tv_sec = 1, tv_nsec = 2\<rparr>),
      memory = (\<lambda>a. ucast a),
      jvmti_GetMethodName = (\<lambda>n m. (JVMTI_ERROR_NONE, Some ''run'', Some ''()V'')),
      jvmti_GetMethodDeclaringClass = (\<lambda>n m. (JVMTI_ERROR_NONE, 7)),
      jvmti_GetClassSignature = (\<lambda>n c. (JVMTI_ERROR_NONE, Some ''LMain;'')),
      jvmti_GetSourceFileName = (\<lambda>n c. (JVMTI_ERROR_ABSENT_INFORMATION, None)),
      jvmti_GetLineNumberTable =
        (\<lambda>n m. (JVMTI_ERROR_NONE, Some [\<lparr>start_location = 0, line_number = 10\<rparr>]))\<rparr>"

definition example_agent :: agent where
  "example_agent =
     \<lparr>output_file = Some \<lparr>contents = [], room = 1000\<rparr>, file_lock = False, next_alloc = 0,
      freed = [], jvmti_log = []\<rparr>"

definition len_str :: "string \<Rightarrow> byte list" where
  "len_str cs = be32 (of_nat (length cs)) @ chars cs"

definition nullable_str :: "string option \<Rightarrow> byte list" where
  "nullable_str p = (case p of None \<Rightarrow> be32 (- 1) | Some cs \<Rightarrow> len_str cs)"

definition required_str :: "string ptr \<Rightarrow> byte list" where
  "required_str p = (case p of None \<Rightarrow> [] | Some (a, cs) \<Rightarrow> len_str cs)"

definition line_entry :: "jvmtiLineNumberEntry \<Rightarrow> byte list" where
  "line_entry e = be64 (start_location e) @ be32 (line_number e)"

definition line_entries :: "MethodData \<Rightarrow> jvmtiLineNumberEntry list" where
  "line_entries c =
     (if 0 <s line_number_table_count c
      then (case line_number_table c of
              None \<Rightarrow> []
            | Some (a, table) \<Rightarrow> take (nat (sint (line_number_table_count c))) table)
      else [])"

definition method_entry :: "MethodData \<Rightarrow> byte list" where
  "method_entry c =
     required_str (class_signature c) @ required_str (method_name c)
     @ required_str (method_signature c) @ nullable_str (deref (source_file c))
     @ be32 (line_number_table_count c) @ concat (map line_entry (line_entries c))"

definition index_of :: "'a \<Rightarrow> 'a list \<Rightarrow> nat" where
  "index_of x xs = length (takeWhile (\<lambda>y. y \<noteq> x) xs)"

definition frame_entry :: "jmethodID list \<Rightarrow> jmethodID \<times> jint \<Rightarrow> byte list" where
  "frame_entry order fr = be32 (of_nat (index_of (fst fr) order)) @ be32 (snd fr)"

definition pc_entry :: "jmethodID list \<Rightarrow> PCStackInfo \<Rightarrow> byte list" where
  "pc_entry order info =
     be64 (pc info) @ be32 (of_nat (length (stackframes info)))
     @ concat (map (frame_entry order) (stackframes info))"

definition method_table :: "MethodData list \<Rightarrow> byte list" where
  "method_table methods =
     chars ''MTHT'' @ be32 (of_nat (length methods)) @ concat (map method_entry methods)"

definition debug_info :: "jmethodID list \<Rightarrow> jvmtiCompiledMethodLoadRecord option \<Rightarrow> byte list" where
  "debug_info order inline_records =
     chars ''DEBI''
     @ (case inline_records of
          None \<Rightarrow> be32 0
        | Some r \<Rightarrow> be32 (of_nat (length (pcinfo r))) @ concat (map (pc_entry order) (pcinfo r)))"

definition CMLT_record ::
  "timespec \<Rightarrow> pointer \<Rightarrow> jint \<Rightarrow> byte list \<Rightarrow> MethodData list
     \<Rightarrow> jvmtiCompiledMethodLoadRecord option \<Rightarrow> byte list" where
  "CMLT_record ts code_addr code_size code methods inline_records =
     chars ''CMLT'' @ be64 (tv_sec ts) @ be64 (tv_nsec ts) @ be64 code_addr @ be32 code_size
     @ code @ method_table methods @ debug_info (map methodID methods) inline_records"

definition emits :: "cmd \<Rightarrow> byte list \<Rightarrow> bool" where
  "emits c bs \<longleftrightarrow> (\<forall>s s'. c s = Inr s' \<longrightarrow> s' = wrote bs s)"

definition only_output :: "agent \<Rightarrow> agent \<Rightarrow> bool" where
  "only_output s s' \<longleftrightarrow> s' = s\<lparr>output_file := output_file s'\<rparr>"

definition writer :: "cmd \<Rightarrow> bool" where
  "writer c \<longleftrightarrow> (\<forall>s. case c s of Inl (e, s') \<Rightarrow> only_output s s' | Inr s' \<Rightarrow> only_output s s')"

definition loop_res ::
  "agent \<Rightarrow> agent \<Rightarrow> jmethodID list \<Rightarrow> (bool \<times> MethodData list \<times> jint \<times> agent) result \<Rightarrow> bool" where
  "loop_res s0 s order r \<longleftrightarrow>
     (case r of
        Inl (e, s') \<Rightarrow> quiet s s'
      | Inr (True, methods', methods_count', s') \<Rightarrow> shut s s' \<and> accounted s0 methods' s'
      | Inr (False, methods', methods_count', s') \<Rightarrow>
          quiet s s' \<and> numbered methods' methods_count' \<and> accounted s0 methods' s'
          \<and> map methodID methods' = order)"

definition frame_handles :: "jvmtiCompiledMethodLoadRecord option \<Rightarrow> jmethodID list" where
  "frame_handles inline_records =
     (case inline_records of
        None \<Rightarrow> []
      | Some r \<Rightarrow> concat (map (\<lambda>info. map fst (stackframes info)) (pcinfo r)))"

definition frame_cmds :: "host \<Rightarrow> jmethodID list \<Rightarrow> jmethodID \<times> jint \<Rightarrow> cmd list" where
  "frame_cmds h order fr = [write_jint h (of_nat (index_of (fst fr) order)), write_jint h (snd fr)]"

definition pc_cmds :: "host \<Rightarrow> jmethodID list \<Rightarrow> PCStackInfo \<Rightarrow> cmd list" where
  "pc_cmds h order info =
     [write_unsigned_jlong h (pc info), write_jint h (of_nat (length (stackframes info)))]
     @ concat (map (frame_cmds h order) (stackframes info))"

definition record_cmds ::
  "host \<Rightarrow> timespec \<Rightarrow> jint \<Rightarrow> pointer \<Rightarrow> jint \<Rightarrow> MethodData list
     \<Rightarrow> jvmtiCompiledMethodLoadRecord option \<Rightarrow> cmd list" where
  "record_cmds h timestamp code_size code_addr methods_count methods inline_records =
     [write_jint h CompiledMethodLoadTag,
      write_timestamp h timestamp,
      write_unsigned_jlong h code_addr,
      write_jint h code_size,
      write_or_fail (code_bytes h code_addr code_size) (sint code_size),
      write_jint h MethodsTag,
      write_jint h methods_count]
     @ map (write_method h) methods
     @ [write_jint h DebugInfoTag]
     @ (case inline_records of
          Some r \<Rightarrow> write_jint h (of_nat (length (pcinfo r)))
                    # concat (map (pc_cmds h (map methodID methods)) (pcinfo r))
        | None \<Rightarrow> [write_jint h 0])
     @ [fflush]"

definition final_state :: "agent result \<Rightarrow> agent" where
  "final_state r = (case r of Inl (e, s') \<Rightarrow> s' | Inr s' \<Rightarrow> s')"

definition new_queries :: "agent \<Rightarrow> agent \<Rightarrow> (jvmti_query \<times> jvmtiError \<times> bool) list" where
  "new_queries s s' = drop (length (jvmti_log s)) (jvmti_log s')"

definition example_dummy :: jvmtiCompiledMethodLoadRecord where
  "example_dummy = \<lparr>kind = JVMTI_CMLR_DUMMY, pcinfo = []\<rparr>"

definition example_inline :: jvmtiCompiledMethodLoadRecord where
  "example_inline =
     \<lparr>kind = JVMTI_CMLR_INLINE_INFO,
      pcinfo = [\<lparr>pc = 0x1004, stackframes = [(2, 5), (1, 0)]\<rparr>,
                \<lparr>pc = 0x1008, stackframes = [(2, 7)]\<rparr>]\<rparr>"

definition example_inline2 :: jvmtiCompiledMethodLoadRecord where
  "example_inline2 =
     \<lparr>kind = JVMTI_CMLR_INLINE_INFO, pcinfo = [\<lparr>pc = 0x100c, stackframes = [(3, 1)]\<rparr>]\<rparr>"

definition shutdown_host :: host where
  "shutdown_host =
     example_host\<lparr>jvmti_GetClassSignature :=
        (\<lambda>n c. if 5 \<le> n then (JVMTI_ERROR_WRONG_PHASE, None) else (JVMTI_ERROR_NONE, Some ''LMain;''))\<rparr>"

definition example_method :: "nat \<Rightarrow> jint \<Rightarrow> jmethodID \<Rightarrow> MethodData" where
  "example_method a i m =
     \<lparr>self_addr = a, id_field = i, methodID = m, source_file = None,
      method_name = Some (a + 1, ''run''), method_signature = Some (a + 2, ''()V''),
      class_signature = Some (a + 3, ''LMain;''), line_number_table_count = 1,
      line_number_table = Some (a + 4, [\<lparr>start_location = 0, line_number = 10\<rparr>])\<rparr>"

definition example_record :: "byte list" where
  "example_record =
     [67, 77, 76, 84,
      0, 0, 0, 0, 0, 0, 0, 1,  0, 0, 0, 0, 0, 0, 0, 2,
      0, 0, 0, 0, 0, 0, 16, 0,
      0, 0, 0, 4,
      0, 1, 2, 3,
      77, 84, 72, 84,
      0, 0, 0, 2,
      0, 0, 0, 6, 76, 77, 97, 105, 110, 59,  0, 0, 0, 3, 114, 117, 110,  0, 0, 0, 3, 40, 41, 86,
      255, 255, 255, 255,  0, 0, 0, 1,  0, 0, 0, 0, 0, 0, 0, 0,  0, 0, 0, 10,
      0, 0, 0, 6, 76, 77, 97, 105, 110, 59,  0, 0, 0, 3, 114, 117, 110,  0, 0, 0, 3, 40, 41, 86,
      255, 255, 255, 255,  0, 0, 0, 1,  0, 0, 0, 0, 0, 0, 0, 0,  0, 0, 0, 10,
      68, 69, 66, 73,
      0, 0, 0, 2,
      0, 0, 0, 0, 0, 0, 16, 4,  0, 0, 0, 2,  0, 0, 0, 1, 0, 0, 0, 5,  0, 0, 0, 0, 0, 0, 0, 0,
      0, 0, 0, 0, 0, 0, 16, 8,  0, 0, 0, 1,  0, 0, 0, 1, 0, 0, 0, 7]"

definition example_queries :: "jmethodID \<Rightarrow> (jvmti_query \<times> jvmtiError \<times> bool) list" where
  "example_queries m =
     [(Q_GetMethodName m, JVMTI_ERROR_NONE, False),
      (Q_GetMethodDeclaringClass m, JVMTI_ERROR_NONE, False),
      (Q_GetClassSignature 7, JVMTI_ERROR_NONE, False),
      (Q_GetSourceFileName 7, JVMTI_ERROR_ABSENT_INFORMATION, False),
      (Q_GetLineNumberTable m, JVMTI_ERROR_NONE, False)]"

definition example_final :: agent where
  "example_final =
     example_agent\<lparr>output_file := Some \<lparr>contents = example_record, room = 812\<rparr>,
                   next_alloc := 10, freed := [1, 2, 3, 4, 0, 6, 7, 8, 9, 5],
                   jvmti_log := example_queries 1 @ example_queries 2\<rparr>"

definition shutdown_final :: agent where
  "shutdown_final =
     example_agent\<lparr>next_alloc := 8, freed := [6, 7, 5, 1, 2, 3, 4, 0],
                   jvmti_log := example_queries 1 @
                     [(Q_GetMethodName 2, JVMTI_ERROR_NONE, False),
                      (Q_GetMethodDeclaringClass 2, JVMTI_ERROR_NONE, False),
                      (Q_GetClassSignature 7, JVMTI_ERROR_WRONG_PHASE, False)]\<rparr>"

definition read_be32 :: "byte list \<Rightarrow> 32 word" where
  "read_be32 bs = push_bit 24 (ucast (bs ! 0)) OR push_bit 16 (ucast (bs ! 1))
                  OR push_bit 8 (ucast (bs ! 2)) OR ucast (bs ! 3)"

definition null_method :: MethodData where
  "null_method =
     \<lparr>self_addr = 0, id_field = 0, methodID = 1, source_file = None,
      method_name = Some (1, ''run''), method_signature = Some (2, ''()V''),
      class_signature = Some (3, ''LMain;''), line_number_table_count = 0,
      line_number_table = None\<rparr>"

definition placeholder_at :: "string \<Rightarrow> nat \<Rightarrow> bool" where
  "placeholder_at path k \<longleftrightarrow> take 2 (drop k path) = ''%p''"

definition read_decimal :: "string \<Rightarrow> nat" where
  "read_decimal ds = foldl (\<lambda>n d. 10 * n + (of_char d - 48)) 0 ds"

lemma m1: "(0xff :: 32 word) = mask 8" by (simp add: mask_eq_exp_minus_1)

lemma m2: "(0xff00 :: 32 word) = push_bit 8 (mask 8)" by (simp add: mask_eq_exp_minus_1)

lemma bswap_b0: "(ucast (bswap32 x) :: byte) = ucast (drop_bit 24 x)"
  unfolding bswap32_def m1 m2
  by (rule bit_word_eqI) (auto simp add: bit_simps)

lemma bswap_b1: "(ucast (drop_bit 8 (bswap32 x)) :: byte) = ucast (drop_bit 16 x)"
  unfolding bswap32_def m1 m2
  by (rule bit_word_eqI) (auto simp add: bit_simps)

lemma bswap_b2: "(ucast (drop_bit 16 (bswap32 x)) :: byte) = ucast (drop_bit 8 x)"
  unfolding bswap32_def m1 m2
  by (rule bit_word_eqI) (auto simp add: bit_simps)

lemma bswap_b3: "(ucast (drop_bit 24 (bswap32 x)) :: byte) = ucast x"
  unfolding bswap32_def m1 m2
  by (rule bit_word_eqI) (auto simp add: bit_simps)

lemma bytes32_htonl: "bytes32 h (htonl h x) = be32 x"
  by (simp add: bytes32_def htonl_def be32_def bswap_b0 bswap_b1 bswap_b2 bswap_b3)

lemma hi_bytes:
  "k \<le> 24 \<Longrightarrow> (ucast (drop_bit k (ucast (signed_drop_bit 32 (v::64 word)) :: 32 word)) :: byte)
      = ucast (drop_bit (32 + k) v)"
  by (rule bit_word_eqI) (auto simp add: bit_simps bit_signed_drop_bit_iff ac_simps)

lemma lo_bytes:
  "k \<le> 24 \<Longrightarrow> (ucast (drop_bit k (ucast (v::64 word) :: 32 word)) :: byte) = ucast (drop_bit k v)"
  by (rule bit_word_eqI) (auto simp add: bit_simps)

lemma hi_word: "(ucast (signed_drop_bit 32 (v::64 word)) :: 32 word) = ucast (drop_bit 32 v)"
  by (rule bit_word_eqI) (auto simp add: bit_simps bit_signed_drop_bit_iff ac_simps)

lemma be64_split: "be64 v = be32 (ucast (drop_bit 32 v)) @ be32 (ucast v)"
  using hi_bytes [of 0 v] hi_bytes [of 8 v] hi_bytes [of 16 v] hi_bytes [of 24 v]
        lo_bytes [of 0 v] lo_bytes [of 8 v] lo_bytes [of 16 v] lo_bytes [of 24 v]
  by (simp add: be64_def be32_def hi_word)

lemma htonl_1: "(htonl h 1 = 1) = (\<not> little_endian h)"
  by (simp add: htonl_def bswap32_def)

lemma bytes64_be: "\<not> little_endian h \<Longrightarrow> bytes64 h v = be64 v"
  by (simp add: bytes64_def be64_def)

lemma length_be32 [simp]: "length (be32 x) = 4" by (simp add: be32_def)

lemma length_be64 [simp]: "length (be64 x) = 8" by (simp add: be64_def)

lemma wrote_wrote [simp]: "wrote b (wrote a s) = wrote (a @ b) s"
  by (cases "output_file s") (simp_all add: wrote_def)

lemma wrote_Nil [simp]: "wrote [] s = s"
  by (cases "output_file s") (simp_all add: wrote_def)

lemma size_t_of_nat: "n \<le> INT_MAX \<Longrightarrow> size_t_of_int (int n) = n"
  by (simp add: size_t_of_int_def INT_MAX_def)

lemma wrote_fields [simp]:
  "is_open (wrote bs s) = is_open s"
  "file_lock (wrote bs s) = file_lock s"
  "next_alloc (wrote bs s) = next_alloc s"
  "freed (wrote bs s) = freed s"
  "jvmti_log (wrote bs s) = jvmti_log s"
  "space (wrote bs s) = space s - length bs"
  by (simp_all add: wrote_def space_def is_open_def split: option.splits)

lemma is_open_simps:
  "(output_file s = None) = (\<not> is_open s)"
  "(\<exists>f. output_file s = Some f) = is_open s"
  by (simp_all add: is_open_def)

lemma write_or_fail_iff:
  "write_or_fail data bytes s = Inr s' \<longleftrightarrow>
     is_open s \<and> 0 < size_t_of_int bytes \<and> size_t_of_int bytes \<le> length data
     \<and> size_t_of_int bytes \<le> space s \<and> s' = wrote (take (size_t_of_int bytes) data) s"
  by (auto simp add: write_or_fail_def fwrite_def report_error_def wrote_def space_def Let_def
      is_open_def simp del: is_open_simps split: option.splits)

lemma write_jint_iff:
  "write_jint h v s = Inr s' \<longleftrightarrow> is_open s \<and> 4 \<le> space s \<and> s' = wrote (be32 v) s"
  by (auto simp add: write_jint_def write_or_fail_iff bytes32_htonl size_t_of_int_def)

lemma case_sum_Inr_iff [simp]:
  "((case r of Inl e \<Rightarrow> Inl e | Inr x \<Rightarrow> f x) = Inr y) = (\<exists>x. r = Inr x \<and> f x = Inr y)"
  by (cases r) auto

lemma run_Nil_iff: "run [] s = Inr s' \<longleftrightarrow> s' = s"
  by auto

lemma run_Cons_iff: "run (c # cs) s = Inr s' \<longleftrightarrow> (\<exists>s1. c s = Inr s1 \<and> run cs s1 = Inr s')"
  by (auto split: sum.splits)

lemma run_append: "run (cs @ ds) s = (case run cs s of Inl e \<Rightarrow> Inl e | Inr s1 \<Rightarrow> run ds s1)"
  by (induction cs arbitrary: s) (auto split: sum.splits)

lemma write_unsigned_jlong_iff:
  "write_unsigned_jlong h v s = Inr s' \<longleftrightarrow> is_open s \<and> 8 \<le> space s \<and> s' = wrote (be64 v) s"
proof (cases "little_endian h")
  case True
  then show ?thesis
    by (auto simp add: write_unsigned_jlong_def htonl_1 Let_def run_Cons_iff run_Nil_iff
        write_jint_iff hi_word be64_split)
next
  case False
  then show ?thesis
    by (auto simp add: write_unsigned_jlong_def htonl_1 write_or_fail_iff bytes64_be size_t_of_int_def)
qed

lemma write_timestamp_iff:
  "write_timestamp h ts s = Inr s' \<longleftrightarrow>
     is_open s \<and> 16 \<le> space s \<and> s' = wrote (be64 (tv_sec ts) @ be64 (tv_nsec ts)) s"
  by (auto simp add: write_timestamp_def run_Cons_iff run_Nil_iff write_unsigned_jlong_iff)

lemma sint_len: "n \<le> INT_MAX \<Longrightarrow> sint (of_nat n :: 32 word) = int n"
  by (simp add: INT_MAX_def signed_of_nat signed_take_bit_int_eq_self)

lemma write_string_iff:
  "write_string h str message s = Inr s' \<longleftrightarrow>
     (\<exists>cs. str = Some cs \<and> length cs \<le> INT_MAX \<and> is_open s
        \<and> 4 + length cs \<le> space s \<and> s' = wrote (be32 (of_nat (length cs)) @ chars cs) s)"
  apply (cases str)
   apply (simp add: write_string_def report_error_def)
  apply (auto simp add: write_string_def report_error_def strlen_def Let_def run_Cons_iff run_Nil_iff
      write_jint_iff write_or_fail_iff word_sless_alt sint_len size_t_of_nat chars_def)
  done

lemma quiet_refl [simp]: "quiet s s"
  by (simp add: quiet_def)

lemma quiet_trans: "quiet s s1 \<Longrightarrow> quiet s1 s2 \<Longrightarrow> quiet s s2"
  unfolding quiet_def by (elim conjE exE) auto

lemma quiet_shut: "quiet s s1 \<Longrightarrow> shut s1 s2 \<Longrightarrow> shut s s2"
  unfolding quiet_def shut_def by (elim conjE exE) auto

lemma free_method_eq: "free_method m s = s\<lparr>freed := freed s @ owned m\<rparr>"
  by (auto simp add: free_method_def Deallocate_def free_def owned_def addr_def Let_def split: option.splits)

lemma holds_freed [simp]: "holds a c (s\<lparr>freed := fs\<rparr>) = holds a c s"
  by (simp add: holds_def)

lemma check_method_error_cases:
  "(result \<noteq> JVMTI_ERROR_WRONG_PHASE \<and> check_method_error msg result c s = Inr (False, s))
   \<or> (result = JVMTI_ERROR_WRONG_PHASE
      \<and> check_method_error msg result c s = Inr (True, s\<lparr>freed := freed s @ owned c\<rparr>))
   \<or> (result \<noteq> JVMTI_ERROR_WRONG_PHASE
      \<and> check_method_error msg result c s = Inl (Abort ''%s: %s'' [Str (Some msg), GetErrorName result], s))"
  by (auto simp add: check_method_error_def free_method_eq jvmti_report_error_def report_error_def)

lemma checked:
  assumes Q: "output_file s1 = output_file s" "file_lock s1 = file_lock s" "freed s1 = freed s"
             "jvmti_log s1 = jvmti_log s @ [(q, result, file_lock s)]"
    and H: "holds a c s1"
    and r: "r = (case check_method_error msg result c s1 of
                   Inl e \<Rightarrow> Inl e
                 | Inr (True, s) \<Rightarrow> Inr (None, s)
                 | Inr (False, s) \<Rightarrow> Inr (Some x, s))"
  shows "stage_res a s c r \<and> (\<forall>y s'. r = Inr (Some y, s') \<longrightarrow> y = x)"
  using check_method_error_cases [of result msg c s1]
proof (elim disjE conjE)
  assume "result \<noteq> JVMTI_ERROR_WRONG_PHASE" "check_method_error msg result c s1 = Inr (False, s1)"
  with Q H r show ?thesis by (simp add: stage_res_def quiet_def)
next
  assume "result = JVMTI_ERROR_WRONG_PHASE"
    "check_method_error msg result c s1 = Inr (True, s1\<lparr>freed := freed s1 @ owned c\<rparr>)"
  with Q H r show ?thesis by (simp add: stage_res_def shut_def)
next
  assume "result \<noteq> JVMTI_ERROR_WRONG_PHASE"
    "check_method_error msg result c s1 = Inl (Abort ''%s: %s'' [Str (Some msg), GetErrorName result], s1)"
  with Q H r show ?thesis by (simp add: stage_res_def quiet_def)
qed

lemma allocated_cases:
  "allocated v s = (p, s') \<Longrightarrow>
     output_file s' = output_file s \<and> file_lock s' = file_lock s \<and> freed s' = freed s
     \<and> jvmti_log s' = jvmti_log s \<and> next_alloc s \<le> next_alloc s'
     \<and> [next_alloc s..<next_alloc s'] = addr p"
  by (cases v) (auto simp add: allocated_def addr_def)

lemma upt_split: "a \<le> b \<Longrightarrow> b \<le> c \<Longrightarrow> [a..<c] = [a..<b] @ [b..<c]"
  by (metis le_Suc_ex upt_add_eq_append)

lemma holds_allocated:
  assumes "holds a c s" "allocated v s = (p, s')" "mset (owned c') = mset (owned c) + mset (addr p)"
  shows "holds a c' s'"
  using assms allocated_cases [OF assms(2)] upt_split [of a "next_alloc s" "next_alloc s'"]
  by (simp add: holds_def)

lemma holds_logged [simp]: "holds a c (logged q r s) = holds a c s"
  by (simp add: holds_def logged_def)

lemma logged_fields [simp]:
  "output_file (logged q r s) = output_file s"
  "file_lock (logged q r s) = file_lock s"
  "freed (logged q r s) = freed s"
  "next_alloc (logged q r s) = next_alloc s"
  "jvmti_log (logged q r s) = jvmti_log s @ [(q, r, file_lock s)]"
  by (simp_all add: logged_def)

lemma query_method_name_ok:
  assumes "holds a current s" "method_name current = None" "method_signature current = None"
  shows "\<exists>n g. stage_res a s (current\<lparr>method_name := n, method_signature := g\<rparr>) (query_method_name h current s)
     \<and> (\<forall>y s'. query_method_name h current s = Inr (Some y, s') \<longrightarrow>
            y = current\<lparr>method_name := n, method_signature := g\<rparr>)"
proof -
  obtain result name signature where o: "jvmti_GetMethodName h (length (jvmti_log s)) (methodID current) = (result, name, signature)"
    by (cases "jvmti_GetMethodName h (length (jvmti_log s)) (methodID current)") auto
  obtain n s1 where a1: "allocated name s = (n, s1)" by (cases "allocated name s") auto
  obtain g s2 where a2: "allocated signature s1 = (g, s2)" by (cases "allocated signature s1") auto
  let ?c = "current\<lparr>method_name := n, method_signature := g\<rparr>"
  have h1: "holds a (current\<lparr>method_name := n\<rparr>) s1"
    using assms by (intro holds_allocated [OF assms(1) a1]) (simp add: owned_def addr_def)
  have h2: "holds a ?c s2"
    using assms by (intro holds_allocated [OF h1 a2]) (simp add: owned_def addr_def)
  have r: "query_method_name h current s =
      (case check_method_error ''GetMethodName'' result ?c (logged (Q_GetMethodName (methodID current)) result s2) of
                   Inl e \<Rightarrow> Inl e
                 | Inr (True, s) \<Rightarrow> Inr (None, s)
                 | Inr (False, s) \<Rightarrow> Inr (Some ?c, s))"
    by (simp add: query_method_name_def GetMethodName_def o a1 a2 Let_def)
  have "stage_res a s ?c (query_method_name h current s) \<and> (\<forall>y s'. query_method_name h current s = Inr (Some y, s') \<longrightarrow> y = ?c)"
    using allocated_cases [OF a1] allocated_cases [OF a2] h2
    by (intro checked [OF _ _ _ _ _ r, where q = "Q_GetMethodName (methodID current)"]) simp_all
  then show ?thesis by blast
qed

lemma query_declaring_class_ok:
  assumes "holds a current s"
  shows "stage_res a s current (query_declaring_class h current s)"
proof -
  obtain result klass where o: "jvmti_GetMethodDeclaringClass h (length (jvmti_log s)) (methodID current) = (result, klass)"
    by (cases "jvmti_GetMethodDeclaringClass h (length (jvmti_log s)) (methodID current)") auto
  have r: "query_declaring_class h current s =
      (case check_method_error ''GetMethodDeclaringClass'' result current
              (logged (Q_GetMethodDeclaringClass (methodID current)) result s) of
                   Inl e \<Rightarrow> Inl e
                 | Inr (True, s) \<Rightarrow> Inr (None, s)
                 | Inr (False, s) \<Rightarrow> Inr (Some klass, s))"
    by (simp add: query_declaring_class_def GetMethodDeclaringClass_def o Let_def)
  have "stage_res a s current (query_declaring_class h current s)
      \<and> (\<forall>y s'. query_declaring_class h current s = Inr (Some y, s') \<longrightarrow> y = klass)"
    using assms
    by (intro checked [OF _ _ _ _ _ r, where q = "Q_GetMethodDeclaringClass (methodID current)"]) simp_all
  then show ?thesis by blast
qed

lemma query_class_signature_ok:
  assumes "holds a current s" "class_signature current = None"
  shows "\<exists>g. stage_res a s (current\<lparr>class_signature := g\<rparr>) (query_class_signature h klass current s)
     \<and> (\<forall>y s'. query_class_signature h klass current s = Inr (Some y, s') \<longrightarrow>
            y = current\<lparr>class_signature := g\<rparr>)"
proof -
  obtain result signature where o: "jvmti_GetClassSignature h (length (jvmti_log s)) klass = (result, signature)"
    by (cases "jvmti_GetClassSignature h (length (jvmti_log s)) klass") auto
  obtain g s1 where a1: "allocated signature s = (g, s1)" by (cases "allocated signature s") auto
  let ?c = "current\<lparr>class_signature := g\<rparr>"
  have h1: "holds a ?c s1"
    using assms by (intro holds_allocated [OF assms(1) a1]) (simp add: owned_def addr_def)
  have r: "query_class_signature h klass current s =
      (case check_method_error ''GetClassSignature'' result ?c (logged (Q_GetClassSignature klass) result s1) of
                   Inl e \<Rightarrow> Inl e
                 | Inr (True, s) \<Rightarrow> Inr (None, s)
                 | Inr (False, s) \<Rightarrow> Inr (Some ?c, s))"
    by (simp add: query_class_signature_def GetClassSignature_def o a1 Let_def)
  have "stage_res a s ?c (query_class_signature h klass current s)
     \<and> (\<forall>y s'. query_class_signature h klass current s = Inr (Some y, s') \<longrightarrow> y = ?c)"
    using allocated_cases [OF a1] h1
    by (intro checked [OF _ _ _ _ _ r, where q = "Q_GetClassSignature klass"]) simp_all
  then show ?thesis by blast
qed

lemma query_source_file_ok:
  assumes "holds a current s" "source_file current = None"
  shows "\<exists>g. stage_res a s (current\<lparr>source_file := g\<rparr>) (query_source_file h klass current s)
     \<and> (\<forall>y s'. query_source_file h klass current s = Inr (Some y, s') \<longrightarrow>
            y = current\<lparr>source_file := g\<rparr>)"
proof -
  obtain result name where o: "jvmti_GetSourceFileName h (length (jvmti_log s)) klass = (result, name)"
    by (cases "jvmti_GetSourceFileName h (length (jvmti_log s)) klass") auto
  obtain g s1 where a1: "allocated name s = (g, s1)" by (cases "allocated name s") auto
  let ?c = "current\<lparr>source_file := g\<rparr>"
  have h1: "holds a ?c s1"
    using assms by (intro holds_allocated [OF assms(1) a1]) (simp add: owned_def addr_def)
  have r: "query_source_file h klass current s =
      (case check_method_error ''GetSourceFileName'' result ?c (logged (Q_GetSourceFileName klass) result s1) of
                   Inl e \<Rightarrow> Inl e
                 | Inr (True, s) \<Rightarrow> Inr (None, s)
                 | Inr (False, s) \<Rightarrow> Inr (Some ?c, s))"
    by (simp add: query_source_file_def GetSourceFileName_def o a1 Let_def)
  have "stage_res a s ?c (query_source_file h klass current s)
     \<and> (\<forall>y s'. query_source_file h klass current s = Inr (Some y, s') \<longrightarrow> y = ?c)"
    using allocated_cases [OF a1] h1
    by (intro checked [OF _ _ _ _ _ r, where q = "Q_GetSourceFileName klass"]) simp_all
  then show ?thesis by blast
qed

lemma query_line_number_table_ok:
  assumes "holds a current s" "line_number_table current = None"
  shows "\<exists>n g. stage_res a s (current\<lparr>line_number_table_count := n, line_number_table := g\<rparr>)
             (query_line_number_table h current s)
     \<and> (\<forall>y s'. query_line_number_table h current s = Inr (Some y, s') \<longrightarrow>
            y = current\<lparr>line_number_table_count := n, line_number_table := g\<rparr>)"
proof -
  obtain result table where o: "jvmti_GetLineNumberTable h (length (jvmti_log s)) (methodID current) = (result, table)"
    by (cases "jvmti_GetLineNumberTable h (length (jvmti_log s)) (methodID current)") auto
  obtain g s1 where a1: "allocated table s = (g, s1)" by (cases "allocated table s") auto
  define n :: jint where "n = (case table of None \<Rightarrow> 0 | Some es \<Rightarrow> of_nat (length es))"
  let ?c = "current\<lparr>line_number_table_count := n, line_number_table := g\<rparr>"
  have h1: "holds a ?c s1"
    using assms by (intro holds_allocated [OF assms(1) a1]) (simp add: owned_def addr_def)
  have r: "query_line_number_table h current s =
      (case check_method_error ''GetLineNumberTable'' result ?c
             (logged (Q_GetLineNumberTable (methodID current)) result s1) of
                   Inl e \<Rightarrow> Inl e
                 | Inr (True, s) \<Rightarrow> Inr (None, s)
                 | Inr (False, s) \<Rightarrow> Inr (Some ?c, s))"
    unfolding n_def by (simp add: query_line_number_table_def GetLineNumberTable_def o a1 Let_def)
  have "stage_res a s ?c (query_line_number_table h current s)
     \<and> (\<forall>y s'. query_line_number_table h current s = Inr (Some y, s') \<longrightarrow> y = ?c)"
    using allocated_cases [OF a1] h1
    by (intro checked [OF _ _ _ _ _ r, where q = "Q_GetLineNumberTable (methodID current)"]) simp_all
  then show ?thesis by blast
qed

lemma stage_bind:
  assumes acc: "accounted s0 methods s" and q: "quiet s sk" and a: "a = next_alloc s"
    and st: "stage_res a sk c' r1"
    and k: "\<And>x s2. r1 = Inr (Some x, s2) \<Longrightarrow> quiet s s2 \<Longrightarrow> holds a c' s2 \<Longrightarrow>
              lookup_res s0 s methods m (k x s2)"
  shows "lookup_res s0 s methods m
           (case r1 of Inl e \<Rightarrow> Inl e
            | Inr (None, s) \<Rightarrow> Inr (None, methods, methods_count, s)
            | Inr (Some x, s) \<Rightarrow> k x s)"
proof (cases r1)
  case (Inl p)
  then show ?thesis using st q
    by (cases p) (auto simp add: stage_res_def lookup_res_def intro: quiet_trans)
next
  case (Inr p)
  obtain o' s2 where p: "p = (o', s2)" by (cases p) auto
  show ?thesis
  proof (cases o')
    case None
    from st Inr p None have sh: "shut sk s2" and h: "holds a c' s2"
      and f: "freed s2 = freed sk @ owned c'"
      by (simp_all add: stage_res_def)
    from q have fk: "freed sk = freed s" by (simp add: quiet_def)
    from acc obtain fs where fs: "freed s = freed s0 @ fs"
      "mset fs + mset (concat (map owned methods)) = mset [next_alloc s0..<next_alloc s]"
      and le: "next_alloc s0 \<le> next_alloc s"
      by (auto simp add: accounted_def)
    from h a have le2: "next_alloc s \<le> next_alloc s2"
      and o: "mset (owned c') = mset [next_alloc s..<next_alloc s2]"
      by (simp_all add: holds_def)
    have "accounted s0 methods s2"
      unfolding accounted_def
    proof (intro conjI exI [of _ "fs @ owned c'"])
      show "next_alloc s0 \<le> next_alloc s2" using le le2 by simp
      show "freed s2 = freed s0 @ fs @ owned c'" using f fk fs by simp
      show "mset (fs @ owned c') + mset (concat (map owned methods)) = mset [next_alloc s0..<next_alloc s2]"
        using fs(2) o upt_split [OF le le2] by (simp add: ac_simps)
    qed
    with sh q Inr p None show ?thesis
      by (auto simp add: lookup_res_def intro: quiet_shut)
  next
    case (Some x)
    from st Inr p Some have "quiet sk s2" "holds a c' s2"
      by (simp_all add: stage_res_def)
    with q have "quiet s s2" by (auto intro: quiet_trans)
    with k [of x s2] Inr p Some \<open>holds a c' s2\<close> show ?thesis by simp
  qed
qed

lemma find_methodID_None: "find (\<lambda>c. methodID c = m) methods = None \<longleftrightarrow> m \<notin> set (map methodID methods)"
  by (auto simp add: find_None_iff)

lemma find_methodID_Some: "find (\<lambda>c. methodID c = m) methods = Some c \<Longrightarrow> m \<in> set (map methodID methods)"
  by (auto simp add: find_Some_iff)

lemma find_snoc: "find P xs = None \<Longrightarrow> P x \<Longrightarrow> find P (xs @ [x]) = Some x"
  by (induction xs) (auto split: if_splits)

lemma numbered_last:
  assumes "numbered methods methods_count" "methods \<noteq> []"
  shows "id_field (last methods) + 1 = of_nat (length methods)"
proof -
  from assms(2) have l: "last methods = methods ! (length methods - 1)"
    by (simp add: last_conv_nth)
  from assms have "id_field (methods ! (length methods - 1)) = map of_nat [0..<length methods] ! (length methods - 1)"
    by (metis numbered_def diff_less length_greater_0_conv nth_map zero_less_one)
  with assms(2) have "id_field (last methods) = of_nat (length methods - 1)"
    by (simp add: l)
  moreover from assms(2) have "length methods = Suc (length methods - 1)" by simp
  ultimately show ?thesis by (metis of_nat_Suc add.commute)
qed

lemma numbered_snoc:
  assumes n: "numbered methods methods_count" and m: "methodID c \<notin> set (map methodID methods)"
    and i: "id_field c = 0"
  shows "numbered (methods @ [if methods = [] then c else c\<lparr>id_field := id_field (last methods) + 1\<rparr>])
           (methods_count + 1)"
proof (cases "methods = []")
  case True
  with n m i show ?thesis by (simp add: numbered_def)
next
  case False
  with n m numbered_last [OF n False] show ?thesis by (simp add: numbered_def)
qed

lemma owned_id_field [simp]: "owned (c\<lparr>id_field := i\<rparr>) = owned c"
  by (simp add: owned_def)

lemma accounted_snoc:
  assumes acc: "accounted s0 methods s" and q: "quiet s s2" and h: "holds (next_alloc s) c s2"
  shows "accounted s0 (methods @ [c]) s2"
proof -
  from acc obtain fs where fs: "freed s = freed s0 @ fs"
      "mset fs + mset (concat (map owned methods)) = mset [next_alloc s0..<next_alloc s]"
      and le: "next_alloc s0 \<le> next_alloc s"
    by (auto simp add: accounted_def)
  from h have le2: "next_alloc s \<le> next_alloc s2"
      and o: "mset (owned c) = mset [next_alloc s..<next_alloc s2]"
    by (simp_all add: holds_def)
  from q have f: "freed s2 = freed s" by (simp add: quiet_def)
  show ?thesis
    unfolding accounted_def
  proof (intro conjI exI [of _ fs])
    show "next_alloc s0 \<le> next_alloc s2" using le le2 by simp
    show "freed s2 = freed s0 @ fs" using f fs by simp
    show "mset fs + mset (concat (map owned (methods @ [c]))) = mset [next_alloc s0..<next_alloc s2]"
      using fs(2) o upt_split [OF le le2] by (simp add: ac_simps)
  qed
qed

lemma lookup_method_res:
  assumes n: "numbered methods methods_count" and acc: "accounted s0 methods s"
  shows "lookup_res s0 s methods m (lookup_method h m methods methods_count s)"
proof (cases "find (\<lambda>c. methodID c = m) methods")
  case (Some c)
  with n acc find_methodID_Some [OF Some] show ?thesis
    by (simp add: lookup_method_def lookup_res_def add_seen_def)
next
  case None
  then have notin: "m \<notin> set (map methodID methods)" by (simp add: find_methodID_None)
  define a where "a = next_alloc s"
  define s1 where "s1 = s\<lparr>next_alloc := Suc (next_alloc s)\<rparr>"
  define c0 where "c0 = \<lparr>self_addr = a, id_field = 0, methodID = m, source_file = None,
                         method_name = None, method_signature = None, class_signature = None,
                         line_number_table_count = 0, line_number_table = None\<rparr>"
  let ?link = "\<lambda>current s. (let current = (if methods = [] then current
                         else current\<lparr>id_field := id_field (last methods) + 1\<rparr>)
          in Inr (Some current, methods @ [current], methods_count + 1, s))"
  let ?K5 = "\<lambda>current s. (case query_line_number_table h current s of
               Inl e \<Rightarrow> Inl e
             | Inr (None, s) \<Rightarrow> Inr (None, methods, methods_count, s)
             | Inr (Some current, s) \<Rightarrow> ?link current s)"
  let ?K4 = "\<lambda>klass current s. (case query_source_file h klass current s of
               Inl e \<Rightarrow> Inl e
             | Inr (None, s) \<Rightarrow> Inr (None, methods, methods_count, s)
             | Inr (Some current, s) \<Rightarrow> ?K5 current s)"
  let ?K3 = "\<lambda>current klass s. (case query_class_signature h klass current s of
               Inl e \<Rightarrow> Inl e
             | Inr (None, s) \<Rightarrow> Inr (None, methods, methods_count, s)
             | Inr (Some current, s) \<Rightarrow> ?K4 klass current s)"
  let ?K2 = "\<lambda>current s. (case query_declaring_class h current s of
               Inl e \<Rightarrow> Inl e
             | Inr (None, s) \<Rightarrow> Inr (None, methods, methods_count, s)
             | Inr (Some klass, s) \<Rightarrow> ?K3 current klass s)"
  have eq: "lookup_method h m methods methods_count s =
      (case query_method_name h c0 s1 of
               Inl e \<Rightarrow> Inl e
             | Inr (None, s) \<Rightarrow> Inr (None, methods, methods_count, s)
             | Inr (Some current, s) \<Rightarrow> ?K2 current s)"
    by (simp add: lookup_method_def None calloc_def a_def s1_def c0_def)
  have q0: "quiet s s1" by (simp add: quiet_def s1_def)
  have h0: "holds a c0 s1" by (simp add: holds_def s1_def c0_def a_def owned_def addr_def)
  from query_method_name_ok [OF h0, of h] obtain n1 g1 where
    st1: "stage_res a s1 (c0\<lparr>method_name := n1, method_signature := g1\<rparr>) (query_method_name h c0 s1)"
    and e1: "\<And>y s'. query_method_name h c0 s1 = Inr (Some y, s') \<Longrightarrow>
            y = c0\<lparr>method_name := n1, method_signature := g1\<rparr>"
    by (auto simp add: c0_def)
  define c1 where "c1 = c0\<lparr>method_name := n1, method_signature := g1\<rparr>"
  have "lookup_res s0 s methods m (case query_method_name h c0 s1 of
               Inl e \<Rightarrow> Inl e
             | Inr (None, s) \<Rightarrow> Inr (None, methods, methods_count, s)
             | Inr (Some current, s) \<Rightarrow> ?K2 current s)"
  proof (rule stage_bind [OF acc q0 a_def st1])
    fix x s2
    assume "query_method_name h c0 s1 = Inr (Some x, s2)" and q2: "quiet s s2"
      and "holds a (c0\<lparr>method_name := n1, method_signature := g1\<rparr>) s2"
    with e1 have x: "x = c1" and h2: "holds a c1 s2" by (simp_all add: c1_def)
    show "lookup_res s0 s methods m (?K2 x s2)"
      unfolding x
    proof (rule stage_bind [OF acc q2 a_def query_declaring_class_ok [OF h2]])
      fix klass s3
      assume q3: "quiet s s3" and h3: "holds a c1 s3"
      from query_class_signature_ok [OF h3, of h klass] obtain g3 where
        st3: "stage_res a s3 (c1\<lparr>class_signature := g3\<rparr>) (query_class_signature h klass c1 s3)"
        and e3: "\<And>y s'. query_class_signature h klass c1 s3 = Inr (Some y, s') \<Longrightarrow>
            y = c1\<lparr>class_signature := g3\<rparr>"
        by (auto simp add: c1_def c0_def)
      define c3 where "c3 = c1\<lparr>class_signature := g3\<rparr>"
      show "lookup_res s0 s methods m (?K3 c1 klass s3)"
      proof (rule stage_bind [OF acc q3 a_def st3])
        fix x s4
        assume "query_class_signature h klass c1 s3 = Inr (Some x, s4)" and q4: "quiet s s4"
          and "holds a (c1\<lparr>class_signature := g3\<rparr>) s4"
        with e3 have x: "x = c3" and h4: "holds a c3 s4" by (simp_all add: c3_def)
        from query_source_file_ok [OF h4, of h klass] obtain g4 where
          st4: "stage_res a s4 (c3\<lparr>source_file := g4\<rparr>) (query_source_file h klass c3 s4)"
          and e4: "\<And>y s'. query_source_file h klass c3 s4 = Inr (Some y, s') \<Longrightarrow>
              y = c3\<lparr>source_file := g4\<rparr>"
          by (auto simp add: c3_def c1_def c0_def)
        define c4 where "c4 = c3\<lparr>source_file := g4\<rparr>"
        show "lookup_res s0 s methods m (?K4 klass x s4)"
          unfolding x
        proof (rule stage_bind [OF acc q4 a_def st4])
          fix x s5
          assume "query_source_file h klass c3 s4 = Inr (Some x, s5)" and q5: "quiet s s5"
            and "holds a (c3\<lparr>source_file := g4\<rparr>) s5"
          with e4 have x: "x = c4" and h5: "holds a c4 s5" by (simp_all add: c4_def)
          from query_line_number_table_ok [OF h5, of h] obtain n5 g5 where
            st5: "stage_res a s5 (c4\<lparr>line_number_table_count := n5, line_number_table := g5\<rparr>)
                    (query_line_number_table h c4 s5)"
            and e5: "\<And>y s'. query_line_number_table h c4 s5 = Inr (Some y, s') \<Longrightarrow>
                y = c4\<lparr>line_number_table_count := n5, line_number_table := g5\<rparr>"
            by (auto simp add: c4_def c3_def c1_def c0_def)
          define c5 where "c5 = c4\<lparr>line_number_table_count := n5, line_number_table := g5\<rparr>"
          show "lookup_res s0 s methods m (?K5 x s5)"
            unfolding x
          proof (rule stage_bind [OF acc q5 a_def st5])
            fix x s6
            assume "query_line_number_table h c4 s5 = Inr (Some x, s6)" and q6: "quiet s s6"
              and "holds a (c4\<lparr>line_number_table_count := n5, line_number_table := g5\<rparr>) s6"
            with e5 have x: "x = c5" and h6: "holds a c5 s6" by (simp_all add: c5_def)
            have f5: "methodID c5 = m" "id_field c5 = 0"
              by (simp_all add: c5_def c4_def c3_def c1_def c0_def)
            let ?c = "if methods = [] then c5 else c5\<lparr>id_field := id_field (last methods) + 1\<rparr>"
            have hc: "holds (next_alloc s) ?c s6" using h6 by (simp add: holds_def a_def)
            have mc: "methodID ?c = m" using f5 by simp
            have "numbered (methods @ [?c]) (methods_count + 1)"
              using numbered_snoc [OF n, of c5] notin f5 by simp
            moreover have "accounted s0 (methods @ [?c]) s6"
              by (rule accounted_snoc [OF acc q6 hc])
            moreover have "find (\<lambda>c. methodID c = m) (methods @ [?c]) = Some ?c"
              using None mc by (intro find_snoc) simp_all
            moreover have "map methodID (methods @ [?c]) = add_seen m (map methodID methods)"
              using notin mc by (simp add: add_seen_def)
            ultimately show "lookup_res s0 s methods m (?link x s6)"
              unfolding x using q6 by (simp add: lookup_res_def Let_def)
          qed
        qed
      qed
    qed
  qed
  with eq show ?thesis by simp
qed

lemma example_host_simps:
  "little_endian example_host"
  "clock_gettime example_host = (0, \<lparr>tv_sec = 1, tv_nsec = 2\<rparr>)"
  "memory example_host = (\<lambda>a. ucast a)"
  by (simp_all add: example_host_def)


lemma m1_num: "(- 1 :: 32 word) = 0xFFFFFFFF" by simp

lemma be32_m1: "be32 (- 1) = [255, 255, 255, 255]"
  unfolding m1_num by (simp add: be32_def)




lemma wrote_Some:
  "output_file s = Some f \<Longrightarrow>
   wrote bs s = s\<lparr>output_file := Some (f\<lparr>contents := contents f @ bs, room := room f - length bs\<rparr>)\<rparr>"
  by (simp add: wrote_def)

lemma open_space: "output_file s = Some f \<Longrightarrow> is_open s \<and> space s = room f"
  by (simp add: is_open_def space_def)

lemma write_jint_ok: "is_open s \<Longrightarrow> 4 \<le> space s \<Longrightarrow> write_jint h v s = Inr (wrote (be32 v) s)"
  by (simp add: write_jint_iff)

lemma write_unsigned_jlong_ok:
  "is_open s \<Longrightarrow> 8 \<le> space s \<Longrightarrow> write_unsigned_jlong h v s = Inr (wrote (be64 v) s)"
  by (simp add: write_unsigned_jlong_iff)

lemma write_timestamp_ok:
  "is_open s \<Longrightarrow> 16 \<le> space s \<Longrightarrow>
   write_timestamp h ts s = Inr (wrote (be64 (tv_sec ts) @ be64 (tv_nsec ts)) s)"
  by (simp add: write_timestamp_iff)

lemma write_string_ok:
  "is_open s \<Longrightarrow> length cs \<le> INT_MAX \<Longrightarrow> 4 + length cs \<le> space s \<Longrightarrow>
   write_string h (Some cs) message s = Inr (wrote (be32 (of_nat (length cs)) @ chars cs) s)"
  by (simp add: write_string_iff)

text \<open>
  Claim C6. On an open stream with room for eight bytes, \<open>write_unsigned_jlong\<close> appends
  exactly the eight bytes of the value, most significant first, whatever the byte
  order of the host. On a little-endian host it does so as two \<open>write_jint\<close> calls, the
  high 32-bit word and then the low one, each appending its four big-endian bytes.
\<close>

theorem write_unsigned_jlong_big_endian:
  assumes "output_file s = Some f" and "8 \<le> room f"
  shows "write_unsigned_jlong h v s
           = Inr (s\<lparr>output_file := Some (f\<lparr>contents := contents f @ be64 v, room := room f - 8\<rparr>)\<rparr>)
       \<and> be64 v = be32 (ucast (drop_bit 32 v)) @ be32 (ucast v)
       \<and> (little_endian h \<longrightarrow>
            write_unsigned_jlong h v s
              = run [write_jint h (ucast (drop_bit 32 v)), write_jint h (ucast v)] s
            \<and> write_jint h (ucast (drop_bit 32 v)) s = Inr (wrote (be32 (ucast (drop_bit 32 v))) s)
            \<and> write_jint h (ucast v) (wrote (be32 (ucast (drop_bit 32 v))) s)
                = Inr (wrote (be32 (ucast (drop_bit 32 v)) @ be32 (ucast v)) s))"
proof -
  from assms have o: "is_open s" and sp: "8 \<le> space s"
    by (simp_all add: open_space)
  have "write_unsigned_jlong h v s = Inr (wrote (be64 v) s)"
    using o sp by (rule write_unsigned_jlong_ok)
  then have 1: "write_unsigned_jlong h v s
           = Inr (s\<lparr>output_file := Some (f\<lparr>contents := contents f @ be64 v, room := room f - 8\<rparr>)\<rparr>)"
    using assms(1) by (simp add: wrote_Some)
  have 2: "little_endian h \<Longrightarrow> write_unsigned_jlong h v s
              = run [write_jint h (ucast (drop_bit 32 v)), write_jint h (ucast v)] s"
    by (simp add: write_unsigned_jlong_def htonl_1 Let_def hi_word)
  have 3: "write_jint h (ucast (drop_bit 32 v)) s = Inr (wrote (be32 (ucast (drop_bit 32 v))) s)"
    using o sp by (simp add: write_jint_ok)
  have 4: "write_jint h (ucast v) (wrote (be32 (ucast (drop_bit 32 v))) s)
                = Inr (wrote (be32 (ucast (drop_bit 32 v)) @ be32 (ucast v)) s)"
    using o sp by (simp add: write_jint_ok)
  from 1 2 3 4 be64_split [of v] show ?thesis by blast
qed

theorem write_unsigned_jlong_big_endian_witness:
  "write_unsigned_jlong example_host 0x0102030405060708 example_agent
     = Inr (example_agent\<lparr>output_file := Some \<lparr>contents = [1, 2, 3, 4, 5, 6, 7, 8], room = 992\<rparr>\<rparr>)
   \<and> write_unsigned_jlong (example_host\<lparr>little_endian := False\<rparr>) 0x0102030405060708 example_agent
     = Inr (example_agent\<lparr>output_file := Some \<lparr>contents = [1, 2, 3, 4, 5, 6, 7, 8], room = 992\<rparr>\<rparr>)
   \<and> write_unsigned_jlong example_host 0x0102030405060708 example_agent
     = run [write_jint example_host (ucast (drop_bit 32 (0x0102030405060708 :: jlong))),
            write_jint example_host (ucast (0x0102030405060708 :: jlong))] example_agent"
proof -
  have o: "output_file example_agent = Some \<lparr>contents = [], room = 1000\<rparr>"
    by (simp add: example_agent_def)
  have r: "8 \<le> room \<lparr>contents = [], room = 1000\<rparr>"
    by simp
  note t = write_unsigned_jlong_big_endian [OF o r]
  have 1: "write_unsigned_jlong example_host 0x0102030405060708 example_agent
     = Inr (example_agent\<lparr>output_file := Some \<lparr>contents = [1, 2, 3, 4, 5, 6, 7, 8], room = 992\<rparr>\<rparr>)"
    using t [of example_host "0x0102030405060708", THEN conjunct1] by (simp add: be64_def)
  have 2: "write_unsigned_jlong (example_host\<lparr>little_endian := False\<rparr>) 0x0102030405060708 example_agent
     = Inr (example_agent\<lparr>output_file := Some \<lparr>contents = [1, 2, 3, 4, 5, 6, 7, 8], room = 992\<rparr>\<rparr>)"
    using t [of "example_host\<lparr>little_endian := False\<rparr>" "0x0102030405060708", THEN conjunct1]
    by (simp add: be64_def)
  have 3: "write_unsigned_jlong example_host 0x0102030405060708 example_agent
     = run [write_jint example_host (ucast (drop_bit 32 (0x0102030405060708 :: jlong))),
            write_jint example_host (ucast (0x0102030405060708 :: jlong))] example_agent"
    using t [of example_host "0x0102030405060708", THEN conjunct2, THEN conjunct2] example_host_simps(1)
    by (simp del: run.simps)
  from 1 2 3 show ?thesis by blast
qed

text \<open>
  Claim C7. \<open>write_string\<close> ends the process through \<open>report_error\<close> when the string
  is null and when its length exceeds \<open>INT_MAX\<close>. Otherwise, on an open stream with
  room, it appends the length as four big-endian bytes and then exactly that many bytes
  of the string (none for the empty string).
\<close>

theorem write_string_contract:
  "write_string h None message s
     = Inl (Abort (''Unexpected NULL string for '' @ [CHR 0x22] @ ''%s'' @ [CHR 0x22]) [Str message], s)
   \<and> (INT_MAX < length cs \<longrightarrow>
        write_string h (Some cs) message s = Inl (Abort ''String length is longer than an int'' [], s))
   \<and> (length cs \<le> INT_MAX \<and> output_file s = Some f \<and> 4 + length cs \<le> room f \<longrightarrow>
        write_string h (Some cs) message s
          = Inr (s\<lparr>output_file := Some (f\<lparr>contents := contents f @ be32 (of_nat (length cs)) @ chars cs,
                                          room := room f - (4 + length cs)\<rparr>)\<rparr>)
        \<and> length (chars cs) = length cs \<and> unat (of_nat (length cs) :: jint) = length cs)"
proof (intro conjI impI)
  show "write_string h None message s
     = Inl (Abort (''Unexpected NULL string for '' @ [CHR 0x22] @ ''%s'' @ [CHR 0x22]) [Str message], s)"
    by (simp add: write_string_def report_error_def)
  show "write_string h (Some cs) message s = Inl (Abort ''String length is longer than an int'' [], s)"
    if "INT_MAX < length cs"
    using that by (simp add: write_string_def report_error_def strlen_def)
next
  assume a: "length cs \<le> INT_MAX \<and> output_file s = Some f \<and> 4 + length cs \<le> room f"
  then have "write_string h (Some cs) message s = Inr (wrote (be32 (of_nat (length cs)) @ chars cs) s)"
    by (intro write_string_ok) (simp_all add: open_space)
  with a show "write_string h (Some cs) message s
          = Inr (s\<lparr>output_file := Some (f\<lparr>contents := contents f @ be32 (of_nat (length cs)) @ chars cs,
                                          room := room f - (4 + length cs)\<rparr>)\<rparr>)"
    by (simp add: wrote_Some chars_def)
  show "length (chars cs) = length cs" by (simp add: chars_def)
  from a show "unat (of_nat (length cs) :: jint) = length cs"
    by (intro of_nat_inverse [OF refl]) (simp add: INT_MAX_def)
qed

theorem write_string_contract_witness:
  "write_string example_host None (Some ''method_name'') example_agent
     = Inl (Abort (''Unexpected NULL string for '' @ [CHR 0x22] @ ''%s'' @ [CHR 0x22])
              [Str (Some ''method_name'')], example_agent)
   \<and> write_string example_host (Some (replicate 2147483648 (CHR ''a''))) (Some ''method_name'')
       example_agent
     = Inl (Abort ''String length is longer than an int'' [], example_agent)
   \<and> write_string example_host (Some ''stub'') None example_agent
     = Inr (example_agent\<lparr>output_file := Some \<lparr>contents = [0, 0, 0, 4, 115, 116, 117, 98], room = 992\<rparr>\<rparr>)
   \<and> write_string example_host (Some []) None example_agent
     = Inr (example_agent\<lparr>output_file := Some \<lparr>contents = [0, 0, 0, 0], room = 996\<rparr>\<rparr>)"
  using write_string_contract [where h = example_host and message = "Some ''method_name''"
          and s = example_agent and cs = "replicate 2147483648 (CHR ''a'')"]
    write_string_contract [where h = example_host and message = None and s = example_agent
          and cs = "''stub''" and f = "\<lparr>contents = [], room = 1000\<rparr>"]
    write_string_contract [where h = example_host and message = None and s = example_agent
          and cs = "[]" and f = "\<lparr>contents = [], room = 1000\<rparr>"]
  by (simp add: example_agent_def INT_MAX_def be32_def chars_def)

lemma lock_output_file_ok: "\<not> file_lock s \<Longrightarrow> lock_output_file s = Inr (s\<lparr>file_lock := True\<rparr>)"
  by (simp add: lock_output_file_def pthread_mutex_lock_def)

lemma unlock_output_file_ok: "file_lock s \<Longrightarrow> unlock_output_file s = Inr (s\<lparr>file_lock := False\<rparr>)"
  by (simp add: unlock_output_file_def pthread_mutex_unlock_def)

lemma get_timestamp_ok: "clock_gettime h = (0, ts) \<Longrightarrow> get_timestamp h s = Inr (ts, s)"
  by (simp add: get_timestamp_def)

lemma locked_fields [simp]:
  "is_open (s\<lparr>file_lock := b\<rparr>) = is_open s"
  "space (s\<lparr>file_lock := b\<rparr>) = space s"
  "wrote bs (s\<lparr>file_lock := b\<rparr>) = (wrote bs s)\<lparr>file_lock := b\<rparr>"
  by (simp_all add: is_open_def space_def wrote_def)

lemma run3:
  "run [a, b, c] s =
     (case a s of Inl e \<Rightarrow> Inl e
      | Inr s1 \<Rightarrow> (case b s1 of Inl e \<Rightarrow> Inl e | Inr s2 \<Rightarrow> c s2))"
  by (simp split: sum.splits)

lemma unlocked_id: "\<not> file_lock s \<Longrightarrow> s\<lparr>file_lock := False\<rparr> = s"
  by simp

lemma length_code_bytes [simp]: "length (code_bytes h a n) = nat (sint n)"
  by (simp add: code_bytes_def)

lemma length_chars [simp]: "length (chars cs) = length cs"
  by (simp add: chars_def)

lemma DynamicCodeTag_bytes: "be32 DynamicCodeTag = chars ''DYNC''"
  by (simp add: DynamicCodeTag_def BUILD_TAG_def TAG_VALUE_def be32_def chars_def)

lemma write_or_fail_ok:
  "is_open s \<Longrightarrow> 0 < n \<Longrightarrow> n < 2 ^ 64 \<Longrightarrow> int (length data) = n \<Longrightarrow> length data \<le> space s \<Longrightarrow>
   write_or_fail data n s = Inr (wrote data s)"
  by (auto simp add: write_or_fail_iff size_t_of_int_def)

text \<open>
  Claim C5. A dynamic-code event with a non-null name of four characters and a code
  size of 16, on an unlocked open stream with room, appends exactly 56 bytes: the tag
  \<open>DYNC\<close>, the seconds and the nanoseconds of the timestamp (eight bytes each), the
  name's length (four bytes) and its four bytes, the code address (eight bytes), the
  code size (four bytes) and the 16 bytes of code, every integer big-endian.
\<close>

theorem dynamicCodeGenerated_layout:
  assumes "clock_gettime h = (0, ts)" and "\<not> file_lock s" and "output_file s = Some f"
    and "56 \<le> room f" and "length name = 4"
  shows "dynamicCodeGenerated h (Some name) code_addr 16 s
           = Inr (s\<lparr>output_file := Some (f\<lparr>contents := contents f
                    @ chars ''DYNC'' @ be64 (tv_sec ts) @ be64 (tv_nsec ts)
                    @ be32 4 @ chars name @ be64 code_addr @ be32 16 @ code_bytes h code_addr 16,
                    room := room f - 56\<rparr>)\<rparr>)
       \<and> length (chars ''DYNC'' @ be64 (tv_sec ts) @ be64 (tv_nsec ts)
                    @ be32 4 @ chars name @ be64 code_addr @ be32 16 @ code_bytes h code_addr 16) = 56"
proof -
  let ?s = "s\<lparr>file_lock := True\<rparr>"
  have o: "is_open ?s" and sp: "56 \<le> space ?s"
    using assms by (simp_all add: open_space)
  have body: "run [write_jint h DynamicCodeTag,
                              write_timestamp h ts,
                              write_string h (Some name) (Some ''dynamic code name''),
                              write_unsigned_jlong h code_addr,
                              write_jint h 16,
                              write_or_fail (code_bytes h code_addr 16) 16,
                              fflush] ?s
      = Inr (wrote (chars ''DYNC'' @ be64 (tv_sec ts) @ be64 (tv_nsec ts)
                    @ be32 4 @ chars name @ be64 code_addr @ be32 16 @ code_bytes h code_addr 16) ?s)"
    using o sp assms(5)
    by (simp add: write_jint_ok write_timestamp_ok write_string_ok write_unsigned_jlong_ok
        write_or_fail_ok fflush_def INT_MAX_def DynamicCodeTag_bytes [symmetric])
  let ?bs = "chars ''DYNC'' @ be64 (tv_sec ts) @ be64 (tv_nsec ts)
                    @ be32 4 @ chars name @ be64 code_addr @ be32 16 @ code_bytes h code_addr 16"
  have 1: "lock_output_file s = Inr ?s"
    using assms(2) by (rule lock_output_file_ok)
  have 2: "output_file ?s \<noteq> None"
    using assms(3) by simp
  have 3: "unlock_output_file ((wrote ?bs s)\<lparr>file_lock := True\<rparr>) = Inr (wrote ?bs s)"
    using assms(2) by (simp add: unlock_output_file_ok unlocked_id)
  have "dynamicCodeGenerated h (Some name) code_addr 16 s = Inr (wrote ?bs s)"
    unfolding dynamicCodeGenerated_def get_timestamp_ok [OF assms(1)] run3
    using 2 by (simp add: 1 body 3 del: run.simps)
  then show ?thesis
    using assms by (simp add: wrote_Some)
qed

theorem dynamicCodeGenerated_layout_witness:
  "dynamicCodeGenerated example_host (Some ''stub'') 0x1000 16 example_agent
     = Inr (example_agent\<lparr>output_file := Some \<lparr>contents =
              [68, 89, 78, 67, 0, 0, 0, 0, 0, 0, 0, 1, 0, 0, 0, 0, 0, 0, 0, 2,
               0, 0, 0, 4, 115, 116, 117, 98, 0, 0, 0, 0, 0, 0, 16, 0, 0, 0, 0, 16,
               0, 1, 2, 3, 4, 5, 6, 7, 8, 9, 10, 11, 12, 13, 14, 15],
              room = 944\<rparr>\<rparr>)"
proof -
  have o: "output_file example_agent = Some \<lparr>contents = [], room = 1000\<rparr>"
    and l: "\<not> file_lock example_agent"
    by (simp_all add: example_agent_def)
  have r: "56 \<le> room \<lparr>contents = [], room = 1000\<rparr>" and n: "length ''stub'' = 4"
    by simp_all
  have c: "code_bytes example_host 0x1000 16 = [0, 1, 2, 3, 4, 5, 6, 7, 8, 9, 10, 11, 12, 13, 14, 15]"
    by (simp add: code_bytes_def example_host_simps upt_rec)
  show ?thesis
    using dynamicCodeGenerated_layout [OF example_host_simps(2) l o r n, of "0x1000", THEN conjunct1]
    by (simp add: c be32_def be64_def chars_def)
qed

lemma scan_compile_info_skip:
  "\<forall>r\<in>set skipped. kind r \<noteq> JVMTI_CMLR_INLINE_INFO \<Longrightarrow>
   scan_compile_info h (skipped @ chain) methods methods_count s
     = scan_compile_info h chain methods methods_count s"
  by (induction skipped) simp_all

lemma scan_compile_info_first:
  "kind r = JVMTI_CMLR_INLINE_INFO \<Longrightarrow>
   scan_compile_info h (r # rest) methods methods_count s
     = scan_compile_info h [r] methods methods_count s"
  by simp

text \<open>
  Claim C10. The scan of the \<open>compile_info\<close> chain skips the records before the first
  one of kind \<open>JVMTI_CMLR_INLINE_INFO\<close>, resolves the frames of that record only and
  never reads the records after it: the callback does on the whole chain what it does
  on the chain that holds that one record.
\<close>

theorem compiledMethodLoad_first_inline_record:
  assumes "\<forall>r\<in>set skipped. kind r \<noteq> JVMTI_CMLR_INLINE_INFO"
    and "kind inline_record = JVMTI_CMLR_INLINE_INFO"
  shows "scan_compile_info h (skipped @ inline_record # rest) methods methods_count s
           = (case lookup_pcinfo h (pcinfo inline_record) methods methods_count s of
                Inl e \<Rightarrow> Inl e
              | Inr (abandon, methods', methods_count', s') \<Rightarrow>
                  Inr (abandon, Some inline_record, methods', methods_count', s'))
       \<and> compiledMethodLoad h m code_size code_addr (skipped @ inline_record # rest) s
           = compiledMethodLoad h m code_size code_addr [inline_record] s"
proof -
  have eq: "scan_compile_info h (skipped @ inline_record # rest) methods methods_count s
      = scan_compile_info h [inline_record] methods methods_count s" for methods methods_count s
    using assms scan_compile_info_skip [of skipped h "inline_record # rest"]
    by (simp del: scan_compile_info.simps add: scan_compile_info_first [of inline_record h rest])
  have 1: "scan_compile_info h (skipped @ inline_record # rest) methods methods_count s
           = (case lookup_pcinfo h (pcinfo inline_record) methods methods_count s of
                Inl e \<Rightarrow> Inl e
              | Inr (abandon, methods', methods_count', s') \<Rightarrow>
                  Inr (abandon, Some inline_record, methods', methods_count', s'))"
    unfolding eq using assms(2) by simp
  have 2: "compiledMethodLoad h m code_size code_addr (skipped @ inline_record # rest) s
           = compiledMethodLoad h m code_size code_addr [inline_record] s"
    by (simp only: compiledMethodLoad_def eq)
  from 1 2 show ?thesis by (rule conjI)
qed

lemma only_output_refl [simp]: "only_output s s"
  by (simp add: only_output_def)

lemma only_output_trans: "only_output s s1 \<Longrightarrow> only_output s1 s2 \<Longrightarrow> only_output s s2"
  unfolding only_output_def by (cases s, cases s1, cases s2) simp

lemma only_output_wrote [simp]: "only_output s (wrote bs s)"
  by (simp add: only_output_def wrote_def)

lemma emits_run_Nil: "emits (run []) []"
  by (simp add: emits_def)

lemma emits_run_Cons:
  assumes "emits c a" and "emits (run cs) b"
  shows "emits (run (c # cs)) (a @ b)"
  unfolding emits_def
proof (intro allI impI)
  fix s s'
  assume "run (c # cs) s = Inr s'"
  then obtain s1 where "c s = Inr s1" and "run cs s1 = Inr s'"
    by (auto simp add: run_Cons_iff)
  with assms have "s1 = wrote a s" and "s' = wrote b s1"
    by (simp_all add: emits_def)
  then show "s' = wrote (a @ b) s" by simp
qed

lemma emits_run_append:
  assumes "emits (run cs) a" and "emits (run ds) b"
  shows "emits (run (cs @ ds)) (a @ b)"
  unfolding emits_def
proof (intro allI impI)
  fix s s'
  assume "run (cs @ ds) s = Inr s'"
  then obtain s1 where "run cs s = Inr s1" and "run ds s1 = Inr s'"
    by (auto simp add: run_append)
  with assms have "s1 = wrote a s" and "s' = wrote b s1"
    by (simp_all add: emits_def)
  then show "s' = wrote (a @ b) s" by simp
qed

lemma emits_run_concat:
  "(\<And>x. x \<in> set xs \<Longrightarrow> emits (run (f x)) (g x)) \<Longrightarrow>
   emits (run (concat (map f xs))) (concat (map g xs))"
proof (induction xs)
  case Nil
  show ?case by (simp add: emits_def)
next
  case (Cons x xs)
  then show ?case
    using emits_run_append [of "f x" "g x" "concat (map f xs)" "concat (map g xs)"]
    by (simp del: run.simps)
qed

lemma emits_run_map:
  "(\<And>x. x \<in> set xs \<Longrightarrow> emits (f x) (g x)) \<Longrightarrow> emits (run (map f xs)) (concat (map g xs))"
proof (induction xs)
  case Nil
  show ?case by (simp add: emits_def)
next
  case (Cons x xs)
  then show ?case
    using emits_run_Cons [of "f x" "g x" "map f xs" "concat (map g xs)"]
    by (simp del: run.simps)
qed

lemma emits_write_jint: "emits (write_jint h v) (be32 v)"
  by (simp add: emits_def write_jint_iff)

lemma emits_write_unsigned_jlong: "emits (write_unsigned_jlong h v) (be64 v)"
  by (simp add: emits_def write_unsigned_jlong_iff)

lemma emits_write_timestamp: "emits (write_timestamp h ts) (be64 (tv_sec ts) @ be64 (tv_nsec ts))"
  by (simp add: emits_def write_timestamp_iff)

lemma emits_write_string: "emits (write_string h (deref p) message) (required_str p)"
  by (auto simp add: emits_def write_string_iff required_str_def deref_def len_str_def
      split: option.splits)

lemma emits_write_string_or_null: "emits (write_string_or_null h p) (nullable_str p)"
  by (auto simp add: emits_def write_string_or_null_def write_string_iff write_jint_iff
      nullable_str_def len_str_def split: option.splits)

lemma size_t_nonneg: "0 \<le> i \<Longrightarrow> i < 18446744073709551616 \<Longrightarrow> size_t_of_int i = nat i"
  by (simp add: size_t_of_int_def)

lemma sint_jint_bound: "sint (n :: jint) < 18446744073709551616"
proof -
  have "sint n < 2147483648" using sint_lt [of n] by simp
  then show ?thesis by linarith
qed

lemma size_t_sint:
  assumes 1: "0 < size_t_of_int (sint (n :: jint))" and 2: "size_t_of_int (sint n) \<le> nat (sint n)"
  shows "size_t_of_int (sint n) = nat (sint n)"
proof -
  have "0 \<le> sint n"
  proof (rule ccontr)
    assume "\<not> 0 \<le> sint n"
    then have "nat (sint n) = 0" by simp
    with 1 2 show False by simp
  qed
  then show ?thesis by (rule size_t_nonneg) (rule sint_jint_bound)
qed

lemma emits_code:
  "emits (write_or_fail (code_bytes h code_addr code_size) (sint code_size))
     (code_bytes h code_addr code_size)"
  unfolding emits_def
proof (intro allI impI)
  fix s s'
  assume "write_or_fail (code_bytes h code_addr code_size) (sint code_size) s = Inr s'"
  then have 1: "0 < size_t_of_int (sint code_size)"
    and 2: "size_t_of_int (sint code_size) \<le> nat (sint code_size)"
    and 3: "s' = wrote (take (size_t_of_int (sint code_size)) (code_bytes h code_addr code_size)) s"
    by (simp_all add: write_or_fail_iff)
  from size_t_sint [OF 1 2] 3 show "s' = wrote (code_bytes h code_addr code_size) s"
    by simp
qed

lemma emits_fflush: "emits fflush []"
  by (simp add: emits_def fflush_def)

lemma emits_line_entries:
  "emits (run (if 0 <s line_number_table_count current
             then (case line_number_table current of
                     None \<Rightarrow> [\<lambda>s. Inl (Segfault, s)]
                   | Some (a, table) \<Rightarrow>
                       concat (map (\<lambda>entry. [write_unsigned_jlong h (start_location entry),
                                              write_jint h (line_number entry)])
                                   (take (nat (sint (line_number_table_count current))) table)))
             else []))
     (concat (map line_entry (line_entries current)))"
proof -
  have e: "emits (run [write_unsigned_jlong h (start_location entry), write_jint h (line_number entry)])
             (line_entry entry)" for entry
    using emits_run_Cons [OF emits_write_unsigned_jlong emits_run_Cons [OF emits_write_jint emits_run_Nil]]
    by (simp add: line_entry_def)
  show ?thesis
  proof (cases "0 <s line_number_table_count current")
    case False
    then show ?thesis by (simp add: line_entries_def emits_def)
  next
    case True
    show ?thesis
    proof (cases "line_number_table current")
      case None
      with True show ?thesis by (simp add: line_entries_def emits_def)
    next
      case (Some p)
      obtain a table where p: "p = (a, table)" by (cases p) auto
      show ?thesis
        using True Some p emits_run_concat [of "take (nat (sint (line_number_table_count current))) table"
            "\<lambda>entry. [write_unsigned_jlong h (start_location entry), write_jint h (line_number entry)]"
            line_entry, OF e]
        by (simp add: line_entries_def)
    qed
  qed
qed

lemma emits_write_method: "emits (write_method h current) (method_entry current)"
proof -
  have "emits (run [write_string h (deref (class_signature current)) (Some ''class_signature''),
           write_string h (deref (method_name current)) (Some ''method_name''),
           write_string h (deref (method_signature current)) (Some ''method_signature''),
           write_string_or_null h (deref (source_file current)),
           write_jint h (line_number_table_count current)])
         (required_str (class_signature current) @ required_str (method_name current)
           @ required_str (method_signature current) @ nullable_str (deref (source_file current))
           @ be32 (line_number_table_count current) @ [])"
    by (intro emits_run_Cons emits_write_string emits_write_string_or_null emits_write_jint
        emits_run_Nil)
  from emits_run_append [OF this emits_line_entries [of current h]]
  show ?thesis
    unfolding write_method_def method_entry_def by simp
qed

lemma loop_res_quiet: "quiet s s1 \<Longrightarrow> loop_res s0 s1 order r \<Longrightarrow> loop_res s0 s order r"
  by (auto simp add: loop_res_def intro: quiet_trans quiet_shut split: sum.splits prod.splits bool.splits)

lemma lookup_stackframes_res:
  "numbered methods methods_count \<Longrightarrow> accounted s0 methods s \<Longrightarrow>
   loop_res s0 s (fold add_seen (map fst frames) (map methodID methods))
     (lookup_stackframes h frames methods methods_count s)"
proof (induction frames arbitrary: methods methods_count s)
  case Nil
  then show ?case by (simp add: loop_res_def)
next
  case (Cons fr frames)
  obtain m bci where fr: "fr = (m, bci)" by (cases fr) auto
  note r = lookup_method_res [OF Cons.prems, of m h]
  show ?case
  proof (cases "lookup_method h m methods methods_count s")
    case (Inl p)
    with r fr show ?thesis
      by (cases p) (simp add: lookup_res_def loop_res_def)
  next
    case (Inr p)
    obtain found methods' methods_count' s' where p: "p = (found, methods', methods_count', s')"
      by (cases p) auto
    show ?thesis
    proof (cases found)
      case None
      with r fr Inr p show ?thesis by (simp add: lookup_res_def loop_res_def)
    next
      case (Some md)
      with r Inr p have q: "quiet s s'" and n: "numbered methods' methods_count'"
        and a: "accounted s0 methods' s'"
        and o: "map methodID methods' = add_seen m (map methodID methods)"
        by (simp_all add: lookup_res_def)
      from Cons.IH [OF n a] o
      have "loop_res s0 s' (fold add_seen (map fst (fr # frames)) (map methodID methods))
              (lookup_stackframes h frames methods' methods_count' s')"
        by (simp add: fr)
      from loop_res_quiet [OF q this] fr Inr p Some show ?thesis by simp
    qed
  qed
qed

lemma lookup_pcinfo_res:
  "numbered methods methods_count \<Longrightarrow> accounted s0 methods s \<Longrightarrow>
   loop_res s0 s
     (fold add_seen (concat (map (\<lambda>info. map fst (stackframes info)) infos)) (map methodID methods))
     (lookup_pcinfo h infos methods methods_count s)"
proof (induction infos arbitrary: methods methods_count s)
  case Nil
  then show ?case by (simp add: loop_res_def)
next
  case (Cons info infos)
  note r = lookup_stackframes_res [OF Cons.prems, of "stackframes info" h]
  show ?case
  proof (cases "lookup_stackframes h (stackframes info) methods methods_count s")
    case (Inl p)
    with r show ?thesis
      by (cases p) (simp add: loop_res_def)
  next
    case (Inr p)
    obtain abandon methods' methods_count' s' where p: "p = (abandon, methods', methods_count', s')"
      by (cases p) auto
    show ?thesis
    proof (cases abandon)
      case True
      with r Inr p show ?thesis by (simp add: loop_res_def)
    next
      case False
      with r Inr p have q: "quiet s s'" and n: "numbered methods' methods_count'"
        and a: "accounted s0 methods' s'"
        and o: "map methodID methods' = fold add_seen (map fst (stackframes info)) (map methodID methods)"
        by (simp_all add: loop_res_def)
      from Cons.IH [OF n a] o
      have "loop_res s0 s'
              (fold add_seen (concat (map (\<lambda>info. map fst (stackframes info)) (info # infos)))
                 (map methodID methods))
              (lookup_pcinfo h infos methods' methods_count' s')"
        by simp
      from loop_res_quiet [OF q this] Inr p False show ?thesis by simp
    qed
  qed
qed

lemma scan_compile_info_res:
  assumes "numbered methods methods_count" and "accounted s0 methods s"
  shows "case scan_compile_info h chain methods methods_count s of
           Inl (e, s') \<Rightarrow> quiet s s'
         | Inr (abandon, inline_records, methods', methods_count', s') \<Rightarrow>
             inline_records = find (\<lambda>r. kind r = JVMTI_CMLR_INLINE_INFO) chain
             \<and> loop_res s0 s (fold add_seen (frame_handles inline_records) (map methodID methods))
                  (Inr (abandon, methods', methods_count', s'))"
proof (induction chain)
  case Nil
  from assms show ?case by (simp add: loop_res_def frame_handles_def)
next
  case (Cons r chain)
  show ?case
  proof (cases "kind r = JVMTI_CMLR_INLINE_INFO")
    case False
    with Cons show ?thesis by (auto split: sum.splits prod.splits)
  next
    case True
    from lookup_pcinfo_res [OF assms, of "pcinfo r" h] True show ?thesis
      by (auto simp add: frame_handles_def loop_res_def split: sum.splits prod.splits bool.splits)
  qed
qed

lemma find_index_of:
  assumes n: "numbered methods methods_count"
    and f: "find (\<lambda>c. methodID c = m) methods = Some c"
  shows "id_field c = of_nat (index_of m (map methodID methods))"
proof -
  from f obtain i where i: "i < length methods" "methodID (methods ! i) = m" "c = methods ! i"
    and before: "\<forall>j<i. methodID (methods ! j) \<noteq> m"
    by (auto simp add: find_Some_iff)
  have "takeWhile (\<lambda>y. y \<noteq> m) (map methodID methods) = take i (map methodID methods)"
    using i before by (intro takeWhile_eq_take_P_nth) simp_all
  with i have "index_of m (map methodID methods) = i"
    by (simp add: index_of_def)
  moreover have "id_field (methods ! i) = of_nat i"
  proof -
    from n have "map id_field methods ! i = (map of_nat [0..<length methods] :: jint list) ! i"
      by (simp add: numbered_def)
    with i show ?thesis by simp
  qed
  ultimately show ?thesis using i by simp
qed

lemma find_in_set:
  "m \<in> set (map methodID methods) \<Longrightarrow> \<exists>c. find (\<lambda>c. methodID c = m) methods = Some c"
  by (cases "find (\<lambda>c. methodID c = m) methods") (auto simp add: find_None_iff)

lemma run_append_case:
  "(case run cs s of Inl e \<Rightarrow> Inl e | Inr s1 \<Rightarrow>
      (case run ds s1 of Inl e \<Rightarrow> Inl e | Inr s2 \<Rightarrow> k s2))
   = (case run (cs @ ds) s of Inl e \<Rightarrow> Inl e | Inr s2 \<Rightarrow> k s2)"
  by (simp add: run_append split: sum.splits)

lemma write_stackframes_hits:
  assumes n: "numbered methods methods_count"
  shows "fst ` set frames \<subseteq> set (map methodID methods) \<Longrightarrow>
     write_stackframes h frames methods methods_count s
       = (case run (concat (map (frame_cmds h (map methodID methods)) frames)) s of
            Inl e \<Rightarrow> Inl e
          | Inr s' \<Rightarrow> Inr (methods, methods_count, s'))"
proof (induction frames arbitrary: s)
  case Nil
  show ?case by simp
next
  case (Cons fr frames)
  obtain m bci where fr: "fr = (m, bci)" by (cases fr) auto
  with Cons.prems have "m \<in> set (map methodID methods)" by auto
  then obtain c where c: "find (\<lambda>c. methodID c = m) methods = Some c"
    using find_in_set by blast
  have l: "lookup_method h m methods methods_count s = Inr (Some c, methods, methods_count, s)"
    using c by (simp add: lookup_method_def)
  have i: "id_field c = of_nat (index_of m (map methodID methods))"
    using n c by (rule find_index_of)
  from Cons.prems have "fst ` set frames \<subseteq> set (map methodID methods)" by auto
  note IH = Cons.IH [OF this]
  have fc: "frame_cmds h (map methodID methods) (m, bci) = [write_jint h (id_field c), write_jint h bci]"
    by (simp add: frame_cmds_def i)
  have "write_stackframes h ((m, bci) # frames) methods methods_count s
      = (case run [write_jint h (id_field c), write_jint h bci] s of
           Inl e \<Rightarrow> Inl e
         | Inr s'' \<Rightarrow> write_stackframes h frames methods methods_count s'')"
    by (simp add: l del: run.simps)
  also have "\<dots> = (case run (frame_cmds h (map methodID methods) (m, bci)) s of
           Inl e \<Rightarrow> Inl e
         | Inr s'' \<Rightarrow>
            (case run (concat (map (frame_cmds h (map methodID methods)) frames)) s'' of
               Inl e \<Rightarrow> Inl e
             | Inr s' \<Rightarrow> Inr (methods, methods_count, s')))"
    by (simp only: IH fc [symmetric] cong: sum.case_cong)
  also have "\<dots> = (case run (frame_cmds h (map methodID methods) (m, bci)
                              @ concat (map (frame_cmds h (map methodID methods)) frames)) s of
           Inl e \<Rightarrow> Inl e
         | Inr s' \<Rightarrow> Inr (methods, methods_count, s'))"
    by (rule run_append_case)
  finally show ?case
    by (simp add: fr del: run.simps)
qed

lemma write_pcinfo_hits:
  assumes n: "numbered methods methods_count"
  shows "set (concat (map (\<lambda>info. map fst (stackframes info)) infos)) \<subseteq> set (map methodID methods) \<Longrightarrow>
     write_pcinfo h infos methods methods_count s
       = (case run (concat (map (pc_cmds h (map methodID methods)) infos)) s of
            Inl e \<Rightarrow> Inl e
          | Inr s' \<Rightarrow> Inr (methods, methods_count, s'))"
proof (induction infos arbitrary: s)
  case Nil
  show ?case by simp
next
  case (Cons info infos)
  from Cons.prems have 1: "fst ` set (stackframes info) \<subseteq> set (map methodID methods)"
    and 2: "set (concat (map (\<lambda>info. map fst (stackframes info)) infos)) \<subseteq> set (map methodID methods)"
    by auto
  note IH = Cons.IH [OF 2]
  note W = write_stackframes_hits [OF n 1]
  let ?head = "[write_unsigned_jlong h (pc info), write_jint h (of_nat (length (stackframes info)))]"
  let ?frames = "concat (map (frame_cmds h (map methodID methods)) (stackframes info))"
  let ?rest = "concat (map (pc_cmds h (map methodID methods)) infos)"
  have pc: "pc_cmds h (map methodID methods) info = ?head @ ?frames"
    by (simp add: pc_cmds_def)
  have "write_pcinfo h (info # infos) methods methods_count s
      = (case run ?head s of
           Inl e \<Rightarrow> Inl e
         | Inr s' \<Rightarrow>
            (case run ?frames s' of
               Inl e \<Rightarrow> Inl e
             | Inr s'' \<Rightarrow>
                (case run ?rest s'' of
                   Inl e \<Rightarrow> Inl e
                 | Inr s3 \<Rightarrow> Inr (methods, methods_count, s3))))"
    by (simp add: W IH del: run.simps split: sum.splits)
  also have "\<dots> = (case run ?head s of
           Inl e \<Rightarrow> Inl e
         | Inr s' \<Rightarrow>
            (case run (?frames @ ?rest) s' of
                   Inl e \<Rightarrow> Inl e
                 | Inr s3 \<Rightarrow> Inr (methods, methods_count, s3)))"
    by (simp only: run_append_case)
  also have "\<dots> = (case run (?head @ ?frames @ ?rest) s of
                   Inl e \<Rightarrow> Inl e
                 | Inr s3 \<Rightarrow> Inr (methods, methods_count, s3))"
    by (rule run_append_case)
  finally show ?case
    by (simp add: pc del: run.simps)
qed

lemma emits_frame_cmds: "emits (run (frame_cmds h order fr)) (frame_entry order fr)"
  unfolding frame_cmds_def frame_entry_def
  using emits_run_Cons [OF emits_write_jint emits_run_Cons [OF emits_write_jint emits_run_Nil]]
  by simp

lemma emits_pc_cmds: "emits (run (pc_cmds h order info)) (pc_entry order info)"
proof -
  have "emits (run [write_unsigned_jlong h (pc info), write_jint h (of_nat (length (stackframes info)))])
          (be64 (pc info) @ be32 (of_nat (length (stackframes info))) @ [])"
    by (intro emits_run_Cons emits_write_unsigned_jlong emits_write_jint emits_run_Nil)
  from emits_run_append [OF this emits_run_concat [of "stackframes info" "frame_cmds h order"
        "frame_entry order", OF emits_frame_cmds]]
  show ?thesis by (simp add: pc_cmds_def pc_entry_def)
qed

lemma tag_bytes:
  "be32 CompiledMethodLoadTag = chars ''CMLT''"
  "be32 MethodsTag = chars ''MTHT''"
  "be32 DebugInfoTag = chars ''DEBI''"
  "be32 CompiledMethodUnloadTag = chars ''CMUT''"
  by (simp_all add: CompiledMethodLoadTag_def MethodsTag_def DebugInfoTag_def
      CompiledMethodUnloadTag_def BUILD_TAG_def TAG_VALUE_def be32_def chars_def)

lemma emits_debug_cmds:
  "emits (run (case inline_records of
          Some r \<Rightarrow> write_jint h (of_nat (length (pcinfo r)))
                    # concat (map (pc_cmds h order) (pcinfo r))
        | None \<Rightarrow> [write_jint h 0]))
     (case inline_records of
          None \<Rightarrow> be32 0
        | Some r \<Rightarrow> be32 (of_nat (length (pcinfo r))) @ concat (map (pc_entry order) (pcinfo r)))"
proof (cases inline_records)
  case None
  then show ?thesis
    using emits_run_Cons [OF emits_write_jint emits_run_Nil, of h 0] by simp
next
  case (Some r)
  then show ?thesis
    using emits_run_Cons [OF emits_write_jint
        emits_run_concat [of "pcinfo r" "pc_cmds h order" "pc_entry order", OF emits_pc_cmds],
        of h "of_nat (length (pcinfo r))"]
    by simp
qed

lemma emits_record_cmds:
  "emits (run (record_cmds h ts code_size code_addr (of_nat (length methods)) methods inline_records))
     (CMLT_record ts code_addr code_size (code_bytes h code_addr code_size) methods inline_records)"
proof -
  have 1: "emits (run [write_jint h CompiledMethodLoadTag,
      write_timestamp h ts,
      write_unsigned_jlong h code_addr,
      write_jint h code_size,
      write_or_fail (code_bytes h code_addr code_size) (sint code_size),
      write_jint h MethodsTag,
      write_jint h (of_nat (length methods))])
     (be32 CompiledMethodLoadTag @ (be64 (tv_sec ts) @ be64 (tv_nsec ts)) @ be64 code_addr
       @ be32 code_size @ code_bytes h code_addr code_size @ be32 MethodsTag
       @ be32 (of_nat (length methods)) @ [])"
    by (intro emits_run_Cons emits_write_jint emits_write_timestamp emits_write_unsigned_jlong
        emits_code emits_run_Nil)
  have 2: "emits (run (map (write_method h) methods)) (concat (map method_entry methods))"
    by (intro emits_run_map emits_write_method)
  have 3: "emits (run [write_jint h DebugInfoTag]) (be32 DebugInfoTag @ [])"
    by (intro emits_run_Cons emits_write_jint emits_run_Nil)
  have 4: "emits (run [fflush]) ([] @ [])"
    by (intro emits_run_Cons emits_fflush emits_run_Nil)
  from emits_run_append [OF 1 emits_run_append [OF 2 emits_run_append [OF 3
        emits_run_append [OF emits_debug_cmds 4]]]]
  show ?thesis
    by (simp add: record_cmds_def CMLT_record_def method_table_def debug_info_def tag_bytes
        del: run.simps)
qed

lemma writerI:
  "(\<And>s e s'. c s = Inl (e, s') \<Longrightarrow> only_output s s') \<Longrightarrow>
   (\<And>s s'. c s = Inr s' \<Longrightarrow> only_output s s') \<Longrightarrow> writer c"
  by (auto simp add: writer_def split: sum.splits)

lemma writerD:
  "writer c \<Longrightarrow> c s = Inl (e, s') \<Longrightarrow> only_output s s'"
  "writer c \<Longrightarrow> c s = Inr s' \<Longrightarrow> only_output s s'"
  by (auto simp add: writer_def split: sum.splits dest: spec [of _ s])

lemma writer_write_or_fail: "writer (write_or_fail data n)"
  by (rule writerI)
    (auto simp add: write_or_fail_def fwrite_def report_error_def only_output_def Let_def
      split: option.splits if_splits)

lemma writer_write_jint: "writer (write_jint h v)"
  unfolding write_jint_def by (rule writer_write_or_fail)

lemma writer_fail: "writer (\<lambda>s. Inl (e, s))"
  by (rule writerI) auto

lemma writer_skip: "writer Inr"
  by (rule writerI) auto

lemma writer_fflush: "writer fflush"
  by (rule writerI) (auto simp add: fflush_def)

lemma writer_run: "(\<And>c. c \<in> set cs \<Longrightarrow> writer c) \<Longrightarrow> writer (run cs)"
proof (induction cs)
  case Nil
  show ?case by (rule writerI) auto
next
  case (Cons c cs)
  then have c: "writer c" and cs: "writer (run cs)" by simp_all
  show ?case
  proof (rule writerI)
    fix s e s'
    assume r: "run (c # cs) s = Inl (e, s')"
    show "only_output s s'"
    proof (cases "c s")
      case (Inl p)
      with r have "c s = Inl (e, s')" by simp
      then show ?thesis by (rule writerD(1) [OF c])
    next
      case (Inr s1)
      with r have "run cs s1 = Inl (e, s')" by simp
      then have "only_output s1 s'" by (rule writerD(1) [OF cs])
      moreover from Inr have "only_output s s1" by (rule writerD(2) [OF c])
      ultimately show ?thesis by (blast intro: only_output_trans)
    qed
  next
    fix s s'
    assume r: "run (c # cs) s = Inr s'"
    show "only_output s s'"
    proof (cases "c s")
      case (Inl p)
      with r show ?thesis by simp
    next
      case (Inr s1)
      with r have "run cs s1 = Inr s'" by simp
      then have "only_output s1 s'" by (rule writerD(2) [OF cs])
      moreover from Inr have "only_output s s1" by (rule writerD(2) [OF c])
      ultimately show ?thesis by (blast intro: only_output_trans)
    qed
  qed
qed

lemma writer_write_unsigned_jlong: "writer (write_unsigned_jlong h v)"
proof (cases "little_endian h")
  case True
  have "writer (run [write_jint h (ucast (signed_drop_bit 32 v)), write_jint h (ucast v)])"
    by (rule writer_run) (auto intro: writer_write_jint)
  with True show ?thesis
    by (simp add: write_unsigned_jlong_def [abs_def] htonl_1 Let_def del: run.simps)
next
  case False
  then show ?thesis
    by (simp add: write_unsigned_jlong_def [abs_def] htonl_1 writer_write_or_fail)
qed

lemma writer_write_timestamp: "writer (write_timestamp h ts)"
  unfolding write_timestamp_def by (rule writer_run) (auto intro: writer_write_unsigned_jlong)

lemma writer_write_string: "writer (write_string h str message)"
proof (cases str)
  case None
  then show ?thesis
    by (intro writerI) (auto simp add: write_string_def report_error_def)
next
  case (Some cs)
  have w: "writer (run [write_jint h (of_nat (strlen cs)),
                            (\<lambda>s. if 0 <s (of_nat (strlen cs) :: jint)
                                 then write_or_fail (chars cs) (sint (of_nat (strlen cs) :: jint)) s
                                 else Inr s)])"
  proof (rule writer_run)
    fix c
    assume "c \<in> set [write_jint h (of_nat (strlen cs)),
                            (\<lambda>s. if 0 <s (of_nat (strlen cs) :: jint)
                                 then write_or_fail (chars cs) (sint (of_nat (strlen cs) :: jint)) s
                                 else Inr s)]"
    then show "writer c"
      using writer_write_jint [of h "of_nat (strlen cs)"]
        writer_write_or_fail [of "chars cs" "sint (of_nat (strlen cs) :: jint)"] writer_skip
      by (cases "0 <s (of_nat (strlen cs) :: jint)") (auto simp add: writer_def)
  qed
  show ?thesis
  proof (cases "strlen cs > INT_MAX")
    case True
    with Some show ?thesis
      by (intro writerI) (auto simp add: write_string_def report_error_def)
  next
    case False
    with Some w show ?thesis
      by (simp add: write_string_def [abs_def] Let_def del: run.simps)
  qed
qed

lemma writer_write_string_or_null: "writer (write_string_or_null h str)"
  by (cases str) (simp_all add: write_string_or_null_def [abs_def] writer_write_jint writer_write_string)

lemma writer_write_method: "writer (write_method h current)"
  unfolding write_method_def
  by (rule writer_run)
    (auto intro: writer_write_string writer_write_string_or_null writer_write_jint
      writer_write_unsigned_jlong writer_fail split: if_splits option.splits)

lemma writer_pc_cmds: "c \<in> set (pc_cmds h order info) \<Longrightarrow> writer c"
  by (auto simp add: pc_cmds_def frame_cmds_def intro: writer_write_jint writer_write_unsigned_jlong)

lemma writer_record_cmds:
  "writer (run (record_cmds h ts code_size code_addr methods_count methods inline_records))"
  unfolding record_cmds_def
  by (rule writer_run)
    (auto intro: writer_write_jint writer_write_timestamp writer_write_unsigned_jlong
      writer_write_or_fail writer_write_method writer_fflush writer_pc_cmds
      split: option.splits)

lemma cleanup_eq: "cleanup methods s = s\<lparr>freed := freed s @ concat (map owned methods)\<rparr>"
  unfolding cleanup_def
  by (induction methods arbitrary: s) (simp_all add: free_method_eq)

lemma body_fold:
  "(case run cs s of Inl e \<Rightarrow> Inl e
    | Inr s1 \<Rightarrow>
       (case (case run ds s1 of Inl e \<Rightarrow> Inl e | Inr s2 \<Rightarrow> Inr (a, b, s2)) of
          Inl e \<Rightarrow> Inl e
        | Inr (a', b', s2) \<Rightarrow> (case c s2 of Inl e \<Rightarrow> Inl e | Inr s3 \<Rightarrow> Inr (k a', s3))))
   = (case run (cs @ ds @ [c]) s of Inl e \<Rightarrow> Inl e | Inr s3 \<Rightarrow> Inr (k a, s3))"
  by (simp add: run_append split: sum.splits)

lemma set_fold_add_seen: "set (fold add_seen hs order) = set hs \<union> set order"
  by (induction hs arbitrary: order) (auto simp add: add_seen_def)

lemma write_method_load_event_hits:
  assumes n: "numbered methods methods_count"
    and sub: "set (frame_handles inline_records) \<subseteq> set (map methodID methods)"
  shows "write_method_load_event h ts code_size code_addr methods_count methods inline_records s
     = (case lock_output_file s of
          Inl e \<Rightarrow> Inl e
        | Inr s1 \<Rightarrow>
           (case (if output_file s1 \<noteq> None
                  then (case run (record_cmds h ts code_size code_addr methods_count methods
                                    inline_records) s1 of
                          Inl e \<Rightarrow> Inl e
                        | Inr s2 \<Rightarrow> Inr (methods, s2))
                  else Inr (methods, s1)) of
              Inl e \<Rightarrow> Inl e
            | Inr (methods', s2) \<Rightarrow>
                (case unlock_output_file s2 of
                   Inl e \<Rightarrow> Inl e
                 | Inr s3 \<Rightarrow> Inr (methods', s3))))"
proof -
  let ?debug = "case inline_records of
          Some r \<Rightarrow> write_jint h (of_nat (length (pcinfo r)))
                    # concat (map (pc_cmds h (map methodID methods)) (pcinfo r))
        | None \<Rightarrow> [write_jint h 0]"
  have d: "(case inline_records of
              Some r \<Rightarrow>
                (case write_jint h (of_nat (length (pcinfo r))) s of
                   Inl e \<Rightarrow> Inl e
                 | Inr s \<Rightarrow> write_pcinfo h (pcinfo r) methods methods_count s)
            | None \<Rightarrow>
                (case write_jint h 0 s of
                   Inl e \<Rightarrow> Inl e
                 | Inr s \<Rightarrow> Inr (methods, methods_count, s)))
     = (case run ?debug s of Inl e \<Rightarrow> Inl e | Inr s2 \<Rightarrow> Inr (methods, methods_count, s2))" for s
  proof (cases inline_records)
    case None
    then show ?thesis by (simp split: sum.splits)
  next
    case (Some r)
    with sub have "set (concat (map (\<lambda>info. map fst (stackframes info)) (pcinfo r)))
        \<subseteq> set (map methodID methods)"
      by (simp add: frame_handles_def)
    from write_pcinfo_hits [OF n this] Some show ?thesis
      by (simp split: sum.splits)
  qed
  have m: "(if methods = [] then [] else methods) = methods" by simp
  show ?thesis
    unfolding write_method_load_event_def d
    by (simp only: body_fold [where k = "\<lambda>methods'. if methods = [] then [] else methods'"] m
        record_cmds_def fflush_def [abs_def] append_assoc)
qed

lemma numbered_Nil: "numbered [] 0"
  by (simp add: numbered_def)

lemma accounted_Nil: "accounted s [] s"
  by (simp add: accounted_def)

lemma compiledMethodLoad_cases:
  "(\<exists>e s'. compiledMethodLoad h m code_size code_addr compile_info s = Inl (e, s') \<and> quiet s s')
   \<or> (\<exists>methods s1. compiledMethodLoad h m code_size code_addr compile_info s
          = Inr (cleanup methods s1) \<and> shut s s1 \<and> accounted s methods s1)
   \<or> (\<exists>methods methods_count s1.
          fst (clock_gettime h) = 0 \<and> quiet s s1 \<and> numbered methods methods_count
          \<and> accounted s methods s1
          \<and> map methodID methods
              = fold add_seen
                  (frame_handles (find (\<lambda>r. kind r = JVMTI_CMLR_INLINE_INFO) compile_info)) [m]
          \<and> compiledMethodLoad h m code_size code_addr compile_info s
              = (case write_method_load_event h (snd (clock_gettime h)) code_size code_addr
                        methods_count methods
                        (find (\<lambda>r. kind r = JVMTI_CMLR_INLINE_INFO) compile_info) s1 of
                   Inl e \<Rightarrow> Inl e
                 | Inr (methods', s2) \<Rightarrow> Inr (cleanup methods' s2)))"
  (is "?A \<or> ?B \<or> ?C")
proof (cases "fst (clock_gettime h) = 0")
  case False
  then have "get_timestamp h s
      = Inl (Abort ''Error while writing timestamp: clock_gettime %s'' [Strerror_errno], s)"
    by (cases "clock_gettime h") (simp add: get_timestamp_def report_error_def)
  then have "compiledMethodLoad h m code_size code_addr compile_info s
      = Inl (Abort ''Error while writing timestamp: clock_gettime %s'' [Strerror_errno], s)"
    by (simp add: compiledMethodLoad_def)
  then have ?A by simp
  then show ?thesis by blast
next
  case True
  then have ts: "get_timestamp h s = Inr (snd (clock_gettime h), s)"
    by (cases "clock_gettime h") (simp add: get_timestamp_def)
  note L = lookup_method_res [OF numbered_Nil accounted_Nil, where s = s and m = m and h = h]
  show ?thesis
  proof (cases "lookup_method h m [] 0 s")
    case (Inl p)
    with L ts have ?A
      by (cases p) (simp add: compiledMethodLoad_def lookup_res_def)
    then show ?thesis by blast
  next
    case (Inr p)
    obtain found methods methods_count s1 where p: "p = (found, methods, methods_count, s1)"
      by (cases p) auto
    show ?thesis
    proof (cases found)
      case None
      with L ts Inr p have ?B
        by (auto simp add: compiledMethodLoad_def lookup_res_def)
      then show ?thesis by blast
    next
      case (Some md)
      with L Inr p have q1: "quiet s s1" and n1: "numbered methods methods_count"
        and a1: "accounted s methods s1" and o1: "map methodID methods = [m]"
        by (simp_all add: lookup_res_def add_seen_def)
      note S = scan_compile_info_res [OF n1 a1, where h = h and chain = compile_info]
      show ?thesis
      proof (cases "scan_compile_info h compile_info methods methods_count s1")
        case (Inl p2)
        with S have "quiet s1 (snd p2)" by (cases p2) simp
        with q1 have "quiet s (snd p2)" by (blast intro: quiet_trans)
        with ts Inr p Some Inl have ?A
          by (cases p2) (simp add: compiledMethodLoad_def)
        then show ?thesis by blast
      next
        case Inr2: (Inr p2)
        obtain abandon inline_records methods2 methods_count2 s2
          where p2: "p2 = (abandon, inline_records, methods2, methods_count2, s2)"
          by (cases p2) auto
        from S Inr2 p2 have ir: "inline_records = find (\<lambda>r. kind r = JVMTI_CMLR_INLINE_INFO) compile_info"
          and lr: "loop_res s s1 (fold add_seen (frame_handles inline_records) (map methodID methods))
                  (Inr (abandon, methods2, methods_count2, s2))"
          by auto
        show ?thesis
        proof (cases abandon)
          case True
          with lr have "shut s1 s2" and "accounted s methods2 s2"
            by (simp_all add: loop_res_def)
          with q1 have "shut s s2" by (blast intro: quiet_shut)
          with ts Inr p Some Inr2 p2 True \<open>accounted s methods2 s2\<close> have ?B
            by (auto simp add: compiledMethodLoad_def)
          then show ?thesis by blast
        next
          case False
          with lr have "quiet s1 s2" and n2: "numbered methods2 methods_count2"
            and a2: "accounted s methods2 s2"
            and o2: "map methodID methods2 = fold add_seen (frame_handles inline_records) [m]"
            by (simp_all add: loop_res_def o1)
          with q1 have q2: "quiet s s2" by (blast intro: quiet_trans)
          have "compiledMethodLoad h m code_size code_addr compile_info s
              = (case write_method_load_event h (snd (clock_gettime h)) code_size code_addr
                        methods_count2 methods2 inline_records s2 of
                   Inl e \<Rightarrow> Inl e
                 | Inr (methods', s2) \<Rightarrow> Inr (cleanup methods' s2))"
            using ts Inr p Some Inr2 p2 False by (simp add: compiledMethodLoad_def)
          with True q2 n2 a2 o2 ir have ?C by blast
          then show ?thesis by blast
        qed
      qed
    qed
  qed
qed

lemma final_state_simps [simp]:
  "final_state (Inl (e, s')) = s'"
  "final_state (Inr s') = s'"
  by (simp_all add: final_state_def)

lemma cleanup_fields [simp]:
  "output_file (cleanup methods s) = output_file s"
  "file_lock (cleanup methods s) = file_lock s"
  "jvmti_log (cleanup methods s) = jvmti_log s"
  "next_alloc (cleanup methods s) = next_alloc s"
  "freed (cleanup methods s) = freed s @ concat (map owned methods)"
  by (simp_all add: cleanup_eq)

lemma cleanup_wrote: "cleanup methods (wrote bs s) = wrote bs (cleanup methods s)"
  by (simp add: cleanup_eq wrote_def)

lemma only_output_fields:
  "only_output s s' \<Longrightarrow>
     file_lock s' = file_lock s \<and> jvmti_log s' = jvmti_log s \<and> freed s' = freed s
     \<and> next_alloc s' = next_alloc s"
  unfolding only_output_def by (cases s, cases s') simp

lemma emitsD: "emits c bs \<Longrightarrow> c s = Inr s' \<Longrightarrow> s' = wrote bs s"
  by (simp add: emits_def)

lemma write_phase:
  assumes n: "numbered methods methods_count"
    and sub: "set (frame_handles inline_records) \<subseteq> set (map methodID methods)"
    and r_def: "r = (case write_method_load_event h ts code_size code_addr methods_count methods
                         inline_records s1 of
                    Inl e \<Rightarrow> Inl e
                  | Inr (methods', s2) \<Rightarrow> Inr (cleanup methods' s2))"
  shows "file_lock s1 \<Longrightarrow> r = Inl (Abort ''Error locking file: %s'' [Strerror EDEADLK], s1)"
    and "\<not> file_lock s1 \<Longrightarrow> output_file s1 = None \<Longrightarrow> r = Inr (cleanup methods s1)"
    and "\<not> file_lock s1 \<Longrightarrow> output_file s1 \<noteq> None \<Longrightarrow>
          (\<exists>e s2. r = Inl (e, s2) \<and> only_output (s1\<lparr>file_lock := True\<rparr>) s2)
          \<or> r = Inr (cleanup methods
                  (wrote (CMLT_record ts code_addr code_size (code_bytes h code_addr code_size)
                            methods inline_records) s1))"
proof -
  note W = write_method_load_event_hits [OF n sub, of h ts code_size code_addr s1]
  show "r = Inl (Abort ''Error locking file: %s'' [Strerror EDEADLK], s1)" if "file_lock s1"
    using that unfolding r_def W
    by (simp add: lock_output_file_def pthread_mutex_lock_def report_error_def EDEADLK_def)
  show "r = Inr (cleanup methods s1)" if "\<not> file_lock s1" "output_file s1 = None"
    using that unfolding r_def W
    by (simp add: lock_output_file_ok unlock_output_file_ok)
  show "(\<exists>e s2. r = Inl (e, s2) \<and> only_output (s1\<lparr>file_lock := True\<rparr>) s2)
          \<or> r = Inr (cleanup methods
                  (wrote (CMLT_record ts code_addr code_size (code_bytes h code_addr code_size)
                            methods inline_records) s1))"
    if l: "\<not> file_lock s1" and o: "output_file s1 \<noteq> None"
  proof -
    let ?s = "s1\<lparr>file_lock := True\<rparr>"
    let ?cmds = "record_cmds h ts code_size code_addr methods_count methods inline_records"
    from n have c: "methods_count = of_nat (length methods)" by (simp add: numbered_def)
    have r: "r = (case run ?cmds ?s of
                    Inl e \<Rightarrow> Inl e
                  | Inr s2 \<Rightarrow>
                     (case unlock_output_file s2 of
                        Inl e \<Rightarrow> Inl e
                      | Inr s3 \<Rightarrow> Inr (cleanup methods s3)))"
      using l o unfolding r_def W
      by (simp add: lock_output_file_ok split: sum.splits)
    show ?thesis
    proof (cases "run ?cmds ?s")
      case (Inl p)
      obtain e s2 where p: "p = (e, s2)" by (cases p) auto
      from writerD(1) [OF writer_record_cmds, of h ts code_size code_addr methods_count methods
          inline_records ?s e s2] Inl p
      have "only_output ?s s2" by simp
      with r Inl p show ?thesis by simp
    next
      case (Inr s2)
      with c have "run (record_cmds h ts code_size code_addr (of_nat (length methods)) methods
                         inline_records) ?s = Inr s2"
        by simp
      from emitsD [OF emits_record_cmds this]
      have s2: "s2 = wrote (CMLT_record ts code_addr code_size (code_bytes h code_addr code_size)
                            methods inline_records) ?s" .
      then have "unlock_output_file s2
          = Inr (wrote (CMLT_record ts code_addr code_size (code_bytes h code_addr code_size)
                            methods inline_records) s1)"
        using l by (simp add: unlock_output_file_ok unlocked_id)
      with r Inr show ?thesis by simp
    qed
  qed
qed

lemma compiledMethodLoad_outcomes:
  "(\<exists>e s'. compiledMethodLoad h m code_size code_addr compile_info s = Inl (e, s') \<and> quiet s s')
   \<or> (\<exists>methods s1. compiledMethodLoad h m code_size code_addr compile_info s
          = Inr (cleanup methods s1) \<and> shut s s1 \<and> accounted s methods s1)
   \<or> (\<exists>methods s1. \<not> file_lock s \<and> output_file s = None \<and> quiet s s1
          \<and> accounted s methods s1
          \<and> compiledMethodLoad h m code_size code_addr compile_info s = Inr (cleanup methods s1))
   \<or> (\<exists>e s1 s2. \<not> file_lock s \<and> output_file s \<noteq> None \<and> quiet s s1
          \<and> only_output (s1\<lparr>file_lock := True\<rparr>) s2
          \<and> compiledMethodLoad h m code_size code_addr compile_info s = Inl (e, s2))
   \<or> (\<exists>methods methods_count s1.
          \<not> file_lock s \<and> output_file s \<noteq> None \<and> fst (clock_gettime h) = 0 \<and> quiet s s1
          \<and> numbered methods methods_count \<and> accounted s methods s1
          \<and> map methodID methods
              = fold add_seen
                  (frame_handles (find (\<lambda>r. kind r = JVMTI_CMLR_INLINE_INFO) compile_info)) [m]
          \<and> compiledMethodLoad h m code_size code_addr compile_info s
              = Inr (cleanup methods
                  (wrote (CMLT_record (snd (clock_gettime h)) code_addr code_size
                            (code_bytes h code_addr code_size) methods
                            (find (\<lambda>r. kind r = JVMTI_CMLR_INLINE_INFO) compile_info)) s1)))"
  (is "?A \<or> ?B \<or> ?N \<or> ?F \<or> ?W")
  using compiledMethodLoad_cases [of h m code_size code_addr compile_info s]
proof (elim disjE exE conjE)
  fix e s'
  assume "compiledMethodLoad h m code_size code_addr compile_info s = Inl (e, s')" "quiet s s'"
  then have ?A by blast
  then show ?thesis by blast
next
  fix methods s1
  assume "compiledMethodLoad h m code_size code_addr compile_info s = Inr (cleanup methods s1)"
    "shut s s1" "accounted s methods s1"
  then have ?B by blast
  then show ?thesis by blast
next
  fix methods methods_count s1
  let ?ir = "find (\<lambda>r. kind r = JVMTI_CMLR_INLINE_INFO) compile_info"
  assume c: "fst (clock_gettime h) = 0" and q: "quiet s s1" and n: "numbered methods methods_count"
    and a: "accounted s methods s1"
    and o: "map methodID methods = fold add_seen (frame_handles ?ir) [m]"
    and r: "compiledMethodLoad h m code_size code_addr compile_info s
              = (case write_method_load_event h (snd (clock_gettime h)) code_size code_addr
                        methods_count methods ?ir s1 of
                   Inl e \<Rightarrow> Inl e
                 | Inr (methods', s2) \<Rightarrow> Inr (cleanup methods' s2))"
  have sub: "set (frame_handles ?ir) \<subseteq> set (map methodID methods)"
    unfolding o by (auto simp add: set_fold_add_seen)
  from q have l: "file_lock s1 = file_lock s" and f: "output_file s1 = output_file s"
    by (simp_all add: quiet_def)
  note W = write_phase [OF n sub r]
  show ?thesis
  proof (cases "file_lock s")
    case True
    with W(1) l q have ?A by auto
    then show ?thesis by blast
  next
    case False
    show ?thesis
    proof (cases "output_file s = None")
      case True
      with W(2) l f False q a have ?N by auto
      then show ?thesis by blast
    next
      case opened: False
      from W(3) l f False opened
      have "(\<exists>e s2. compiledMethodLoad h m code_size code_addr compile_info s = Inl (e, s2)
                \<and> only_output (s1\<lparr>file_lock := True\<rparr>) s2)
          \<or> compiledMethodLoad h m code_size code_addr compile_info s
              = Inr (cleanup methods
                  (wrote (CMLT_record (snd (clock_gettime h)) code_addr code_size
                            (code_bytes h code_addr code_size) methods ?ir) s1))"
        by simp
      then show ?thesis
      proof
        assume "\<exists>e s2. compiledMethodLoad h m code_size code_addr compile_info s = Inl (e, s2)
                \<and> only_output (s1\<lparr>file_lock := True\<rparr>) s2"
        with False opened q have ?F by blast
        then show ?thesis by blast
      next
        assume "compiledMethodLoad h m code_size code_addr compile_info s
              = Inr (cleanup methods
                  (wrote (CMLT_record (snd (clock_gettime h)) code_addr code_size
                            (code_bytes h code_addr code_size) methods ?ir) s1))"
        with False opened c q n a o have ?W by blast
        then show ?thesis by blast
      qed
    qed
  qed
qed

lemma quiet_queries:
  "quiet s s' \<Longrightarrow> q \<in> set (new_queries s s') \<Longrightarrow>
   snd (snd q) = file_lock s \<and> fst (snd q) \<noteq> JVMTI_ERROR_WRONG_PHASE"
  by (auto simp add: quiet_def new_queries_def)

lemma shut_queries:
  "shut s s' \<Longrightarrow> q \<in> set (new_queries s s') \<Longrightarrow> snd (snd q) = file_lock s"
  by (auto simp add: shut_def new_queries_def)

lemma new_queries_log: "jvmti_log s2 = jvmti_log s1 \<Longrightarrow> new_queries s s2 = new_queries s s1"
  by (simp add: new_queries_def)

lemma new_queries_simps [simp]:
  "new_queries s (cleanup methods s1) = new_queries s s1"
  "new_queries s (wrote bs s1) = new_queries s s1"
  by (simp_all add: new_queries_def)

text \<open>
  Claim C3. In a compiled-method-load callback entered without the file lock, no
  metadata query is issued while \<open>file_lock\<close> is held: every query the callback adds to
  the log, whether it returns or ends the process, was issued with the lock free. A
  \<open>lookup_method\<close> for a handle that is already in the list returns its record and
  leaves the state, and so the log, as it was.
\<close>

theorem no_query_under_file_lock:
  assumes "\<not> file_lock s"
  shows "(\<forall>q\<in>set (new_queries s
                 (final_state (compiledMethodLoad h m code_size code_addr compile_info s))).
            \<not> snd (snd q))
       \<and> (\<forall>methods methods_count m' c s1.
            find (\<lambda>c. methodID c = m') methods = Some c \<longrightarrow>
            lookup_method h m' methods methods_count s1 = Inr (Some c, methods, methods_count, s1))"
proof (intro conjI ballI allI impI)
  fix q
  assume q: "q \<in> set (new_queries s
                 (final_state (compiledMethodLoad h m code_size code_addr compile_info s)))"
  from compiledMethodLoad_outcomes [of h m code_size code_addr compile_info s]
  show "\<not> snd (snd q)"
  proof (elim disjE exE conjE)
    fix e s'
    assume "compiledMethodLoad h m code_size code_addr compile_info s = Inl (e, s')" "quiet s s'"
    with q assms quiet_queries [of s s' q] show ?thesis by simp
  next
    fix methods s1
    assume "compiledMethodLoad h m code_size code_addr compile_info s = Inr (cleanup methods s1)"
      "shut s s1"
    with q assms shut_queries [of s s1 q] show ?thesis by simp
  next
    fix methods s1
    assume "compiledMethodLoad h m code_size code_addr compile_info s = Inr (cleanup methods s1)"
      "quiet s s1"
    with q assms quiet_queries [of s s1 q] show ?thesis by simp
  next
    fix e s1 s2
    assume "compiledMethodLoad h m code_size code_addr compile_info s = Inl (e, s2)"
      "quiet s s1" "only_output (s1\<lparr>file_lock := True\<rparr>) s2"
    with q assms quiet_queries [of s s1 q] only_output_fields [of "s1\<lparr>file_lock := True\<rparr>" s2]
      new_queries_log [of s2 s1 s]
    show ?thesis by simp
  next
    fix methods methods_count s1
    assume "compiledMethodLoad h m code_size code_addr compile_info s
              = Inr (cleanup methods
                  (wrote (CMLT_record (snd (clock_gettime h)) code_addr code_size
                            (code_bytes h code_addr code_size) methods
                            (find (\<lambda>r. kind r = JVMTI_CMLR_INLINE_INFO) compile_info)) s1))"
      "quiet s s1"
    with q assms quiet_queries [of s s1 q] show ?thesis by simp
  qed
next
  fix methods :: "MethodData list" and methods_count m' c s1
  assume "find (\<lambda>c. methodID c = m') methods = Some c"
  then show "lookup_method h m' methods methods_count s1 = Inr (Some c, methods, methods_count, s1)"
    by (simp add: lookup_method_def)
qed

text \<open>
  Claim C2. If any metadata query of a compiled-method-load callback answers
  \<open>JVMTI_ERROR_WRONG_PHASE\<close>, the callback returns (no \<open>report_error\<close>), the output
  file and the lock are as they were, and the addresses freed during the callback are
  exactly the addresses allocated during it, each once.
\<close>

theorem shutdown_abandons_event:
  assumes "\<exists>q\<in>set (new_queries s
                  (final_state (compiledMethodLoad h m code_size code_addr compile_info s))).
             fst (snd q) = JVMTI_ERROR_WRONG_PHASE"
  shows "\<exists>s' fs. compiledMethodLoad h m code_size code_addr compile_info s = Inr s'
           \<and> output_file s' = output_file s \<and> file_lock s' = file_lock s
           \<and> freed s' = freed s @ fs \<and> mset fs = mset [next_alloc s..<next_alloc s']"
proof -
  from assms obtain q
    where q: "q \<in> set (new_queries s
                  (final_state (compiledMethodLoad h m code_size code_addr compile_info s)))"
      and w: "fst (snd q) = JVMTI_ERROR_WRONG_PHASE"
    by blast
  from compiledMethodLoad_outcomes [of h m code_size code_addr compile_info s]
  show ?thesis
  proof (elim disjE exE conjE)
    fix e s'
    assume "compiledMethodLoad h m code_size code_addr compile_info s = Inl (e, s')" "quiet s s'"
    with q w quiet_queries [of s s' q] show ?thesis by simp
  next
    fix methods s1
    assume r: "compiledMethodLoad h m code_size code_addr compile_info s = Inr (cleanup methods s1)"
      and sh: "shut s s1" and a: "accounted s methods s1"
    from a obtain fs where fs: "freed s1 = freed s @ fs"
      "mset fs + mset (concat (map owned methods)) = mset [next_alloc s..<next_alloc s1]"
      by (auto simp add: accounted_def)
    from sh have "output_file s1 = output_file s" "file_lock s1 = file_lock s"
      by (simp_all add: shut_def)
    with r fs have "compiledMethodLoad h m code_size code_addr compile_info s = Inr (cleanup methods s1)
           \<and> output_file (cleanup methods s1) = output_file s
           \<and> file_lock (cleanup methods s1) = file_lock s
           \<and> freed (cleanup methods s1) = freed s @ (fs @ concat (map owned methods))
           \<and> mset (fs @ concat (map owned methods))
               = mset [next_alloc s..<next_alloc (cleanup methods s1)]"
      by simp
    then show ?thesis by blast
  next
    fix methods s1
    assume "compiledMethodLoad h m code_size code_addr compile_info s = Inr (cleanup methods s1)"
      "quiet s s1"
    with q w quiet_queries [of s s1 q] show ?thesis by simp
  next
    fix e s1 s2
    assume "compiledMethodLoad h m code_size code_addr compile_info s = Inl (e, s2)"
      "quiet s s1" "only_output (s1\<lparr>file_lock := True\<rparr>) s2"
    with q w quiet_queries [of s s1 q] only_output_fields [of "s1\<lparr>file_lock := True\<rparr>" s2]
      new_queries_log [of s2 s1 s]
    show ?thesis by simp
  next
    fix methods methods_count s1
    assume "compiledMethodLoad h m code_size code_addr compile_info s
              = Inr (cleanup methods
                  (wrote (CMLT_record (snd (clock_gettime h)) code_addr code_size
                            (code_bytes h code_addr code_size) methods
                            (find (\<lambda>r. kind r = JVMTI_CMLR_INLINE_INFO) compile_info)) s1))"
      "quiet s s1"
    with q w quiet_queries [of s s1 q] show ?thesis by simp
  qed
qed

text \<open>
  Claim C4. With \<open>output_file\<close> null and the lock free, the locked section of each of
  the three callbacks writes nothing, raises no error and releases the lock:
  \<open>write_method_load_event\<close>, \<open>compiledMethodUnload\<close> and \<open>dynamicCodeGenerated\<close> return
  the state they were given (the latter two once the clock was read), and however
  \<open>compiledMethodLoad\<close> ends, \<open>output_file\<close> is still null and the lock is free.
\<close>

theorem handlers_with_null_sink:
  assumes "output_file s = None" and "\<not> file_lock s"
  shows "write_method_load_event h ts code_size code_addr methods_count methods inline_records s
           = Inr (methods, s)
       \<and> (fst (clock_gettime h) = 0 \<longrightarrow>
            compiledMethodUnload h m code_addr s = Inr s
            \<and> dynamicCodeGenerated h name code_addr code_size s = Inr s)
       \<and> output_file (final_state (compiledMethodLoad h m code_size code_addr compile_info s)) = None
       \<and> \<not> file_lock (final_state (compiledMethodLoad h m code_size code_addr compile_info s))"
proof (intro conjI impI)
  have l: "lock_output_file s = Inr (s\<lparr>file_lock := True\<rparr>)"
    using assms(2) by (rule lock_output_file_ok)
  have u: "unlock_output_file (s\<lparr>file_lock := True\<rparr>) = Inr s"
    using assms(2) by (simp add: unlock_output_file_ok unlocked_id)
  show "write_method_load_event h ts code_size code_addr methods_count methods inline_records s
           = Inr (methods, s)"
    using assms(1) by (simp add: write_method_load_event_def l u)
  show "compiledMethodUnload h m code_addr s = Inr s" if "fst (clock_gettime h) = 0"
  proof -
    from that have "get_timestamp h s = Inr (snd (clock_gettime h), s)"
      by (cases "clock_gettime h") (simp add: get_timestamp_def)
    then show ?thesis
      unfolding compiledMethodUnload_def run3 using assms(1) by (simp add: l u del: run.simps)
  qed
  show "dynamicCodeGenerated h name code_addr code_size s = Inr s" if "fst (clock_gettime h) = 0"
  proof -
    from that have "get_timestamp h s = Inr (snd (clock_gettime h), s)"
      by (cases "clock_gettime h") (simp add: get_timestamp_def)
    then show ?thesis
      unfolding dynamicCodeGenerated_def run3 using assms(1) by (simp add: l u del: run.simps)
  qed
  from compiledMethodLoad_outcomes [of h m code_size code_addr compile_info s] assms
  have "output_file (final_state (compiledMethodLoad h m code_size code_addr compile_info s)) = None
       \<and> \<not> file_lock (final_state (compiledMethodLoad h m code_size code_addr compile_info s))"
    by (elim disjE exE conjE) (simp_all add: quiet_def shut_def)
  then show "output_file (final_state (compiledMethodLoad h m code_size code_addr compile_info s)) = None"
    and "\<not> file_lock (final_state (compiledMethodLoad h m code_size code_addr compile_info s))"
    by simp_all
qed

lemma index_of_less: "x \<in> set xs \<Longrightarrow> index_of x xs < length xs"
  unfolding index_of_def by (induction xs) auto

text \<open>
  Claim C1. When a compiled-method-load callback returns on an open stream and no query
  answered \<open>JVMTI_ERROR_WRONG_PHASE\<close>, the bytes it appended are one \<open>CMLT\<close> record over
  a list of methods in which the handles stand in first-seen order (the compiled method,
  then the frames of the first inline record), the record at position \<open>i\<close> has id \<open>i\<close>,
  the count written after \<open>MTHT\<close> is the length of the list, and the id written for
  every frame in the \<open>DEBI\<close> section is the position of the frame's method in that
  list, below its length.
\<close>

theorem method_ids_consistent:
  assumes "compiledMethodLoad h m code_size code_addr compile_info s = Inr s'"
    and "output_file s = Some f"
    and "\<forall>q\<in>set (new_queries s s'). fst (snd q) \<noteq> JVMTI_ERROR_WRONG_PHASE"
  shows "\<exists>methods.
           map methodID methods
             = fold add_seen
                 (frame_handles (find (\<lambda>r. kind r = JVMTI_CMLR_INLINE_INFO) compile_info)) [m]
         \<and> map id_field methods = map of_nat [0..<length methods]
         \<and> (\<forall>mh\<in>set (frame_handles (find (\<lambda>r. kind r = JVMTI_CMLR_INLINE_INFO) compile_info)).
               index_of mh (map methodID methods) < length methods)
         \<and> (\<exists>f'. output_file s' = Some f'
               \<and> contents f'
                   = contents f
                     @ CMLT_record (snd (clock_gettime h)) code_addr code_size
                         (code_bytes h code_addr code_size) methods
                         (find (\<lambda>r. kind r = JVMTI_CMLR_INLINE_INFO) compile_info))"
  using compiledMethodLoad_outcomes [of h m code_size code_addr compile_info s]
proof (elim disjE exE conjE)
  fix e s1
  assume "compiledMethodLoad h m code_size code_addr compile_info s = Inl (e, s1)"
  with assms(1) show ?thesis by simp
next
  fix methods s1
  assume "compiledMethodLoad h m code_size code_addr compile_info s = Inr (cleanup methods s1)"
    and "shut s s1"
  with assms(1) have "shut s s'" by (auto simp add: shut_def)
  then obtain q where "q \<in> set (new_queries s s')" "fst (snd q) = JVMTI_ERROR_WRONG_PHASE"
    by (auto simp add: shut_def new_queries_def)
  with assms(3) show ?thesis by blast
next
  assume "output_file s = None"
  with assms(2) show ?thesis by simp
next
  fix e s2
  assume "compiledMethodLoad h m code_size code_addr compile_info s = Inl (e, s2)"
  with assms(1) show ?thesis by simp
next
  fix methods methods_count s1
  let ?ir = "find (\<lambda>r. kind r = JVMTI_CMLR_INLINE_INFO) compile_info"
  assume q: "quiet s s1" and n: "numbered methods methods_count"
    and o: "map methodID methods = fold add_seen (frame_handles ?ir) [m]"
    and r: "compiledMethodLoad h m code_size code_addr compile_info s
              = Inr (cleanup methods
                  (wrote (CMLT_record (snd (clock_gettime h)) code_addr code_size
                            (code_bytes h code_addr code_size) methods ?ir) s1))"
  from q assms(2) have f: "output_file s1 = Some f" by (simp add: quiet_def)
  from r assms(1) have s': "s' = cleanup methods
                  (wrote (CMLT_record (snd (clock_gettime h)) code_addr code_size
                            (code_bytes h code_addr code_size) methods ?ir) s1)"
    by simp
  have 1: "map id_field methods = map of_nat [0..<length methods]"
    using n by (simp add: numbered_def)
  have 2: "\<forall>mh\<in>set (frame_handles ?ir). index_of mh (map methodID methods) < length methods"
  proof
    fix mh
    assume "mh \<in> set (frame_handles ?ir)"
    then have "mh \<in> set (map methodID methods)"
      unfolding o by (simp add: set_fold_add_seen)
    from index_of_less [OF this] show "index_of mh (map methodID methods) < length methods"
      by simp
  qed
  have 3: "\<exists>f'. output_file s' = Some f'
               \<and> contents f'
                   = contents f
                     @ CMLT_record (snd (clock_gettime h)) code_addr code_size
                         (code_bytes h code_addr code_size) methods ?ir"
    unfolding s' using f by (simp add: wrote_Some)
  from o 1 2 3 show ?thesis by blast
qed

lemma example_lookup_miss:
  assumes "find (\<lambda>c. methodID c = m) methods = None"
  shows "lookup_method example_host m methods methods_count s
     = Inr (Some (example_method (next_alloc s) (if methods = [] then 0 else id_field (last methods) + 1) m),
            methods @ [example_method (next_alloc s) (if methods = [] then 0 else id_field (last methods) + 1) m],
            methods_count + 1,
            s\<lparr>next_alloc := next_alloc s + 5,
              jvmti_log := jvmti_log s @
                [(Q_GetMethodName m, JVMTI_ERROR_NONE, file_lock s),
                 (Q_GetMethodDeclaringClass m, JVMTI_ERROR_NONE, file_lock s),
                 (Q_GetClassSignature 7, JVMTI_ERROR_NONE, file_lock s),
                 (Q_GetSourceFileName 7, JVMTI_ERROR_ABSENT_INFORMATION, file_lock s),
                 (Q_GetLineNumberTable m, JVMTI_ERROR_NONE, file_lock s)]\<rparr>)"
  using assms
  by (simp add: lookup_method_def calloc_def query_method_name_def query_declaring_class_def
      query_class_signature_def query_source_file_def query_line_number_table_def
      GetMethodName_def GetMethodDeclaringClass_def GetClassSignature_def GetSourceFileName_def
      GetLineNumberTable_def allocated_def logged_def check_method_error_def example_host_def
      example_method_def Let_def)

lemma example_lookup_hit:
  "find (\<lambda>c. methodID c = m) methods = Some c \<Longrightarrow>
   lookup_method h m methods methods_count s = Inr (Some c, methods, methods_count, s)"
  by (simp add: lookup_method_def)

lemma example_method_simps [simp]:
  "methodID (example_method a i m) = m"
  "id_field (example_method a i m) = i"
  "owned (example_method a i m) = [a + 1, a + 2, a + 3, a + 4, a]"
  by (simp_all add: example_method_def owned_def addr_def)

lemma example_resolve:
  "lookup_method example_host 1 [] 0 example_agent
     = Inr (Some (example_method 0 0 1), [example_method 0 0 1], 1,
            example_agent\<lparr>next_alloc := 5, jvmti_log := example_queries 1\<rparr>)"
  by (simp add: example_lookup_miss example_agent_def example_queries_def)

lemma example_scan:
  "scan_compile_info example_host [example_dummy, example_inline, example_inline2]
      [example_method 0 0 1] 1 (example_agent\<lparr>next_alloc := 5, jvmti_log := example_queries 1\<rparr>)
     = Inr (False, Some example_inline, [example_method 0 0 1, example_method 5 1 2], 2,
            example_agent\<lparr>next_alloc := 10, jvmti_log := example_queries 1 @ example_queries 2\<rparr>)"
  by (simp add: example_dummy_def example_inline_def example_lookup_miss example_lookup_hit
      example_agent_def example_queries_def)

lemma example_open [simp]:
  "is_open (example_agent\<lparr>next_alloc := n, jvmti_log := l\<rparr>)"
  "space (example_agent\<lparr>next_alloc := n, jvmti_log := l\<rparr>) = 1000"
  "\<not> file_lock (example_agent\<lparr>next_alloc := n, jvmti_log := l\<rparr>)"
  by (simp_all add: is_open_def space_def example_agent_def)

lemma example_output: "output_file example_agent = Some \<lparr>contents = [], room = 1000\<rparr>"
  by (simp add: example_agent_def)

lemma example_write:
  "write_method_load_event example_host \<lparr>tv_sec = 1, tv_nsec = 2\<rparr> 4 0x1000 2
      [example_method 0 0 1, example_method 5 1 2] (Some example_inline)
      (example_agent\<lparr>next_alloc := 10, jvmti_log := example_queries 1 @ example_queries 2\<rparr>)
     = Inr ([example_method 0 0 1, example_method 5 1 2],
            wrote example_record
              (example_agent\<lparr>next_alloc := 10, jvmti_log := example_queries 1 @ example_queries 2\<rparr>))"
proof -
  let ?s = "example_agent\<lparr>next_alloc := 10, jvmti_log := example_queries 1 @ example_queries 2\<rparr>"
  have m: "write_method example_host (example_method a i m) s
      = Inr (wrote [0, 0, 0, 6, 76, 77, 97, 105, 110, 59,  0, 0, 0, 3, 114, 117, 110,  0, 0, 0, 3, 40, 41, 86,
      255, 255, 255, 255,  0, 0, 0, 1,  0, 0, 0, 0, 0, 0, 0, 0,  0, 0, 0, 10] s)"
    if "is_open s" "44 \<le> space s" for a i m s
    using that
    by (simp add: write_method_def example_method_def deref_def write_string_ok write_jint_ok
        write_unsigned_jlong_ok write_string_or_null_def INT_MAX_def be32_m1 word_sless_alt)
      (simp add: be32_def be64_def chars_def)
  show ?thesis
    by (simp add: write_method_load_event_def lock_output_file_ok unlock_output_file_ok
        example_inline_def write_jint_ok write_timestamp_ok write_unsigned_jlong_ok write_or_fail_ok
        example_host_simps m example_lookup_hit fflush_def tag_bytes [symmetric]
        code_bytes_def upt_rec example_output unlocked_id)
      (rule arg_cong2 [where f = wrote], simp_all add: example_record_def be32_def be64_def unlocked_id
        CompiledMethodLoadTag_def MethodsTag_def DebugInfoTag_def BUILD_TAG_def TAG_VALUE_def)
qed

lemma example_load:
  "compiledMethodLoad example_host 1 4 0x1000 [example_dummy, example_inline, example_inline2]
     example_agent = Inr example_final"
proof -
  have t: "get_timestamp example_host example_agent = Inr (\<lparr>tv_sec = 1, tv_nsec = 2\<rparr>, example_agent)"
    by (rule get_timestamp_ok) (rule example_host_simps)
  have l: "length example_record = 188"
    by (simp add: example_record_def)
  show ?thesis
    unfolding compiledMethodLoad_def t
    by (simp add: example_resolve example_scan example_write cleanup_eq del: scan_compile_info.simps)
      (simp add: wrote_def example_agent_def example_final_def l)
qed

text \<open>
  A concrete event: method 1 compiled with an inline record whose frames name
  methods 2, 1 and 2. The list holds the methods 1 and 2 in this order.
\<close>

theorem method_ids_consistent_witness:
  "compiledMethodLoad example_host 1 4 0x1000 [example_dummy, example_inline, example_inline2]
     example_agent = Inr example_final
   \<and> (\<exists>methods. map methodID methods = [1, 2]
         \<and> map id_field methods = map of_nat [0..<length methods]
         \<and> index_of 1 (map methodID methods) < length methods
         \<and> index_of 2 (map methodID methods) < length methods
         \<and> contents (the (output_file example_final))
             = CMLT_record \<lparr>tv_sec = 1, tv_nsec = 2\<rparr> 0x1000 4 (code_bytes example_host 0x1000 4)
                 methods (Some example_inline))"
proof -
  have w: "\<forall>q\<in>set (new_queries example_agent example_final). fst (snd q) \<noteq> JVMTI_ERROR_WRONG_PHASE"
    by (simp add: new_queries_def example_final_def example_agent_def example_queries_def)
  have i: "find (\<lambda>r. kind r = JVMTI_CMLR_INLINE_INFO) [example_dummy, example_inline, example_inline2]
      = Some example_inline"
    by (simp add: example_dummy_def example_inline_def)
  have f: "fold add_seen (frame_handles (Some example_inline)) [1] = [1, 2]"
    by (simp add: frame_handles_def example_inline_def add_seen_def)
  have h: "set (frame_handles (Some example_inline)) = {1, 2}"
    by (auto simp add: frame_handles_def example_inline_def)
  have c: "snd (clock_gettime example_host) = \<lparr>tv_sec = 1, tv_nsec = 2\<rparr>"
    by (simp add: example_host_simps)
  from method_ids_consistent [OF example_load example_output w, unfolded i f h c]
  obtain methods f' where 1: "map methodID methods = [1, 2]"
    and 2: "map id_field methods = map of_nat [0..<length methods]"
    and 3: "\<forall>mh\<in>{1, 2}. index_of mh (map methodID methods) < length methods"
    and 4: "output_file example_final = Some f'"
    and 5: "contents f' = contents \<lparr>contents = [], room = 1000\<rparr>
                 @ CMLT_record \<lparr>tv_sec = 1, tv_nsec = 2\<rparr> 0x1000 4 (code_bytes example_host 0x1000 4)
                 methods (Some example_inline)"
    by (elim exE conjE) (rule that, assumption+)
  from 3 have "index_of 1 (map methodID methods) < length methods"
    and "index_of 2 (map methodID methods) < length methods"
    by blast+
  with 1 2 4 5 have "map methodID methods = [1, 2]
         \<and> map id_field methods = map of_nat [0..<length methods]
         \<and> index_of 1 (map methodID methods) < length methods
         \<and> index_of 2 (map methodID methods) < length methods
         \<and> contents (the (output_file example_final))
             = CMLT_record \<lparr>tv_sec = 1, tv_nsec = 2\<rparr> 0x1000 4 (code_bytes example_host 0x1000 4)
                 methods (Some example_inline)"
    by simp
  then have "\<exists>methods. map methodID methods = [1, 2]
         \<and> map id_field methods = map of_nat [0..<length methods]
         \<and> index_of 1 (map methodID methods) < length methods
         \<and> index_of 2 (map methodID methods) < length methods
         \<and> contents (the (output_file example_final))
             = CMLT_record \<lparr>tv_sec = 1, tv_nsec = 2\<rparr> 0x1000 4 (code_bytes example_host 0x1000 4)
                 methods (Some example_inline)"
    by (rule exI)
  with example_load show ?thesis by (rule conjI)
qed

lemma shutdown_load:
  "compiledMethodLoad shutdown_host 1 4 0x1000 [example_dummy, example_inline, example_inline2]
     example_agent = Inr shutdown_final"
proof -
  have t: "get_timestamp shutdown_host example_agent = Inr (\<lparr>tv_sec = 1, tv_nsec = 2\<rparr>, example_agent)"
    by (rule get_timestamp_ok) (simp add: shutdown_host_def example_host_simps)
  have 1: "lookup_method shutdown_host 1 [] 0 example_agent
     = Inr (Some (example_method 0 0 1), [example_method 0 0 1], 1,
            example_agent\<lparr>next_alloc := 5, jvmti_log := example_queries 1\<rparr>)"
    by (simp add: lookup_method_def calloc_def query_method_name_def query_declaring_class_def
      query_class_signature_def query_source_file_def query_line_number_table_def
      GetMethodName_def GetMethodDeclaringClass_def GetClassSignature_def GetSourceFileName_def
      GetLineNumberTable_def allocated_def logged_def check_method_error_def example_host_def
      shutdown_host_def example_method_def example_agent_def example_queries_def Let_def)
  have 2: "lookup_method shutdown_host 2 [example_method 0 0 1] 1
            (example_agent\<lparr>next_alloc := 5, jvmti_log := example_queries 1\<rparr>)
     = Inr (None, [example_method 0 0 1], 1,
            example_agent\<lparr>next_alloc := 8, freed := [6, 7, 5],
                   jvmti_log := example_queries 1 @
                     [(Q_GetMethodName 2, JVMTI_ERROR_NONE, False),
                      (Q_GetMethodDeclaringClass 2, JVMTI_ERROR_NONE, False),
                      (Q_GetClassSignature 7, JVMTI_ERROR_WRONG_PHASE, False)]\<rparr>)"
    by (simp add: lookup_method_def calloc_def query_method_name_def query_declaring_class_def
      query_class_signature_def query_source_file_def query_line_number_table_def
      GetMethodName_def GetMethodDeclaringClass_def GetClassSignature_def GetSourceFileName_def
      GetLineNumberTable_def allocated_def logged_def check_method_error_def example_host_def
      shutdown_host_def example_agent_def example_queries_def Let_def free_method_eq
      owned_def addr_def)
  show ?thesis
    unfolding compiledMethodLoad_def t
    by (simp add: 1 2 example_dummy_def example_inline_def cleanup_eq)
      (simp add: example_agent_def shutdown_final_def)
qed

text \<open>
  A concrete event: the runtime starts to shut down while the second method
  is resolved. The callback returns, nothing is written, and the eight addresses
  allocated are the eight addresses freed.
\<close>

theorem shutdown_abandons_event_witness:
  "compiledMethodLoad shutdown_host 1 4 0x1000 [example_dummy, example_inline, example_inline2]
     example_agent = Inr shutdown_final
   \<and> output_file shutdown_final = output_file example_agent
   \<and> file_lock shutdown_final = file_lock example_agent
   \<and> freed shutdown_final = [6, 7, 5, 1, 2, 3, 4, 0]
   \<and> mset (freed shutdown_final) = mset [next_alloc example_agent..<next_alloc shutdown_final]"
proof -
  have "\<exists>q\<in>set (new_queries example_agent
                  (final_state (compiledMethodLoad shutdown_host 1 4 0x1000
                     [example_dummy, example_inline, example_inline2] example_agent))).
             fst (snd q) = JVMTI_ERROR_WRONG_PHASE"
    unfolding shutdown_load
    by (simp add: new_queries_def shutdown_final_def example_agent_def)
  from shutdown_abandons_event [OF this, unfolded shutdown_load]
  obtain fs where "output_file shutdown_final = output_file example_agent"
    and "file_lock shutdown_final = file_lock example_agent"
    and "freed shutdown_final = freed example_agent @ fs"
    and "mset fs = mset [next_alloc example_agent..<next_alloc shutdown_final]"
    by auto
  moreover have "freed example_agent = []" "freed shutdown_final = [6, 7, 5, 1, 2, 3, 4, 0]"
    by (simp_all add: example_agent_def shutdown_final_def)
  ultimately show ?thesis
    using shutdown_load by simp
qed

text \<open>
  A concrete event: ten queries are issued, none with the lock held, and a
  lookup of a resolved method changes nothing.
\<close>

theorem no_query_under_file_lock_witness:
  "\<not> file_lock example_agent
   \<and> length (new_queries example_agent
        (final_state (compiledMethodLoad example_host 1 4 0x1000
           [example_dummy, example_inline, example_inline2] example_agent))) = 10
   \<and> \<not> (\<exists>q\<in>set (new_queries example_agent
        (final_state (compiledMethodLoad example_host 1 4 0x1000
           [example_dummy, example_inline, example_inline2] example_agent))). snd (snd q))
   \<and> lookup_method example_host 2 [example_method 0 0 1, example_method 5 1 2] 2 example_final
       = Inr (Some (example_method 5 1 2), [example_method 0 0 1, example_method 5 1 2], 2,
              example_final)"
proof -
  have l: "\<not> file_lock example_agent"
    by (simp add: example_agent_def)
  have n: "length (new_queries example_agent
        (final_state (compiledMethodLoad example_host 1 4 0x1000
           [example_dummy, example_inline, example_inline2] example_agent))) = 10"
    unfolding example_load
    by (simp add: new_queries_def example_final_def example_agent_def example_queries_def)
  have f: "find (\<lambda>c. methodID c = 2) [example_method 0 0 1, example_method 5 1 2]
      = Some (example_method 5 1 2)"
    by simp
  note t = no_query_under_file_lock [OF l, of example_host 1 4 "0x1000"
      "[example_dummy, example_inline, example_inline2]"]
  from t have "\<not> (\<exists>q\<in>set (new_queries example_agent
        (final_state (compiledMethodLoad example_host 1 4 0x1000
           [example_dummy, example_inline, example_inline2] example_agent))). snd (snd q))"
    by blast
  moreover from t f have "lookup_method example_host 2 [example_method 0 0 1, example_method 5 1 2] 2
        example_final
       = Inr (Some (example_method 5 1 2), [example_method 0 0 1, example_method 5 1 2], 2,
              example_final)"
    by blast
  ultimately show ?thesis using l n by simp
qed

text \<open>
  The three handlers at a concrete state whose \<open>output_file\<close> is null.
\<close>

theorem handlers_with_null_sink_witness:
  "write_method_load_event example_host \<lparr>tv_sec = 1, tv_nsec = 2\<rparr> 4 0x1000 1
       [example_method 0 0 1] None (example_agent\<lparr>output_file := None\<rparr>)
     = Inr ([example_method 0 0 1], example_agent\<lparr>output_file := None\<rparr>)
   \<and> compiledMethodUnload example_host 1 0x1000 (example_agent\<lparr>output_file := None\<rparr>)
       = Inr (example_agent\<lparr>output_file := None\<rparr>)
   \<and> dynamicCodeGenerated example_host (Some ''stub'') 0x1000 4 (example_agent\<lparr>output_file := None\<rparr>)
       = Inr (example_agent\<lparr>output_file := None\<rparr>)
   \<and> output_file (final_state (compiledMethodLoad example_host 1 4 0x1000 [example_inline]
         (example_agent\<lparr>output_file := None\<rparr>))) = None
   \<and> \<not> file_lock (final_state (compiledMethodLoad example_host 1 4 0x1000 [example_inline]
         (example_agent\<lparr>output_file := None\<rparr>)))"
proof -
  have o: "output_file (example_agent\<lparr>output_file := None\<rparr>) = None"
    and l: "\<not> file_lock (example_agent\<lparr>output_file := None\<rparr>)"
    by (simp_all add: example_agent_def)
  have c: "fst (clock_gettime example_host) = 0"
    by (simp add: example_host_simps)
  from handlers_with_null_sink [OF o l, where h = example_host
      and ts = "\<lparr>tv_sec = 1, tv_nsec = 2\<rparr>" and code_size = 4 and code_addr = "0x1000"
      and methods_count = 1 and methods = "[example_method 0 0 1]" and inline_records = None
      and m = 1 and name = "Some ''stub''" and compile_info = "[example_inline]"] c
  show ?thesis by simp
qed

text \<open>
  A concrete chain: a dummy record, an inline record and a second inline
  record that is never read.
\<close>

theorem compiledMethodLoad_first_inline_record_witness:
  "compiledMethodLoad example_host 1 4 0x1000 [example_dummy, example_inline, example_inline2]
     example_agent
   = compiledMethodLoad example_host 1 4 0x1000 [example_inline] example_agent
   \<and> compiledMethodLoad example_host 1 4 0x1000 [example_inline] example_agent = Inr example_final"
proof -
  have 1: "\<forall>r\<in>set [example_dummy]. kind r \<noteq> JVMTI_CMLR_INLINE_INFO"
    by (simp add: example_dummy_def)
  have 2: "kind example_inline = JVMTI_CMLR_INLINE_INFO"
    by (simp add: example_inline_def)
  from compiledMethodLoad_first_inline_record [OF 1 2, of example_host "[example_inline2]" _ _ _ 1 4 "0x1000",
      THEN conjunct2]
  have "compiledMethodLoad example_host 1 4 0x1000 [example_dummy, example_inline, example_inline2]
     example_agent
   = compiledMethodLoad example_host 1 4 0x1000 [example_inline] example_agent"
    by simp
  with example_load show ?thesis by simp
qed

lemma read_be32_bits:
  "(push_bit 24 (ucast (ucast (drop_bit 24 x) :: byte))
    OR push_bit 16 (ucast (ucast (drop_bit 16 x) :: byte))
    OR push_bit 8 (ucast (ucast (drop_bit 8 x) :: byte)) OR ucast (ucast x :: byte) :: 32 word) = x"
  apply (rule bit_word_eqI)
  apply (simp add: bit_simps)
  subgoal for n
    apply (cases "n < 8"; cases "n < 16"; cases "n < 24")
           apply auto
    done
  done

lemma read_be32: "read_be32 (be32 x @ r) = x"
  using read_be32_bits [of x] by (simp add: read_be32_def be32_def)

lemma unat_of_char: "unat (of_char c :: byte) = of_char c"
proof -
  have "(of_char c :: byte) = of_nat (of_char c)" by (simp only: of_nat_of_char)
  moreover have "(of_char c :: nat) < 256"
    by (cases c) (simp add: of_char_def horner_sum_eq_sum)
  ultimately show ?thesis by (simp add: of_nat_inverse [OF refl])
qed

lemma be32_inj: "be32 x @ r = be32 y @ r' \<Longrightarrow> x = y"
  by (metis read_be32)

lemma chars_inj: "chars a = chars b \<Longrightarrow> a = b"
proof -
  assume "chars a = chars b"
  then have "map (\<lambda>w. char_of (unat w)) (chars a) = map (\<lambda>w. char_of (unat w)) (chars b)" by simp
  then show ?thesis by (simp add: chars_def comp_def unat_of_char)
qed

lemma len_inj:
  assumes "(of_nat a :: 32 word) = of_nat b" "a \<le> INT_MAX" "b \<le> INT_MAX"
  shows "a = b"
proof -
  have ua: "unat (of_nat a :: 32 word) = a" and ub: "unat (of_nat b :: 32 word) = b"
    using assms(2,3) by (simp_all add: INT_MAX_def of_nat_inverse [OF refl])
  from assms(1) have "unat (of_nat a :: 32 word) = unat (of_nat b :: 32 word)" by (rule arg_cong)
  then show ?thesis unfolding ua ub .
qed

lemma len_not_m1: "n \<le> INT_MAX \<Longrightarrow> (of_nat n :: 32 word) \<noteq> - 1"
proof
  assume n: "n \<le> INT_MAX" and e: "(of_nat n :: 32 word) = - 1"
  have un: "unat (of_nat n :: 32 word) = n"
    using n by (simp add: INT_MAX_def of_nat_inverse [OF refl])
  have u1: "unat (- 1 :: 32 word) = 4294967295" unfolding m1_num by simp
  from e have "unat (of_nat n :: 32 word) = unat (- 1 :: 32 word)" by (rule arg_cong)
  then have "n = 4294967295" unfolding un u1 .
  with n show False by (simp add: INT_MAX_def)
qed

lemma nullable_str_inj:
  assumes "nullable_str p @ r = nullable_str q @ r'"
    and "case p of None \<Rightarrow> True | Some cs \<Rightarrow> length cs \<le> INT_MAX"
    and "case q of None \<Rightarrow> True | Some cs \<Rightarrow> length cs \<le> INT_MAX"
  shows "p = q \<and> r = r'"
proof (cases p)
  case None
  show ?thesis
  proof (cases q)
    case qn: None
    with None assms(1) show ?thesis by (simp add: nullable_str_def)
  next
    case (Some b)
    with None assms(1) have "be32 (- 1) @ r = be32 (of_nat (length b)) @ (chars b @ r')"
      by (simp add: nullable_str_def len_str_def)
    from be32_inj [OF this] len_not_m1 [of "length b"] assms(3) Some show ?thesis by simp
  qed
next
  case (Some a)
  show ?thesis
  proof (cases q)
    case None
    with Some assms(1) have "be32 (of_nat (length a)) @ (chars a @ r) = be32 (- 1) @ r'"
      by (simp add: nullable_str_def len_str_def)
    from be32_inj [OF this] len_not_m1 [of "length a"] assms(2) Some show ?thesis by simp
  next
    case qs: (Some b)
    with Some assms(1) have e: "be32 (of_nat (length a)) @ (chars a @ r) = be32 (of_nat (length b)) @ (chars b @ r')"
      by (simp add: nullable_str_def len_str_def)
    from be32_inj [OF e] assms(2,3) Some qs have l: "length a = length b"
      by (intro len_inj) simp_all
    from e have "chars a @ r = chars b @ r'" by simp
    with l have "chars a = chars b" "r = r'" by simp_all
    with chars_inj Some qs show ?thesis by simp
  qed
qed

lemma wrote_inj: "is_open s \<Longrightarrow> wrote a s = wrote b s \<Longrightarrow> a = b"
proof -
  assume o: "is_open s" and e: "wrote a s = wrote b s"
  from o obtain f where f: "output_file s = Some f" by (auto simp add: is_open_def)
  from e have "output_file (wrote a s) = output_file (wrote b s)" by simp
  with f have "contents f @ a = contents f @ b"
    by (cases f) (simp add: wrote_def)
  then show ?thesis by simp
qed

lemma write_string_or_null_iff:
  "write_string_or_null h p s = Inr s' \<longleftrightarrow>
     is_open s \<and> length (nullable_str p) \<le> space s
     \<and> (case p of None \<Rightarrow> True | Some cs \<Rightarrow> length cs \<le> INT_MAX)
     \<and> s' = wrote (nullable_str p) s"
  by (cases p)
    (auto simp add: write_string_or_null_def write_jint_iff write_string_iff nullable_str_def len_str_def)

lemma be32_0: "be32 0 = [0, 0, 0, 0]"
  by (simp add: be32_def)

lemma null_method_ok:
  assumes "class_signature m = Some (a1, c)" "method_name m = Some (a2, n)"
    "method_signature m = Some (a3, g)" "source_file m = None" "line_number_table_count m = 0"
    "length c \<le> INT_MAX" "length n \<le> INT_MAX" "length g \<le> INT_MAX"
    "is_open s" "20 + length c + length n + length g \<le> space s"
  shows "write_method h m s
     = Inr (wrote (len_str c @ len_str n @ len_str g @ [255, 255, 255, 255] @ [0, 0, 0, 0]) s)"
  using assms
  by (simp add: write_method_def deref_def write_string_ok write_jint_ok write_string_or_null_def
      be32_m1 be32_0 len_str_def)

text \<open>
  Claim C8. \<open>write_method\<close> writes one entry of the method table of a CMLT record. The
  source file goes through \<open>write_string_or_null\<close>: a null source file is written as the
  four bytes of the length -1 and nothing else, an empty string as the four bytes of the
  length 0 and nothing else, and two different arguments never leave the same bytes in the
  stream. An entry with a null source file holds the bytes of -1 between the method
  signature and the line count; an entry whose line count is 0 ends with the four bytes of
  0, no line entry after them. With room in the stream such an entry is written in full.
\<close>

theorem null_source_and_empty_line_table:
  "(write_string_or_null h None s = Inr s' \<longleftrightarrow>
      is_open s \<and> 4 \<le> space s \<and> s' = wrote [255, 255, 255, 255] s)
   \<and> (write_string_or_null h (Some []) s = Inr s' \<longleftrightarrow>
      is_open s \<and> 4 \<le> space s \<and> s' = wrote [0, 0, 0, 0] s)
   \<and> (p \<noteq> q \<and> write_string_or_null h p s = Inr t \<and> write_string_or_null h q s = Inr t'
        \<longrightarrow> t \<noteq> t')
   \<and> (source_file m = None \<and> write_method h m s = Inr s' \<longrightarrow>
        s' = wrote (required_str (class_signature m) @ required_str (method_name m)
                    @ required_str (method_signature m) @ [255, 255, 255, 255]
                    @ be32 (line_number_table_count m) @ concat (map line_entry (line_entries m))) s)
   \<and> (line_number_table_count m = 0 \<and> write_method h m s = Inr s' \<longrightarrow>
        s' = wrote (required_str (class_signature m) @ required_str (method_name m)
                    @ required_str (method_signature m) @ nullable_str (deref (source_file m))
                    @ [0, 0, 0, 0]) s)
   \<and> (class_signature m = Some (a1, c) \<and> method_name m = Some (a2, n)
        \<and> method_signature m = Some (a3, g) \<and> source_file m = None
        \<and> line_number_table_count m = 0
        \<and> length c \<le> INT_MAX \<and> length n \<le> INT_MAX \<and> length g \<le> INT_MAX
        \<and> is_open s \<and> 20 + length c + length n + length g \<le> space s \<longrightarrow>
        write_method h m s
          = Inr (wrote (len_str c @ len_str n @ len_str g @ [255, 255, 255, 255] @ [0, 0, 0, 0]) s))"
proof (intro conjI impI)
  show "write_string_or_null h None s = Inr s' \<longleftrightarrow>
      is_open s \<and> 4 \<le> space s \<and> s' = wrote [255, 255, 255, 255] s"
    by (simp add: write_string_or_null_def write_jint_iff be32_m1)
  show "write_string_or_null h (Some []) s = Inr s' \<longleftrightarrow>
      is_open s \<and> 4 \<le> space s \<and> s' = wrote [0, 0, 0, 0] s"
    by (simp add: write_string_or_null_def write_string_iff INT_MAX_def be32_0 chars_def)
next
  assume a: "p \<noteq> q \<and> write_string_or_null h p s = Inr t \<and> write_string_or_null h q s = Inr t'"
  show "t \<noteq> t'"
  proof
    assume "t = t'"
    with a have p: "write_string_or_null h p s = Inr t" and q: "write_string_or_null h q s = Inr t"
      by simp_all
    from p have o: "is_open s" and tp: "t = wrote (nullable_str p) s"
      and lp: "case p of None \<Rightarrow> True | Some cs \<Rightarrow> length cs \<le> INT_MAX"
      unfolding write_string_or_null_iff by blast+
    from q have tq: "t = wrote (nullable_str q) s"
      and lq: "case q of None \<Rightarrow> True | Some cs \<Rightarrow> length cs \<le> INT_MAX"
      unfolding write_string_or_null_iff by blast+
    from tp [symmetric] tq have e: "wrote (nullable_str p) s = wrote (nullable_str q) s"
      by (rule trans)
    from wrote_inj [OF o e] have "nullable_str p @ [] = nullable_str q @ []" by simp
    from nullable_str_inj [OF this lp lq] a show False by simp
  qed
next
  assume a: "source_file m = None \<and> write_method h m s = Inr s'"
  from emitsD [OF emits_write_method] a have "s' = wrote (method_entry m) s" by blast
  with a show "s' = wrote (required_str (class_signature m) @ required_str (method_name m)
                    @ required_str (method_signature m) @ [255, 255, 255, 255]
                    @ be32 (line_number_table_count m) @ concat (map line_entry (line_entries m))) s"
    by (simp add: method_entry_def deref_def nullable_str_def be32_m1)
next
  assume a: "line_number_table_count m = 0 \<and> write_method h m s = Inr s'"
  from emitsD [OF emits_write_method] a have "s' = wrote (method_entry m) s" by blast
  with a show "s' = wrote (required_str (class_signature m) @ required_str (method_name m)
                    @ required_str (method_signature m) @ nullable_str (deref (source_file m))
                    @ [0, 0, 0, 0]) s"
    by (simp add: method_entry_def line_entries_def be32_0)
next
  assume "class_signature m = Some (a1, c) \<and> method_name m = Some (a2, n)
        \<and> method_signature m = Some (a3, g) \<and> source_file m = None
        \<and> line_number_table_count m = 0
        \<and> length c \<le> INT_MAX \<and> length n \<le> INT_MAX \<and> length g \<le> INT_MAX
        \<and> is_open s \<and> 20 + length c + length n + length g \<le> space s"
  then show "write_method h m s
          = Inr (wrote (len_str c @ len_str n @ len_str g @ [255, 255, 255, 255] @ [0, 0, 0, 0]) s)"
    by (intro null_method_ok) simp_all
qed

theorem null_source_and_empty_line_table_witness:
  "write_string_or_null example_host None example_agent
     = Inr (example_agent\<lparr>output_file := Some \<lparr>contents = [255, 255, 255, 255], room = 996\<rparr>\<rparr>)
   \<and> write_string_or_null example_host (Some []) example_agent
     = Inr (example_agent\<lparr>output_file := Some \<lparr>contents = [0, 0, 0, 0], room = 996\<rparr>\<rparr>)
   \<and> write_string_or_null example_host None example_agent
     \<noteq> write_string_or_null example_host (Some []) example_agent
   \<and> write_method example_host null_method example_agent
     = Inr (example_agent\<lparr>output_file := Some
              \<lparr>contents = [0, 0, 0, 6, 76, 77, 97, 105, 110, 59,  0, 0, 0, 3, 114, 117, 110,
                           0, 0, 0, 3, 40, 41, 86,  255, 255, 255, 255,  0, 0, 0, 0],
               room = 968\<rparr>\<rparr>)"
proof -
  let ?a = "example_agent\<lparr>output_file := Some \<lparr>contents = [255, 255, 255, 255], room = 996\<rparr>\<rparr>"
  let ?b = "example_agent\<lparr>output_file := Some \<lparr>contents = [0, 0, 0, 0], room = 996\<rparr>\<rparr>"
  let ?c = "example_agent\<lparr>output_file := Some
              \<lparr>contents = [0, 0, 0, 6, 76, 77, 97, 105, 110, 59,  0, 0, 0, 3, 114, 117, 110,
                           0, 0, 0, 3, 40, 41, 86,  255, 255, 255, 255,  0, 0, 0, 0],
               room = 968\<rparr>\<rparr>"
  note t = null_source_and_empty_line_table [where h = example_host and s = example_agent
      and m = null_method and p = None and q = "Some []" and ?a1.0 = 3 and c = "''LMain;''"
      and ?a2.0 = 1 and n = "''run''" and ?a3.0 = 2 and g = "''()V''"]
  have w: "wrote [255, 255, 255, 255] example_agent = ?a" "wrote [0, 0, 0, 0] example_agent = ?b"
    by (simp_all add: wrote_def example_agent_def)
  have o: "is_open example_agent" "space example_agent = 1000"
    by (simp_all add: is_open_def space_def example_agent_def)
  from t [where s' = ?a, THEN conjunct1] w o
  have 1: "write_string_or_null example_host None example_agent = Inr ?a" by simp
  from t [where s' = ?b, THEN conjunct2, THEN conjunct1] w o
  have 2: "write_string_or_null example_host (Some []) example_agent = Inr ?b" by simp
  from t [where t = ?a and t' = ?b, THEN conjunct2, THEN conjunct2, THEN conjunct1] 1 2
  have 3: "write_string_or_null example_host None example_agent
     \<noteq> write_string_or_null example_host (Some []) example_agent" by simp
  from t [where s' = ?c, THEN conjunct2, THEN conjunct2, THEN conjunct2, THEN conjunct2, THEN conjunct2] o
  have "write_method example_host null_method example_agent
     = Inr (wrote (len_str ''LMain;'' @ len_str ''run'' @ len_str ''()V'' @ [255, 255, 255, 255]
                   @ [0, 0, 0, 0]) example_agent)"
    by (simp add: null_method_def INT_MAX_def)
  then have 4: "write_method example_host null_method example_agent = Inr ?c"
    by (simp add: len_str_def be32_def chars_def wrote_def example_agent_def)
  from 1 2 3 4 show ?thesis by simp
qed

lemma strstr_None: "strstr hay needle = None \<Longrightarrow> take (length needle) (drop j hay) \<noteq> needle"
proof (induction hay arbitrary: j)
  case Nil
  then show ?case by (auto split: if_splits)
next
  case (Cons c cs)
  then show ?case by (cases j) (auto split: if_splits)
qed

lemma strstr_Some:
  "strstr hay needle = Some k \<Longrightarrow>
   take (length needle) (drop k hay) = needle \<and> k \<le> length hay
   \<and> (\<forall>j<k. take (length needle) (drop j hay) \<noteq> needle)"
proof (induction hay arbitrary: k)
  case Nil
  then show ?case by (auto split: if_splits)
next
  case (Cons c cs)
  show ?case
  proof (cases "take (length needle) (c # cs) = needle")
    case True
    with Cons.prems show ?thesis by simp
  next
    case False
    with Cons.prems obtain k' where k': "strstr cs needle = Some k'" "k = Suc k'" by auto
    from Cons.IH [OF k'(1)] False k'(2) show ?thesis
      by (auto simp add: less_Suc_eq_0_disj)
  qed
qed

lemma strstr_first:
  assumes "take (length needle) (drop k hay) = needle" "\<forall>j<k. take (length needle) (drop j hay) \<noteq> needle"
  shows "strstr hay needle = Some k"
proof (cases "strstr hay needle")
  case None
  from strstr_None [OF this, of k] assms(1) show ?thesis by simp
next
  case (Some k')
  from strstr_Some [OF Some] assms have "\<not> k' < k" "\<not> k < k'" by auto
  with Some show ?thesis by simp
qed

lemma length_decimal_nat: "n < 10 ^ Suc d \<Longrightarrow> length (decimal_nat n) \<le> Suc d"
proof (induction d arbitrary: n)
  case 0
  then show ?case by (subst decimal_nat.simps) simp
next
  case (Suc d)
  show ?case
  proof (cases "n < 10")
    case True
    then show ?thesis by (subst decimal_nat.simps) simp
  next
    case False
    from Suc.prems have "n div 10 < 10 ^ Suc d" by (simp add: less_mult_imp_div_less)
    from Suc.IH [OF this] False show ?thesis by (subst decimal_nat.simps) simp
  qed
qed

lemma length_decimal: "length (decimal (sint (pid :: jint))) \<le> 11"
proof -
  have b: "- (2 ^ 31) \<le> sint pid" "sint pid < 2 ^ 31"
    using sint_ge [of pid] sint_lt [of pid] by simp_all
  have "nat (sint pid) < 10 ^ Suc 9" "nat (- sint pid) < 10 ^ Suc 9" using b by simp_all
  from length_decimal_nat [OF this(1)] length_decimal_nat [OF this(2)]
  show ?thesis by (simp add: decimal_def)
qed

lemma snprintf_d_pid: "snprintf_d 32 (sint (pid :: jint)) = decimal (sint pid)"
  using length_decimal [of pid] by (simp add: snprintf_d_def)

lemma read_decimal_nat: "read_decimal (decimal_nat n) = n"
proof (induction n rule: decimal_nat.induct)
  case (1 n)
  show ?case
  proof (cases "n < 10")
    case True
    then show ?thesis by (subst decimal_nat.simps) (simp add: read_decimal_def)
  next
    case False
    with 1 have "read_decimal (decimal_nat (n div 10)) = n div 10" by simp
    with False show ?thesis
      by (subst decimal_nat.simps) (simp add: read_decimal_def)
  qed
qed

text \<open>
  Claim C9. When the option string holds the placeholder \<open>%p\<close> at offset \<open>k\<close> and at no
  smaller offset, the file name is the option string with these two characters replaced by
  the decimal digits of the process id; the characters after them, later placeholders
  included, are kept as they are. When no offset holds the placeholder, the file name is
  the option string itself. The digits read back as the process id.
\<close>

theorem filename_replaces_first_placeholder:
  "(placeholder_at path k \<and> (\<forall>j<k. \<not> placeholder_at path j) \<longrightarrow>
      path = take k path @ ''%p'' @ drop (k + 2) path
      \<and> filename path pid = take k path @ decimal (sint pid) @ drop (k + 2) path)
   \<and> ((\<forall>j<length path. \<not> placeholder_at path j) \<longrightarrow> filename path pid = path)
   \<and> (0 \<le> sint pid \<longrightarrow> read_decimal (decimal (sint pid)) = nat (sint pid))"
proof (intro conjI impI)
  assume a: "placeholder_at path k \<and> (\<forall>j<k. \<not> placeholder_at path j)"
  then have "strstr path ''%p'' = Some k"
    by (intro strstr_first) (simp_all add: placeholder_at_def numeral_2_eq_2)
  then show "filename path pid = take k path @ decimal (sint pid) @ drop (k + 2) path"
    by (simp add: filename_def snprintf_d_pid)
  from a have "take 2 (drop k path) = ''%p''" by (simp add: placeholder_at_def)
  then have "drop k path = ''%p'' @ drop 2 (drop k path)"
    by (metis append_take_drop_id)
  then have "take k path @ ''%p'' @ drop (k + 2) path = take k path @ drop k path"
    by (simp add: add.commute)
  then show "path = take k path @ ''%p'' @ drop (k + 2) path" by simp
next
  assume a: "\<forall>j<length path. \<not> placeholder_at path j"
  have "strstr path ''%p'' = None"
  proof (cases "strstr path ''%p''")
    case (Some k)
    from strstr_Some [OF Some] have t: "take 2 (drop k path) = ''%p''" "k \<le> length path"
      by (simp_all add: numeral_2_eq_2)
    then have "k < length path" by (cases "k = length path") auto
    with a t show ?thesis by (simp add: placeholder_at_def)
  qed simp
  then show "filename path pid = path" by (simp add: filename_def)
next
  assume "0 \<le> sint pid"
  then show "read_decimal (decimal (sint pid)) = nat (sint pid)"
    by (simp add: decimal_def read_decimal_nat)
qed

theorem filename_replaces_first_placeholder_witness:
  "filename ''trace-%p-%p.bin'' 4242 = ''trace-4242-%p.bin''
   \<and> filename ''trace.bin'' 4242 = ''trace.bin''
   \<and> decimal (sint (4242 :: jint)) = ''4242''
   \<and> read_decimal ''4242'' = 4242"
proof -
  have d: "decimal (sint (4242 :: jint)) = ''4242''"
    by code_simp
  have r: "read_decimal ''4242'' = 4242"
    by code_simp
  have p: "placeholder_at ''trace-%p-%p.bin'' 6"
    by (simp add: placeholder_at_def)
  have q: "\<forall>j<6. \<not> placeholder_at ''trace-%p-%p.bin'' j"
    by (simp add: placeholder_at_def All_less_Suc numeral_eq_Suc)
  have n: "\<forall>j<length ''trace.bin''. \<not> placeholder_at ''trace.bin'' j"
    by (simp add: placeholder_at_def All_less_Suc numeral_eq_Suc)
  from filename_replaces_first_placeholder [where path = "''trace-%p-%p.bin''" and k = 6 and pid = 4242]
    p q d
  have 1: "filename ''trace-%p-%p.bin'' 4242 = ''trace-4242-%p.bin''" by simp
  from filename_replaces_first_placeholder [where path = "''trace.bin''" and pid = 4242] n
  have 2: "filename ''trace.bin'' 4242 = ''trace.bin''" by simp
  from 1 2 d r show ?thesis by simp
qed

end
